(* ===== verification/Prelude.thy ===== *)
theory Prelude
  imports Main "HOL-Library.Word" "HOL-Library.AList" "HOL-Library.List_Lexorder"
    "HOL-Library.Char_ord"
begin

text \<open>
  Shared vocabulary of the development: machine integers at their C++ width, the two map
  containers the sources use (\<^verbatim>\<open>std::map\<close>, iterated in key order, and
  \<^verbatim>\<open>std::unordered_map\<close>) behind one interface locale, and
  exceptions as values of a sum type.
\<close>

section \<open>Machine types\<close>

type_synonym u8 = "8 word"
type_synonym u16 = "16 word"
type_synonym u32 = "32 word"
type_synonym u64 = "64 word"

text \<open>
  A \<^verbatim>\<open>double\<close> is its IEEE-754 binary64 bit pattern. The program moves doubles around and
  never computes with them, except that a JSON dump tells finite values from the others.
\<close>

type_synonym double = "64 word"

definition double_finite :: "double \<Rightarrow> bool" where
  "double_finite d \<longleftrightarrow> take_bit 11 (drop_bit 52 d) \<noteq> 2047"

text \<open>Exceptions are values: \<^term>\<open>Inl e\<close> is a throw with \<^verbatim>\<open>what() = e\<close>.\<close>

type_synonym 'a result = "string + 'a"

fun bind_result :: "'a result \<Rightarrow> ('a \<Rightarrow> 'b result) \<Rightarrow> 'b result" where
  "bind_result (Inl e) f = Inl e"
| "bind_result (Inr x) f = f x"

named_theorems container_simps \<open>look-up equations of the map containers\<close>
named_theorems invs \<open>preservation of the components' invariants\<close>

lemma bind_result_Inr_iff:
  "bind_result r f = Inr y \<longleftrightarrow> (\<exists>x. r = Inr x \<and> f x = Inr y)"
  by (cases r) auto

lemma bind_result_assoc:
  "bind_result (bind_result r f) g = bind_result r (\<lambda>x. bind_result (f x) g)"
  by (cases r) auto

lemma unat_inc:
  fixes c :: "'a::len word"
  assumes "Suc (unat c) < 2 ^ LENGTH('a)"
  shows "unat (c + 1) = Suc (unat c)"
proof (cases "LENGTH('a) = 1")
  case True
  then show ?thesis using assms by (auto simp: unat_word_ariths)
next
  case False
  then have "unat (1 :: 'a word) = 1" by simp
  then show ?thesis using assms by (subst unat_add_lem [THEN iffD1]) auto
qed

lemma unat_dec:
  fixes c :: "'a::len word"
  assumes "1 < unat c"
  shows "c \<noteq> 1 \<and> unat (c - 1) = unat c - 1"
  using assms by (auto simp: unat_sub_if_size)

lemma u64_less: "unat (c :: u64) < 2 ^ 64"
  by (rule order_less_le_trans [OF unsigned_less]) simp

section \<open>Containers\<close>

text \<open>
  The interface both map classes provide: \<^verbatim>\<open>find\<close>, \<^verbatim>\<open>m[k] = v\<close>,
  \<^verbatim>\<open>erase(k)\<close> and iteration over the keys.
\<close>

locale kv_container =
  fixes lookup :: "'m \<Rightarrow> 'k \<Rightarrow> 'v option"
    and put :: "'k \<Rightarrow> 'v \<Rightarrow> 'm \<Rightarrow> 'm"
    and del :: "'k \<Rightarrow> 'm \<Rightarrow> 'm"
    and keys :: "'m \<Rightarrow> 'k list"
    and ok :: "'m \<Rightarrow> bool"
  assumes lookup_put: "lookup (put k v m) = (lookup m)(k \<mapsto> v)"
    and lookup_del: "lookup (del k m) = (lookup m)(k := None)"
    and set_keys: "set (keys m) = dom (lookup m)"
    and distinct_keys: "ok m \<Longrightarrow> distinct (keys m)"
    and ok_put: "ok m \<Longrightarrow> ok (put k v m)"
    and ok_del: "ok m \<Longrightarrow> ok (del k m)"
begin

lemma length_keys: "ok m \<Longrightarrow> length (keys m) = card (dom (lookup m))"
  using distinct_keys set_keys by (metis distinct_card)

lemma finite_dom: "finite (dom (lookup m))"
  by (metis List.finite_set set_keys)

lemma keys_put: "set (keys (put k v m)) = insert k (set (keys m))"
  by (simp add: set_keys lookup_put)

lemma keys_del: "set (keys (del k m)) = set (keys m) - {k}"
  by (simp add: set_keys lookup_del)

lemma size_put:
  assumes "ok m"
  shows "length (keys (put k v m)) =
    (if lookup m k = None then Suc (length (keys m)) else length (keys m))"
proof -
  have "length (keys (put k v m)) = card (insert k (dom (lookup m)))"
    by (simp add: length_keys ok_put assms lookup_put)
  then show ?thesis
    by (auto simp: length_keys assms card_insert_if finite_dom domIff)
qed

lemma size_del:
  assumes "ok m" and "lookup m k \<noteq> None"
  shows "Suc (length (keys (del k m))) = length (keys m)"
proof -
  have "length (keys (del k m)) = card (dom (lookup m) - {k})"
    by (simp add: length_keys ok_del assms lookup_del)
  moreover have "k \<in> dom (lookup m)" using assms(2) by blast
  ultimately show ?thesis
    by (metis card.remove finite_dom length_keys [OF assms(1)])
qed

end

subsection \<open>\<^verbatim>\<open>std::unordered_map\<close>\<close>

text \<open>
  An association list with distinct keys. The iteration order of an unordered map is not
  specified; the model iterates in the order of insertion, and no property below depends on
  more than the set of entries unless it says so.
\<close>

type_synonym ('k, 'v) umap = "('k \<times> 'v) list"

definition umap_ok :: "('k, 'v) umap \<Rightarrow> bool" where
  "umap_ok m \<longleftrightarrow> distinct (map fst m)"

definition umap_keys :: "('k, 'v) umap \<Rightarrow> 'k list" where
  "umap_keys m = map fst m"

abbreviation umap_put :: "'k \<Rightarrow> 'v \<Rightarrow> ('k, 'v) umap \<Rightarrow> ('k, 'v) umap" where
  "umap_put \<equiv> AList.update"

abbreviation umap_del :: "'k \<Rightarrow> ('k, 'v) umap \<Rightarrow> ('k, 'v) umap" where
  "umap_del \<equiv> AList.delete"

interpretation um: kv_container map_of umap_put umap_del umap_keys umap_ok
  by unfold_locales
    (auto simp: update_conv' delete_conv' umap_keys_def umap_ok_def dom_map_of_conv_image_fst
      intro: distinct_update distinct_delete)

lemma umap_ok_Nil [simp]: "umap_ok []"
  by (simp add: umap_ok_def)

lemma umap_ok_lookup: "umap_ok m \<Longrightarrow> map_of m k = Some v \<longleftrightarrow> (k, v) \<in> set m"
  by (simp add: umap_ok_def)

subsection \<open>\<^verbatim>\<open>std::map\<close>\<close>

text \<open>An association list sorted strictly by key; iteration is in key order.\<close>

type_synonym ('k, 'v) omap = "('k \<times> 'v) list"

definition omap_ok :: "('k::linorder, 'v) omap \<Rightarrow> bool" where
  "omap_ok m \<longleftrightarrow> sorted_wrt (<) (map fst m)"

fun omap_put :: "'k::linorder \<Rightarrow> 'v \<Rightarrow> ('k, 'v) omap \<Rightarrow> ('k, 'v) omap" where
  "omap_put k v [] = [(k, v)]"
| "omap_put k v ((a, b) # m) =
     (if k < a then (k, v) # (a, b) # m
      else if k = a then (k, v) # m
      else (a, b) # omap_put k v m)"

abbreviation omap_del :: "'k::linorder \<Rightarrow> ('k, 'v) omap \<Rightarrow> ('k, 'v) omap" where
  "omap_del \<equiv> AList.delete"

abbreviation omap_keys :: "('k, 'v) omap \<Rightarrow> 'k list" where
  "omap_keys \<equiv> map fst"

lemma map_of_omap_put: "map_of (omap_put k v m) = (map_of m)(k \<mapsto> v)"
  by (induction m) auto

lemma set_keys_omap_put: "fst ` set (omap_put k v m) = insert k (fst ` set m)"
  by (metis dom_fun_upd dom_map_of_conv_image_fst map_of_omap_put option.distinct(1))

lemma omap_ok_Cons: "omap_ok ((a, b) # m) \<longleftrightarrow> (\<forall>x \<in> fst ` set m. a < x) \<and> omap_ok m"
  by (simp add: omap_ok_def)

lemma omap_ok_put: "omap_ok m \<Longrightarrow> omap_ok (omap_put k v m)"
proof (induction m)
  case (Cons p m)
  then show ?case
    by (cases p) (auto simp: omap_ok_Cons set_keys_omap_put simp del: image_iff)
qed (simp add: omap_ok_def)

lemma omap_ok_del: "omap_ok m \<Longrightarrow> omap_ok (omap_del k m)"
  by (simp add: omap_ok_def delete_keys removeAll_filter_not_eq sorted_wrt_filter)

lemma omap_ok_Nil [simp]: "omap_ok []"
  by (simp add: omap_ok_def)

lemma omap_ok_distinct: "omap_ok m \<Longrightarrow> distinct (omap_keys m)"
  by (metis omap_ok_def strict_sorted_iff)

lemma omap_ok_sorted: "omap_ok m \<Longrightarrow> sorted (omap_keys m)"
  by (metis omap_ok_def strict_sorted_iff)

interpretation om: kv_container map_of omap_put omap_del omap_keys omap_ok
  by unfold_locales
    (auto simp: map_of_omap_put delete_conv' dom_map_of_conv_image_fst
      intro: omap_ok_put omap_ok_del omap_ok_distinct)

lemmas [simp, container_simps] = um.lookup_put um.lookup_del om.lookup_put
lemmas [invs] = um.ok_put um.ok_del om.ok_put om.ok_del

end
