(* ===== verification/Cxx_Strings.thy ===== *)
theory Cxx_Strings
  imports Prelude
begin

text \<open>
  The string routines of the C and C++ standard libraries that the sources call: decimal
  printing (\<^verbatim>\<open>std::to_string\<close>, \<^verbatim>\<open>operator<<\<close>), \<^verbatim>\<open>std::stoi\<close>,
  \<^verbatim>\<open>std::string::find\<close>, and \<^verbatim>\<open>strncpy\<close> into a zero-initialised array.
\<close>

section \<open>Decimal numbers\<close>

definition digit_char :: "nat \<Rightarrow> char" where
  "digit_char d = char_of (48 + d)"

definition is_digit :: "char \<Rightarrow> bool" where
  "is_digit c \<longleftrightarrow> 48 \<le> (of_char c :: nat) \<and> (of_char c :: nat) \<le> 57"

definition digit_val :: "char \<Rightarrow> nat" where
  "digit_val c = of_char c - 48"

fun show_nat :: "nat \<Rightarrow> string" where
  "show_nat n = (if n < 10 then [digit_char n] else show_nat (n div 10) @ [digit_char (n mod 10)])"

definition show_int :: "int \<Rightarrow> string" where
  "show_int i = (if i < 0 then CHR ''-'' # show_nat (nat (- i)) else show_nat (nat i))"

definition read_nat :: "string \<Rightarrow> nat" where
  "read_nat s = foldl (\<lambda>n c. 10 * n + digit_val c) 0 s"

text \<open>
  \<^verbatim>\<open>std::stoi\<close> and \<^verbatim>\<open>std::stoll\<close>: leading white space, an optional sign, then the longest run of digits; at least
  one digit is needed (\<^verbatim>\<open>std::invalid_argument\<close>) and the value must fit the type
  (\<^verbatim>\<open>std::out_of_range\<close>). Characters after the digits are ignored.
\<close>

definition is_space :: "char \<Rightarrow> bool" where
  "is_space c \<longleftrightarrow> c = CHR '' '' \<or> (9 \<le> (of_char c :: nat) \<and> (of_char c :: nat) \<le> 13)"

definition stox :: "string \<Rightarrow> int \<Rightarrow> string \<Rightarrow> int result" where
  "stox what limit s =
     (let t = dropWhile is_space s;
          neg = (t \<noteq> [] \<and> hd t = CHR ''-'');
          u = (if t \<noteq> [] \<and> (hd t = CHR ''-'' \<or> hd t = CHR ''+'') then tl t else t);
          ds = takeWhile is_digit u;
          v = (if neg then - int (read_nat ds) else int (read_nat ds))
      in if ds = [] then Inl what
         else if v < - limit \<or> limit \<le> v then Inl what
         else Inr v)"

definition stoi :: "string \<Rightarrow> int result" where
  "stoi = stox ''stoi'' (2 ^ 31)"

definition stoll :: "string \<Rightarrow> int result" where
  "stoll = stox ''stoll'' (2 ^ 63)"

section \<open>Searching\<close>

text \<open>\<^verbatim>\<open>s.find(c)\<close>: the parts before and after the first \<^term>\<open>c\<close>, if there is one.\<close>

fun split_at_char :: "char \<Rightarrow> string \<Rightarrow> (string \<times> string) option" where
  "split_at_char c [] = None"
| "split_at_char c (x # xs) =
     (if x = c then Some ([], xs) else map_option (\<lambda>(a, b). (x # a, b)) (split_at_char c xs))"

text \<open>\<^verbatim>\<open>s.find(p)\<close>: the position of the first occurrence.\<close>

fun find_sub :: "string \<Rightarrow> string \<Rightarrow> nat option" where
  "find_sub p [] = (if p = [] then Some 0 else None)"
| "find_sub p (x # xs) =
     (if take (length p) (x # xs) = p then Some 0 else map_option Suc (find_sub p xs))"

section \<open>C strings\<close>

text \<open>
  What a \<^verbatim>\<open>char\<close> array of \<open>n\<close> zero bytes holds, read back as a C string, after
  \<^verbatim>\<open>strncpy(a, s.c_str(), n - 1)\<close>: the string up to its first NUL, cut at \<open>n - 1\<close>.
\<close>

definition c_str :: "string \<Rightarrow> string" where
  "c_str s = takeWhile (\<lambda>c. c \<noteq> CHR 0x00) s"

definition strncpy0 :: "nat \<Rightarrow> string \<Rightarrow> string" where
  "strncpy0 n s = take (n - 1) (c_str s)"

section \<open>Facts\<close>

declare show_nat.simps [simp del]

lemma digit_val_digit_char [simp]: "d < 10 \<Longrightarrow> digit_val (digit_char d) = d"
  by (simp add: digit_val_def digit_char_def)

lemma is_digit_digit_char [simp]: "d < 10 \<Longrightarrow> is_digit (digit_char d)"
  by (simp add: is_digit_def digit_char_def)

lemma show_nat_digits: "\<forall>c \<in> set (show_nat n). is_digit c"
proof (induction n rule: show_nat.induct)
  case (1 n)
  then show ?case by (subst show_nat.simps) auto
qed

lemma show_nat_nonempty [simp]: "show_nat n \<noteq> []"
  by (subst show_nat.simps) simp

lemma read_show_nat [simp]: "read_nat (show_nat n) = n"
proof (induction n rule: show_nat.induct)
  case (1 n)
  show ?case
  proof (cases "n < 10")
    case True
    then show ?thesis by (subst show_nat.simps) (simp add: read_nat_def)
  next
    case False
    with 1 have "read_nat (show_nat (n div 10)) = n div 10" by simp
    with False show ?thesis
      by (subst show_nat.simps) (simp add: read_nat_def)
  qed
qed

lemma show_nat_inject [simp]: "show_nat m = show_nat n \<longleftrightarrow> m = n"
  by (metis read_show_nat)

lemma show_nat_length: "n < 10 ^ Suc k \<Longrightarrow> length (show_nat n) \<le> Suc k"
proof (induction k arbitrary: n)
  case 0
  then show ?case by (subst show_nat.simps) simp
next
  case (Suc k)
  have "n div 10 < 10 ^ Suc k" using Suc.prems by auto
  from Suc.IH [OF this] show ?case by (subst show_nat.simps) simp
qed

lemma u64_show_length: "n < 2 ^ 64 \<Longrightarrow> length (show_nat n) \<le> 20"
  using show_nat_length [of n 19] by simp

lemma takeWhile_digits_append:
  "\<forall>c \<in> set ds. is_digit c \<Longrightarrow> (xs = [] \<or> \<not> is_digit (hd xs)) \<Longrightarrow> takeWhile is_digit (ds @ xs) = ds"
  by (induction ds) (auto simp: takeWhile_eq_Nil_iff)

lemma digits_sep_inject:
  assumes "\<forall>c \<in> set a. is_digit c" and "\<forall>c \<in> set b. is_digit c" and "\<not> is_digit x"
    and "a @ x # s = b @ x # t"
  shows "a = b \<and> s = t"
proof -
  have "a = b"
    using takeWhile_digits_append [of a "x # s"] takeWhile_digits_append [of b "x # t"] assms
    by simp
  with assms(4) show ?thesis by simp
qed

lemma show_nat_sep_inject:
  assumes "\<not> is_digit x"
  shows "show_nat a @ x # s = show_nat b @ x # t \<longleftrightarrow> a = b \<and> s = t"
  using digits_sep_inject [OF show_nat_digits [of a] show_nat_digits [of b] assms, of s t]
  by simp blast

lemma not_digit_sep [simp]: "\<not> is_digit (CHR ''_'')" "\<not> is_digit (CHR ''-'')"
  by (simp_all add: is_digit_def)

lemma split_at_char_Some:
  "split_at_char c s = Some (a, b) \<longleftrightarrow> s = a @ c # b \<and> c \<notin> set a"
proof (induction s arbitrary: a)
  case (Cons x xs)
  show ?case
    by (cases a) (auto simp: Cons.IH)
qed simp

lemma split_at_char_None: "split_at_char c s = None \<longleftrightarrow> c \<notin> set s"
  by (induction s) auto

lemma strncpy0_length: "0 < n \<Longrightarrow> length (strncpy0 n s) < n"
  by (auto simp: strncpy0_def min_def)

lemma strncpy0_id:
  assumes "CHR 0x00 \<notin> set s" and "length s < n"
  shows "strncpy0 n s = s"
proof -
  have "c_str s = s" using assms(1) by (auto simp: c_str_def takeWhile_eq_all_conv)
  with assms(2) show ?thesis by (simp add: strncpy0_def)
qed

lemma c_str_strncpy0 [simp]: "c_str (strncpy0 n s) = strncpy0 n s"
  unfolding c_str_def takeWhile_eq_all_conv strncpy0_def
  by (metis in_set_takeD set_takeWhileD)

lemma strncpy0_Nil [simp]: "strncpy0 n [] = []"
  by (simp add: strncpy0_def c_str_def)

lemma takeWhile_digits_show_nat:
  "rest = [] \<or> \<not> is_digit (hd rest) \<Longrightarrow> takeWhile is_digit (show_nat n @ rest) = show_nat n"
  using takeWhile_digits_append [OF show_nat_digits] .

lemma show_nat_first: "\<exists>c cs. show_nat n = c # cs \<and> is_digit c \<and> \<not> is_space c \<and> c \<noteq> CHR ''-'' \<and> c \<noteq> CHR ''+''"
proof -
  obtain c cs where s: "show_nat n = c # cs" by (cases "show_nat n") auto
  then have "is_digit c" using show_nat_digits [of n] by simp
  then show ?thesis using s by (auto simp: is_digit_def is_space_def)
qed

text \<open>Reading back a printed \<^verbatim>\<open>int\<close> that is followed by anything but a digit.\<close>

lemma stox_show_int:
  assumes "- limit \<le> v" and "v < limit" and "rest = [] \<or> \<not> is_digit (hd rest)"
  shows "stox what limit (show_int v @ rest) = Inr v"
proof (cases "v < 0")
  case True
  then show ?thesis
    using assms by (simp add: stox_def show_int_def Let_def is_space_def takeWhile_digits_show_nat)
next
  case False
  obtain c cs where c: "show_nat (nat v) = c # cs" "is_digit c" "\<not> is_space c" "c \<noteq> CHR ''-''" "c \<noteq> CHR ''+''"
    using show_nat_first by blast
  have "takeWhile is_digit (c # cs @ rest) = c # cs"
    using takeWhile_digits_show_nat [OF assms(3), of "nat v"] c(1) by simp
  moreover have "read_nat (c # cs) = nat v" using read_show_nat [of "nat v"] c(1) by simp
  ultimately show ?thesis
    using False assms(1,2) c by (simp add: stox_def show_int_def Let_def)
qed

lemma stoi_show_int:
  "- (2 ^ 31) \<le> v \<Longrightarrow> v < 2 ^ 31 \<Longrightarrow> rest = [] \<or> \<not> is_digit (hd rest) \<Longrightarrow> stoi (show_int v @ rest) = Inr v"
  unfolding stoi_def by (rule stox_show_int)

lemma stoi_show_nat: "n < 2 ^ 31 \<Longrightarrow> stoi (show_nat n) = Inr (int n)"
  using stoi_show_int [of "int n" "[]"] by (simp add: show_int_def)

lemma stoll_show_int: "- (2 ^ 63) \<le> v \<Longrightarrow> v < 2 ^ 63 \<Longrightarrow> stoll (show_int v) = Inr v"
  using stox_show_int [of "2 ^ 63" v "[]" "''stoll''"] by (simp add: stoll_def)

text \<open>A found position, and how it depends on what follows in the text.\<close>

lemma find_sub_bound: "find_sub p s = Some i \<Longrightarrow> i + length p \<le> length s \<and> take (length p) (drop i s) = p"
proof (induction s arbitrary: i)
  case (Cons x xs)
  show ?case
  proof (cases "take (length p) (x # xs) = p")
    case True
    then have "i = 0" using Cons.prems by simp
    then show ?thesis using True by (metis add_0 drop0 length_take min.cobounded1)
  next
    case False
    then obtain j where "find_sub p xs = Some j" "i = Suc j" using Cons.prems by auto
    then show ?thesis using Cons.IH [of j] by simp
  qed
qed (auto split: if_splits)

lemma find_sub_append: "find_sub p s = Some i \<Longrightarrow> find_sub p (s @ t) = Some i"
proof (induction s arbitrary: i)
  case Nil
  then show ?case by (cases t) (auto split: if_splits)
next
  case (Cons x xs)
  show ?case
  proof (cases "take (length p) (x # xs) = p")
    case True
    then have "length p \<le> length (x # xs)" by (metis length_take min.cobounded1)
    then have "take (length p) (x # xs @ t) = p" using True by (metis append_Cons append_take_drop_id take_append diff_is_0_eq take0 append_Nil2)
    then show ?thesis using Cons.prems True by simp
  next
    case False
    then obtain j where j: "find_sub p xs = Some j" "i = Suc j" using Cons.prems by auto
    have "length p \<le> length xs" using find_sub_bound [OF j(1)] by simp
    then have "take (length p) (x # xs @ t) = take (length p) (x # xs)" by (cases "length p") simp_all
    then show ?thesis using Cons.IH [OF j(1)] j(2) False by simp
  qed
qed

lemma find_sub_prefix:
  assumes "find_sub p (s @ t) = Some i"
  shows "find_sub p s = (if i + length p \<le> length s then Some i else None)"
proof (cases "find_sub p s")
  case (Some j)
  then have "j = i" using assms find_sub_append [OF Some, of t] by simp
  then show ?thesis using Some find_sub_bound by auto
next
  case None
  have "\<not> i + length p \<le> length s" using assms None
  proof (induction s arbitrary: i)
    case Nil
    then show ?case by (cases p) auto
  next
    case (Cons x xs)
    have "take (length p) (x # xs) \<noteq> p" and n: "find_sub p xs = None"
      using Cons.prems(2) by (auto split: if_splits)
    show ?case
    proof (cases "take (length p) (x # xs @ t) = p")
      case True
      then have "i = 0" using Cons.prems(1) by simp
      moreover have "\<not> length p \<le> length (x # xs)"
        using True \<open>take (length p) (x # xs) \<noteq> p\<close> by (cases "length p") auto
      ultimately show ?thesis by simp
    next
      case False
      then obtain j where "find_sub p (xs @ t) = Some j" "i = Suc j" using Cons.prems(1) by auto
      then show ?thesis using Cons.IH [of j] n by simp
    qed
  qed
  then show ?thesis using None by simp
qed

section \<open>Identifiers made of a clock reading and a counter\<close>

text \<open>
  Buffers, jobs and commands get identifiers that join the clock, whose readings may repeat or go
  back, and a 64-bit counter. \<open>issued mk used nxt\<close>: every identifier in use was made with
  a counter value below the next one.
\<close>

definition issued :: "(nat \<Rightarrow> u64 \<Rightarrow> string) \<Rightarrow> string set \<Rightarrow> u64 \<Rightarrow> bool" where
  "issued mk used nxt \<longleftrightarrow> (\<forall>i \<in> used. \<exists>ms c. i = mk ms c \<and> c < nxt)"

locale id_source =
  fixes mk :: "nat \<Rightarrow> u64 \<Rightarrow> string"
  assumes inject: "mk ms c = mk ms' c' \<longleftrightarrow> ms = ms' \<and> c = c'"
begin

lemma fresh: "issued mk used nxt \<Longrightarrow> mk ms nxt \<notin> used"
  by (auto simp: issued_def inject)

lemma issued_subset: "issued mk used nxt \<Longrightarrow> used' \<subseteq> used \<Longrightarrow> issued mk used' nxt"
  by (auto simp: issued_def)

lemma issued_next:
  assumes "issued mk used nxt" and "Suc (unat nxt) < 2 ^ 64"
  shows "issued mk (insert (mk ms nxt) used) (nxt + 1)"
proof -
  have "c < nxt + 1 \<longleftrightarrow> c \<le> nxt" for c
    using assms(2) unat_inc [of nxt] by (simp add: word_less_nat_alt word_le_nat_alt less_Suc_eq_le)
  then show ?thesis
    using assms(1) unfolding issued_def by (auto simp: inject intro: less_imp_le)
qed

end

end
