(* ===== verification/Json.thy ===== *)
theory Json
  imports Cxx_Strings
begin

text \<open>
  JSON documents as \<^verbatim>\<open>nlohmann::json\<close> holds them, and the accessors the sources use on them.
  The text format itself (\<^verbatim>\<open>dump\<close> and \<^verbatim>\<open>parse\<close>) and the numeric conversions belong
  to the library and are arguments of the model, collected in a record of type
  \<open>json_lib\<close>; what the program relies on is the named hypothesis \<open>json_lib_ok\<close>.
\<close>

datatype json =
    JNull
  | JBool bool
  | JInt int
  | JFloat double
  | JStr string
  | JArr "json list"
  | JObj "(string, json) omap"

record json_lib =
  jl_dump :: "json \<Rightarrow> string result"  \<comment> \<open>throws on a string that is not UTF-8\<close>
  jl_parse :: "string \<Rightarrow> json result"  \<comment> \<open>throws on malformed text\<close>
  jl_f2i :: "double \<Rightarrow> int"
  jl_i2f :: "int \<Rightarrow> double"

section \<open>Accessors\<close>

text \<open>\<^verbatim>\<open>j[k]\<close> for reading: an absent member reads as null, null behaves as an empty object,
  and any other kind of value throws \<^verbatim>\<open>type_error.305\<close>.\<close>

fun jget :: "json \<Rightarrow> string \<Rightarrow> json result" where
  "jget (JObj m) k = Inr (case map_of m k of None \<Rightarrow> JNull | Some v \<Rightarrow> v)"
| "jget JNull k = Inr JNull"
| "jget _ k = Inl ''type_error.305''"

fun json_contains :: "json \<Rightarrow> string \<Rightarrow> bool" where
  "json_contains (JObj m) k = (map_of m k \<noteq> None)"
| "json_contains _ k = False"

text \<open>\<^verbatim>\<open>j[k] = v\<close>: null becomes an object, and any other kind of value throws.\<close>

fun jset :: "string \<Rightarrow> json \<Rightarrow> json \<Rightarrow> json result" where
  "jset k v (JObj m) = Inr (JObj (omap_put k v m))"
| "jset k v JNull = Inr (JObj [(k, v)])"
| "jset k v _ = Inl ''type_error.305''"

definition json_object :: "(string \<times> json) list \<Rightarrow> json" where
  "json_object kvs = JObj (fold (\<lambda>(k, v). omap_put k v) kvs [])"

fun get_string :: "json \<Rightarrow> string result" where
  "get_string (JStr s) = Inr s"
| "get_string _ = Inl ''type_error.302''"

fun get_bool :: "json \<Rightarrow> bool result" where
  "get_bool (JBool b) = Inr b"
| "get_bool _ = Inl ''type_error.302''"

fun get_int :: "json_lib \<Rightarrow> json \<Rightarrow> int result" where
  "get_int L (JInt i) = Inr i"
| "get_int L (JFloat d) = Inr (jl_f2i L d)"
| "get_int L _ = Inl ''type_error.302''"

text \<open>The conversion to \<^verbatim>\<open>int\<close>, unlike the one to a 64-bit integer, also takes a Boolean.\<close>

fun get_int32 :: "json_lib \<Rightarrow> json \<Rightarrow> int result" where
  "get_int32 L (JBool b) = Inr (if b then 1 else 0)"
| "get_int32 L j = get_int L j"

fun get_double :: "json_lib \<Rightarrow> json \<Rightarrow> double result" where
  "get_double L (JFloat d) = Inr d"
| "get_double L (JInt i) = Inr (jl_i2f L i)"
| "get_double L _ = Inl ''type_error.302''"

fun get_doubles :: "json_lib \<Rightarrow> json list \<Rightarrow> double list result" where
  "get_doubles L [] = Inr []"
| "get_doubles L (j # js) =
     bind_result (get_double L j) (\<lambda>d. bind_result (get_doubles L js) (\<lambda>ds. Inr (d # ds)))"

fun get_double_array :: "json_lib \<Rightarrow> json \<Rightarrow> double list result" where
  "get_double_array L (JArr js) = get_doubles L js"
| "get_double_array L _ = Inl ''type_error.302''"

text \<open>
  \<^verbatim>\<open>j.value(k, default)\<close> for a string, an integer and a Boolean: the default when the member
  is absent, a throw when the value is not an object or the member has another type.
\<close>

fun value_string :: "json \<Rightarrow> string \<Rightarrow> string \<Rightarrow> string result" where
  "value_string (JObj m) k d = (case map_of m k of None \<Rightarrow> Inr d | Some v \<Rightarrow> get_string v)"
| "value_string _ k d = Inl ''type_error.306''"

fun value_bool :: "json \<Rightarrow> string \<Rightarrow> bool \<Rightarrow> bool result" where
  "value_bool (JObj m) k d = (case map_of m k of None \<Rightarrow> Inr d | Some v \<Rightarrow> get_bool v)"
| "value_bool _ k d = Inl ''type_error.306''"

fun value_int :: "json_lib \<Rightarrow> json \<Rightarrow> string \<Rightarrow> int \<Rightarrow> int result" where
  "value_int L (JObj m) k d = (case map_of m k of None \<Rightarrow> Inr d | Some v \<Rightarrow> get_int32 L v)"
| "value_int L _ k d = Inl ''type_error.306''"

fun value_json :: "json \<Rightarrow> string \<Rightarrow> json \<Rightarrow> json result" where
  "value_json (JObj m) k d = Inr (case map_of m k of None \<Rightarrow> d | Some v \<Rightarrow> v)"
| "value_json _ k d = Inl ''type_error.306''"

section \<open>Text round trip\<close>

text \<open>
  A dump writes a number that is not finite as \<^verbatim>\<open>null\<close>; everything else survives a dump
  followed by a parse.
\<close>

fun json_norm :: "json \<Rightarrow> json" where
  "json_norm (JFloat d) = (if double_finite d then JFloat d else JNull)"
| "json_norm (JArr js) = JArr (map json_norm js)"
| "json_norm (JObj m) = JObj (map (\<lambda>(k, v). (k, json_norm v)) m)"
| "json_norm j = j"

definition json_lib_ok :: "json_lib \<Rightarrow> bool" where
  "json_lib_ok L \<longleftrightarrow> (\<forall>j s. jl_dump L j = Inr s \<longrightarrow> jl_parse L s = Inr (json_norm j))"

section \<open>Facts\<close>

lemma json_lib_okD: "json_lib_ok L \<Longrightarrow> jl_dump L j = Inr s \<Longrightarrow> jl_parse L s = Inr (json_norm j)"
  by (simp add: json_lib_ok_def)

lemma map_of_map_pair: "map_of (map (\<lambda>(k, v). (k, f v)) m) k = map_option f (map_of m k)"
  by (simp add: map_of_map)

lemma map_of_fold_put:
  "map_of (fold (\<lambda>(k, v). omap_put k v) kvs m) = map_of m ++ map_of (rev kvs)"
  by (induction kvs arbitrary: m) (auto simp: map_add_def fun_eq_iff split: option.splits)

lemma map_of_rev_distinct: "distinct (map fst kvs) \<Longrightarrow> map_of (rev kvs) = map_of kvs"
  by (subst map_of_inject_set) (auto simp: rev_map [symmetric])

lemma map_of_json_object:
  "distinct (map fst kvs) \<Longrightarrow>
   map_of (fold (\<lambda>(k, v). omap_put k v) kvs []) = map_of kvs"
  by (simp add: map_of_fold_put map_of_rev_distinct)

lemma omap_ok_fold_put:
  "omap_ok m \<Longrightarrow> omap_ok (fold (\<lambda>(k, v). omap_put k v) kvs m)"
  by (induction kvs arbitrary: m) (auto intro: omap_ok_put)

text \<open>Reading a member of an object that went through a dump and a parse.\<close>

lemma jget_norm_object [simp]:
  "jget (json_norm (JObj m)) k =
     Inr (case map_of m k of None \<Rightarrow> JNull | Some v \<Rightarrow> json_norm v)"
  by (auto simp: map_of_map_pair split: option.splits)

lemma contains_norm_object [simp]:
  "json_contains (json_norm (JObj m)) k = (map_of m k \<noteq> None)"
  by (simp add: map_of_map_pair)

lemma get_doubles_finite:
  "\<forall>d \<in> set ds. double_finite d \<Longrightarrow>
   get_doubles L (map json_norm (map JFloat ds)) = Inr ds"
  by (induction ds) auto

lemma get_doubles_not_finite:
  "\<exists>d \<in> set ds. \<not> double_finite d \<Longrightarrow>
   \<exists>e. get_doubles L (map json_norm (map JFloat ds)) = Inl e"
proof (induction ds)
  case (Cons d ds)
  show ?case
  proof (cases "double_finite d")
    case True
    with Cons obtain e where "get_doubles L (map json_norm (map JFloat ds)) = Inl e" by auto
    with True show ?thesis by simp
  qed simp
qed simp

section \<open>A library that satisfies the hypothesis\<close>

text \<open>
  A concrete library, for use in witnesses: it knows the documents of a catalogue, writes the
  position of a document as its text, and throws on any other document or text.
\<close>

fun doc_index :: "json \<Rightarrow> json list \<Rightarrow> nat option" where
  "doc_index j [] = None"
| "doc_index j (d # ds) = (if d = j then Some 0 else map_option Suc (doc_index j ds))"

definition docs_lib :: "json list \<Rightarrow> json_lib" where
  "docs_lib ds =
     \<lparr>jl_dump = (\<lambda>j. case doc_index j ds of None \<Rightarrow> Inl ''type_error.316'' | Some i \<Rightarrow> Inr (show_nat i)),
      jl_parse = (\<lambda>s. if read_nat s < length ds then Inr (json_norm (ds ! read_nat s)) else Inl ''parse_error.101''),
      jl_f2i = (\<lambda>d. 0), jl_i2f = (\<lambda>i. 0)\<rparr>"

lemma doc_index_Some: "doc_index j ds = Some i \<Longrightarrow> i < length ds \<and> ds ! i = j"
  by (induction ds arbitrary: i) (auto split: if_splits)

lemma docs_lib_ok [simp]: "json_lib_ok (docs_lib ds)"
  by (auto simp: json_lib_ok_def docs_lib_def dest: doc_index_Some split: option.splits)

lemma docs_lib_dump_in: "j \<in> set ds \<Longrightarrow> \<exists>s. jl_dump (docs_lib ds) j = Inr s"
proof -
  assume "j \<in> set ds"
  then have "\<exists>i. doc_index j ds = Some i" by (induction ds) auto
  then show ?thesis by (auto simp: docs_lib_def)
qed

lemma docs_lib_dump [simp]: "jl_dump (docs_lib (j # ds)) j = Inr (show_nat 0)"
  by (simp add: docs_lib_def)

end
