(* ===== verification/Codec.thy ===== *)
theory Codec
  imports Json
begin

text \<open>
  \<^verbatim>\<open>include/instrument-server/SerializedCommand.hpp\<close> and \<^verbatim>\<open>src/SerializedCommand.cpp\<close>:
  commands and responses and their JSON encoding on the wire between server and worker.
\<close>

section \<open>Data\<close>

type_synonym i64 = "64 word"  \<comment> \<open>read with \<^const>\<open>sint\<close>\<close>
type_synonym i32 = "32 word"

datatype param_value =
    PDouble double
  | PInt64 i64
  | PString string
  | PBool bool
  | PArray "double list"

record serialized_command =
  sc_id :: string
  sc_instrument_name :: string
  sc_verb :: string
  sc_params :: "(string, param_value) umap"
  sc_expects_response :: bool
  sc_timeout :: i64
  sc_created_at :: nat
  sc_sync_token :: "u64 option"
  sc_is_sync_barrier :: bool

definition default_command :: serialized_command where
  "default_command = \<lparr>sc_id = [], sc_instrument_name = [], sc_verb = [], sc_params = [],
     sc_expects_response = False, sc_timeout = 5000, sc_created_at = 0, sc_sync_token = None,
     sc_is_sync_barrier = False\<rparr>"

record command_response =
  cr_command_id :: string
  cr_instrument_name :: string
  cr_success :: bool
  cr_error_code :: i32
  cr_error_message :: string
  cr_text_response :: string
  cr_return_value :: "param_value option"
  cr_has_large_data :: bool
  cr_buffer_id :: string
  cr_element_count :: u64
  cr_data_type :: string

definition default_response :: command_response where
  "default_response = \<lparr>cr_command_id = [], cr_instrument_name = [], cr_success = False,
     cr_error_code = 0, cr_error_message = [], cr_text_response = [], cr_return_value = None,
     cr_has_large_data = False, cr_buffer_id = [], cr_element_count = 0, cr_data_type = []\<rparr>"

section \<open>Commands\<close>

fun param_to_json :: "param_value \<Rightarrow> json" where
  "param_to_json (PDouble d) = JFloat d"
| "param_to_json (PInt64 i) = JInt (sint i)"
| "param_to_json (PString s) = JStr s"
| "param_to_json (PBool b) = JBool b"
| "param_to_json (PArray ds) = JArr (map JFloat ds)"

definition params_to_json :: "(string, param_value) umap \<Rightarrow> json" where
  "params_to_json ps = json_object (map (\<lambda>(k, v). (k, param_to_json v)) ps)"

text \<open>The members are written in the order of the source; \<open>is_sync_barrier\<close> is not among them.\<close>

definition command_to_json :: "serialized_command \<Rightarrow> json" where
  "command_to_json cmd = json_object
     ([(''id'', JStr (sc_id cmd)),
       (''instrument_name'', JStr (sc_instrument_name cmd)),
       (''verb'', JStr (sc_verb cmd)),
       (''expects_response'', JBool (sc_expects_response cmd)),
       (''timeout_ms'', JInt (sint (sc_timeout cmd)))]
      @ (case sc_sync_token cmd of None \<Rightarrow> [] | Some t \<Rightarrow> [(''sync_token'', JInt (uint t))])
      @ [(''params'', params_to_json (sc_params cmd))])"

definition serialize_command :: "json_lib \<Rightarrow> serialized_command \<Rightarrow> string result" where
  "serialize_command L cmd = jl_dump L (command_to_json cmd)"

text \<open>One round of the parameter loop of \<^verbatim>\<open>deserialize_command\<close>.\<close>

fun read_param ::
  "json_lib \<Rightarrow> string \<Rightarrow> json \<Rightarrow> (string, param_value) umap \<Rightarrow> (string, param_value) umap result"
where
  "read_param L k (JFloat d) ps = Inr (umap_put k (PDouble d) ps)"
| "read_param L k (JInt i) ps = Inr (umap_put k (PInt64 (word_of_int i)) ps)"
| "read_param L k (JStr s) ps = Inr (umap_put k (PString s) ps)"
| "read_param L k (JBool b) ps = Inr (umap_put k (PBool b) ps)"
| "read_param L k (JArr js) ps =
     bind_result (get_double_array L (JArr js)) (\<lambda>ds. Inr (umap_put k (PArray ds) ps))"
| "read_param L k _ ps = Inr ps"

fun read_params ::
  "json_lib \<Rightarrow> (string, json) omap \<Rightarrow> (string, param_value) umap \<Rightarrow> (string, param_value) umap result"
where
  "read_params L [] ps = Inr ps"
| "read_params L ((k, v) # m) ps = bind_result (read_param L k v ps) (read_params L m)"

definition json_to_command :: "json_lib \<Rightarrow> nat \<Rightarrow> json \<Rightarrow> serialized_command result" where
  "json_to_command L now j =
     bind_result (bind_result (jget j ''id'') get_string) (\<lambda>i.
     bind_result (bind_result (jget j ''instrument_name'') get_string) (\<lambda>inst.
     bind_result (bind_result (jget j ''verb'') get_string) (\<lambda>verb.
     bind_result (bind_result (jget j ''expects_response'') get_bool) (\<lambda>er.
     bind_result (bind_result (jget j ''timeout_ms'') (get_int L)) (\<lambda>tmo.
     bind_result (if json_contains j ''sync_token''
                  then bind_result (bind_result (jget j ''sync_token'') (get_int L))
                         (\<lambda>t. Inr (Some (word_of_int t)))
                  else Inr None) (\<lambda>tok.
     bind_result (if json_contains j ''params''
                  then bind_result (jget j ''params'')
                         (\<lambda>p. case p of JObj m \<Rightarrow> read_params L m [] | _ \<Rightarrow> Inr [])
                  else Inr []) (\<lambda>ps.
     Inr (default_command\<lparr>sc_id := i, sc_instrument_name := inst, sc_verb := verb,
            sc_expects_response := er, sc_timeout := word_of_int tmo, sc_created_at := now,
            sc_sync_token := tok, sc_params := ps\<rparr>))))))))"

definition deserialize_command :: "json_lib \<Rightarrow> nat \<Rightarrow> string \<Rightarrow> serialized_command result" where
  "deserialize_command L now s = bind_result (jl_parse L s) (json_to_command L now)"

section \<open>Responses\<close>

fun return_value_members :: "param_value \<Rightarrow> (string \<times> json) list" where
  "return_value_members (PDouble d) = [(''return_value'', JFloat d), (''return_type'', JStr ''double'')]"
| "return_value_members (PInt64 i) = [(''return_value'', JInt (sint i)), (''return_type'', JStr ''int64'')]"
| "return_value_members (PString s) = [(''return_value'', JStr s), (''return_type'', JStr ''string'')]"
| "return_value_members (PBool b) = [(''return_value'', JBool b), (''return_type'', JStr ''bool'')]"
| "return_value_members (PArray ds) =
     [(''return_value'', JArr (map JFloat ds)), (''return_type'', JStr ''array'')]"

definition response_to_json :: "command_response \<Rightarrow> json" where
  "response_to_json r = json_object
     ([(''command_id'', JStr (cr_command_id r)),
       (''instrument_name'', JStr (cr_instrument_name r)),
       (''success'', JBool (cr_success r)),
       (''error_code'', JInt (sint (cr_error_code r))),
       (''error_message'', JStr (cr_error_message r)),
       (''text_response'', JStr (cr_text_response r))]
      @ (case cr_return_value r of None \<Rightarrow> [] | Some v \<Rightarrow> return_value_members v)
      @ [(''has_large_data'', JBool (cr_has_large_data r))]
      @ (if cr_has_large_data r
         then [(''buffer_id'', JStr (cr_buffer_id r)),
               (''element_count'', JInt (uint (cr_element_count r))),
               (''data_type'', JStr (cr_data_type r))]
         else []))"

definition serialize_response :: "json_lib \<Rightarrow> command_response \<Rightarrow> string result" where
  "serialize_response L r = jl_dump L (response_to_json r)"

definition read_return_value ::
  "json_lib \<Rightarrow> string \<Rightarrow> json \<Rightarrow> param_value option result"
where
  "read_return_value L ty v =
     (if ty = ''double'' then bind_result (get_double L v) (\<lambda>d. Inr (Some (PDouble d)))
      else if ty = ''int64'' then bind_result (get_int L v) (\<lambda>i. Inr (Some (PInt64 (word_of_int i))))
      else if ty = ''string'' then bind_result (get_string v) (\<lambda>s. Inr (Some (PString s)))
      else if ty = ''bool'' then bind_result (get_bool v) (\<lambda>b. Inr (Some (PBool b)))
      else if ty = ''array'' then bind_result (get_double_array L v) (\<lambda>ds. Inr (Some (PArray ds)))
      else Inr None)"

definition read_large_data ::
  "json_lib \<Rightarrow> json \<Rightarrow> command_response \<Rightarrow> command_response result"
where
  "read_large_data L j r =
     (if json_contains j ''has_large_data''
      then bind_result (bind_result (jget j ''has_large_data'') get_bool) (\<lambda>hl.
        if hl
        then bind_result (bind_result (jget j ''buffer_id'') get_string) (\<lambda>b.
             bind_result (bind_result (jget j ''element_count'') (get_int L)) (\<lambda>n.
             bind_result (bind_result (jget j ''data_type'') get_string) (\<lambda>dt.
             Inr (r\<lparr>cr_has_large_data := True, cr_buffer_id := b,
                    cr_element_count := word_of_int n, cr_data_type := dt\<rparr>))))
        else Inr (r\<lparr>cr_has_large_data := False\<rparr>))
      else Inr r)"

definition json_to_response :: "json_lib \<Rightarrow> json \<Rightarrow> command_response result" where
  "json_to_response L j =
     bind_result (bind_result (jget j ''command_id'') get_string) (\<lambda>i.
     bind_result (bind_result (jget j ''instrument_name'') get_string) (\<lambda>inst.
     bind_result (bind_result (jget j ''success'') get_bool) (\<lambda>ok.
     bind_result (bind_result (jget j ''error_code'') (get_int32 L)) (\<lambda>ec.
     bind_result (bind_result (jget j ''error_message'') get_string) (\<lambda>em.
     bind_result (bind_result (jget j ''text_response'') get_string) (\<lambda>tx.
     bind_result (if json_contains j ''return_value'' \<and> json_contains j ''return_type''
                  then bind_result (bind_result (jget j ''return_type'') get_string) (\<lambda>ty.
                       bind_result (jget j ''return_value'') (read_return_value L ty))
                  else Inr None) (\<lambda>rv.
     read_large_data L j
       (default_response\<lparr>cr_command_id := i, cr_instrument_name := inst, cr_success := ok,
          cr_error_code := word_of_int ec, cr_error_message := em, cr_text_response := tx,
          cr_return_value := rv\<rparr>))))))))"

definition deserialize_response :: "json_lib \<Rightarrow> string \<Rightarrow> command_response result" where
  "deserialize_response L s = bind_result (jl_parse L s) (json_to_response L)"

section \<open>Round trips\<close>

text \<open>What of a parameter reaches the other side: a double that is not finite is dropped.\<close>

fun param_on_wire :: "param_value \<Rightarrow> param_value option" where
  "param_on_wire (PDouble d) = (if double_finite d then Some (PDouble d) else None)"
| "param_on_wire p = Some p"

fun array_finite :: "param_value \<Rightarrow> bool" where
  "array_finite (PArray ds) = (\<forall>d \<in> set ds. double_finite d)"
| "array_finite p = True"

definition arrays_finite :: "(string, param_value) umap \<Rightarrow> bool" where
  "arrays_finite ps \<longleftrightarrow> (\<forall>(k, p) \<in> set ps. array_finite p)"

lemma omap_put_map:
  "omap_put k (f v) (map (\<lambda>(k, v). (k, f v)) m) = map (\<lambda>(k, v). (k, f v)) (omap_put k v m)"
  by (induction m) auto

lemma fold_omap_put_map:
  "fold (\<lambda>(k, v). omap_put k v) (map (\<lambda>(k, v). (k, f v)) kvs) (map (\<lambda>(k, v). (k, f v)) m) =
   map (\<lambda>(k, v). (k, f v)) (fold (\<lambda>(k, v). omap_put k v) kvs m)"
  by (induction kvs arbitrary: m) (auto simp: omap_put_map)

lemma params_to_json_eq:
  "params_to_json ps =
   JObj (map (\<lambda>(k, p). (k, param_to_json p)) (fold (\<lambda>(k, v). omap_put k v) ps []))"
  using fold_omap_put_map [of param_to_json ps "[]"] by (simp add: params_to_json_def json_object_def)

lemma set_fold_omap_put_subset:
  "set (fold (\<lambda>(k, v). omap_put k v) kvs m) \<subseteq> set m \<union> set kvs"
proof (induction kvs arbitrary: m)
  case (Cons kv kvs)
  have "set (omap_put k v m) \<subseteq> insert (k, v) (set m)" for k v
    by (induction m) (auto split: if_splits)
  then show ?case using Cons.IH by (cases kv) fastforce
qed simp

lemma read_param_norm:
  "array_finite p \<Longrightarrow>
   read_param L k (json_norm (param_to_json p)) ps =
     Inr (case param_on_wire p of None \<Rightarrow> ps | Some q \<Rightarrow> umap_put k q ps)"
  using get_doubles_finite [of _ L] by (cases p) auto

lemma read_params_norm:
  assumes "\<forall>(k, p) \<in> set qs. array_finite p" and "distinct (map fst qs)"
  shows "\<exists>ps'. read_params L (map (\<lambda>(k, p). (k, json_norm (param_to_json p))) qs) ps = Inr ps' \<and>
    map_of ps' = map_of ps ++ (\<lambda>k. Option.bind (map_of qs k) param_on_wire)"
  using assms
proof (induction qs arbitrary: ps)
  case (Cons kp qs)
  obtain k p where kp: "kp = (k, p)" by (cases kp)
  let ?ps1 = "case param_on_wire p of None \<Rightarrow> ps | Some q \<Rightarrow> umap_put k q ps"
  from Cons.prems kp have fresh: "map_of qs k = None" by (auto simp: map_of_eq_None_iff)
  from Cons obtain ps' where r: "read_params L (map (\<lambda>(k, p). (k, json_norm (param_to_json p))) qs) ?ps1 = Inr ps'"
    and m: "map_of ps' = map_of ?ps1 ++ (\<lambda>k. Option.bind (map_of qs k) param_on_wire)"
    by fastforce
  have "map_of ps' = map_of ps ++ (\<lambda>k'. Option.bind (map_of (kp # qs) k') param_on_wire)"
    using fresh by (auto simp: m kp map_add_def fun_eq_iff split: option.splits)
  with r Cons.prems kp show ?case by (simp add: read_param_norm)
qed simp

lemma norm_param_comp:
  "(\<lambda>(k, v). (k, json_norm v)) \<circ> (\<lambda>(k, p). (k, param_to_json p)) =
   (\<lambda>(k, p). (k, json_norm (param_to_json p)))"
  by auto

lemma read_params_wire:
  assumes "umap_ok ps" and "arrays_finite ps"
  obtains ps' where
    "(case json_norm (params_to_json ps) of JObj m \<Rightarrow> read_params L m [] | _ \<Rightarrow> Inr []) = Inr ps'"
    "map_of ps' = (\<lambda>k. Option.bind (map_of ps k) param_on_wire)"
proof -
  let ?qs = "fold (\<lambda>(k, v). omap_put k v) ps []"
  have "\<forall>(k, p) \<in> set ?qs. array_finite p"
    using assms(2) set_fold_omap_put_subset [of ps "[]"] by (auto simp: arrays_finite_def)
  moreover have "distinct (map fst ?qs)"
    by (rule omap_ok_distinct) (simp add: omap_ok_fold_put)
  ultimately obtain ps' where "read_params L (map (\<lambda>(k, p). (k, json_norm (param_to_json p))) ?qs) [] = Inr ps'"
    and "map_of ps' = map_of [] ++ (\<lambda>k. Option.bind (map_of ?qs k) param_on_wire)"
    using read_params_norm by blast
  moreover have "map_of ?qs = map_of ps"
    using assms(1) by (simp add: map_of_json_object umap_ok_def)
  ultimately show thesis
    by (intro that) (simp_all add: params_to_json_eq norm_param_comp)
qed

text \<open>The members of an encoded command, as the decoder looks them up.\<close>

lemma command_members:
  "command_to_json cmd = JObj m \<Longrightarrow>
   map_of m ''id'' = Some (JStr (sc_id cmd)) \<and>
   map_of m ''instrument_name'' = Some (JStr (sc_instrument_name cmd)) \<and>
   map_of m ''verb'' = Some (JStr (sc_verb cmd)) \<and>
   map_of m ''expects_response'' = Some (JBool (sc_expects_response cmd)) \<and>
   map_of m ''timeout_ms'' = Some (JInt (sint (sc_timeout cmd))) \<and>
   map_of m ''sync_token'' = map_option (\<lambda>t. JInt (uint t)) (sc_sync_token cmd) \<and>
   map_of m ''params'' = Some (params_to_json (sc_params cmd))"
  by (cases "sc_sync_token cmd")
    (auto simp: command_to_json_def json_object_def map_of_fold_put)

lemma command_json_roundtrip:
  assumes "umap_ok (sc_params cmd)" and "arrays_finite (sc_params cmd)"
  shows "\<exists>ps. json_to_command L now (json_norm (command_to_json cmd)) =
      Inr (cmd\<lparr>sc_params := ps, sc_created_at := now, sc_is_sync_barrier := False\<rparr>) \<and>
    map_of ps = (\<lambda>k. Option.bind (map_of (sc_params cmd) k) param_on_wire)"
proof -
  obtain m where m: "command_to_json cmd = JObj m"
    by (simp add: command_to_json_def json_object_def)
  note mem = command_members [OF m]
  obtain ps' where ps': "(case json_norm (params_to_json (sc_params cmd)) of
        JObj m \<Rightarrow> read_params L m [] | _ \<Rightarrow> Inr []) = Inr ps'"
    and lk: "map_of ps' = (\<lambda>k. Option.bind (map_of (sc_params cmd) k) param_on_wire)"
    by (rule read_params_wire [OF assms])
  have "json_to_command L now (json_norm (command_to_json cmd)) =
      Inr (cmd\<lparr>sc_params := ps', sc_created_at := now, sc_is_sync_barrier := False\<rparr>)"
    unfolding json_to_command_def m jget_norm_object contains_norm_object
    using mem ps' by (cases "sc_sync_token cmd") (simp_all add: default_command_def)
  with lk show ?thesis by blast
qed

text \<open>
  C17: a command that was serialised decodes, on the other side of the queue, to the same command,
  except that (1) doubles that are not finite are missing from its parameters, (2) the creation
  time is the time of decoding, and (3) \<^verbatim>\<open>is_sync_barrier\<close> is false whatever it was.
\<close>

theorem command_roundtrip:
  assumes "json_lib_ok L" and "umap_ok (sc_params cmd)" and "arrays_finite (sc_params cmd)"
    and "serialize_command L cmd = Inr s"
  shows "\<exists>ps. deserialize_command L now s =
      Inr (cmd\<lparr>sc_params := ps, sc_created_at := now, sc_is_sync_barrier := False\<rparr>) \<and>
    map_of ps = (\<lambda>k. Option.bind (map_of (sc_params cmd) k) param_on_wire)"
proof -
  have "jl_parse L s = Inr (json_norm (command_to_json cmd))"
    using assms(1,4) by (simp add: serialize_command_def json_lib_okD)
  then show ?thesis
    using command_json_roundtrip [OF assms(2,3)] by (simp add: deserialize_command_def)
qed

text \<open>Whatever text a command is decoded from, its parameters are a map: no name occurs twice.\<close>

lemma read_param_ok: "read_param L k v ps = Inr ps' \<Longrightarrow> umap_ok ps \<Longrightarrow> umap_ok ps'"
  by (induction L k v ps rule: read_param.induct) (auto simp: bind_result_Inr_iff intro: um.ok_put)

lemma read_params_ok: "read_params L m ps = Inr ps' \<Longrightarrow> umap_ok ps \<Longrightarrow> umap_ok ps'"
proof (induction L m ps rule: read_params.induct)
  case (2 L k v m ps)
  then obtain ps1 where "read_param L k v ps = Inr ps1" "read_params L m ps1 = Inr ps'" by (auto simp: bind_result_Inr_iff)
  then show ?case using 2 read_param_ok by blast
qed simp

lemma deserialize_command_params_ok:
  assumes "deserialize_command L now s = Inr cmd"
  shows "umap_ok (sc_params cmd)"
proof -
  obtain j where j: "json_to_command L now j = Inr cmd"
    using assms by (auto simp: deserialize_command_def bind_result_Inr_iff)
  obtain ps where ps: "(if json_contains j ''params''
      then bind_result (jget j ''params'') (\<lambda>p. case p of JObj m \<Rightarrow> read_params L m [] | _ \<Rightarrow> Inr [])
      else Inr []) = Inr ps" "sc_params cmd = ps"
    using j unfolding json_to_command_def bind_result_Inr_iff
    by (elim exE conjE) (rule that, assumption, clarsimp)
  have "umap_ok ps"
  proof (cases "json_contains j ''params''")
    case True
    then obtain p where "(case p of JObj m \<Rightarrow> read_params L m [] | _ \<Rightarrow> Inr []) = Inr ps"
      using ps(1) by (auto simp only: if_True bind_result_Inr_iff)
    then show ?thesis by (cases p) (auto intro: read_params_ok)
  qed (use ps(1) in simp)
  then show ?thesis using ps(2) by simp
qed

text \<open>A decoded command never carries the barrier mark, whatever text it is decoded from.\<close>

lemma deserialize_command_no_barrier:
  "deserialize_command L now s = Inr cmd \<Longrightarrow> \<not> sc_is_sync_barrier cmd"
  by (auto simp: deserialize_command_def json_to_command_def bind_result_Inr_iff default_command_def)

lemma deserialize_command_created_at:
  "deserialize_command L now s = Inr cmd \<Longrightarrow> sc_created_at cmd = now"
  by (auto simp: deserialize_command_def json_to_command_def bind_result_Inr_iff default_command_def)

subsection \<open>Responses\<close>

definition response_on_wire :: "command_response \<Rightarrow> command_response" where
  "response_on_wire r =
     (if cr_has_large_data r then r
      else r\<lparr>cr_buffer_id := [], cr_element_count := 0, cr_data_type := []\<rparr>)"

definition return_value_finite :: "command_response \<Rightarrow> bool" where
  "return_value_finite r =
     (case cr_return_value r of
        Some (PDouble d) \<Rightarrow> double_finite d
      | Some (PArray ds) \<Rightarrow> (\<forall>d \<in> set ds. double_finite d)
      | _ \<Rightarrow> True)"

definition return_type_of :: "param_value \<Rightarrow> string" where
  "return_type_of v = (case v of PDouble d \<Rightarrow> ''double'' | PInt64 i \<Rightarrow> ''int64'' | PString s \<Rightarrow> ''string''
     | PBool b \<Rightarrow> ''bool'' | PArray ds \<Rightarrow> ''array'')"

lemma return_value_members_eq:
  "return_value_members v = [(''return_value'', param_to_json v), (''return_type'', JStr (return_type_of v))]"
  by (cases v) (simp_all add: return_type_of_def)

lemma response_members_base:
  assumes "response_to_json r = JObj m"
  shows "map_of m ''command_id'' = Some (JStr (cr_command_id r))"
    and "map_of m ''instrument_name'' = Some (JStr (cr_instrument_name r))"
    and "map_of m ''success'' = Some (JBool (cr_success r))"
    and "map_of m ''error_code'' = Some (JInt (sint (cr_error_code r)))"
    and "map_of m ''error_message'' = Some (JStr (cr_error_message r))"
    and "map_of m ''text_response'' = Some (JStr (cr_text_response r))"
    and "map_of m ''has_large_data'' = Some (JBool (cr_has_large_data r))"
  using assms
  by (auto simp: response_to_json_def json_object_def map_of_fold_put return_value_members_eq
      split: option.splits)

lemma response_members_value:
  assumes "response_to_json r = JObj m"
  shows "map_of m ''return_value'' = map_option param_to_json (cr_return_value r)"
    and "map_of m ''return_type'' = map_option (JStr \<circ> return_type_of) (cr_return_value r)"
    and "cr_has_large_data r \<Longrightarrow> map_of m ''buffer_id'' = Some (JStr (cr_buffer_id r))"
    and "cr_has_large_data r \<Longrightarrow> map_of m ''element_count'' = Some (JInt (uint (cr_element_count r)))"
    and "cr_has_large_data r \<Longrightarrow> map_of m ''data_type'' = Some (JStr (cr_data_type r))"
  using assms
  by (auto simp: response_to_json_def json_object_def map_of_fold_put return_value_members_eq
      split: option.splits)

lemma read_return_value_norm:
  "(case v of PDouble d \<Rightarrow> double_finite d | PArray ds \<Rightarrow> \<forall>d \<in> set ds. double_finite d | _ \<Rightarrow> True) \<Longrightarrow>
   read_return_value L (return_type_of v) (json_norm (param_to_json v)) = Inr (Some v)"
  using get_doubles_finite [of _ L]
  by (cases v) (auto simp: read_return_value_def return_type_of_def)

lemma response_json_roundtrip:
  assumes "return_value_finite r"
  shows "json_to_response L (json_norm (response_to_json r)) = Inr (response_on_wire r)"
proof -
  obtain m where m: "response_to_json r = JObj m"
    by (simp add: response_to_json_def json_object_def)
  note mem = response_members_base [OF m] response_members_value [OF m]
  have rv: "(if map_of m ''return_value'' \<noteq> None \<and> map_of m ''return_type'' \<noteq> None
      then bind_result (bind_result (Inr (case map_of m ''return_type'' of None \<Rightarrow> JNull | Some v \<Rightarrow> json_norm v)) get_string)
        (\<lambda>ty. bind_result (Inr (case map_of m ''return_value'' of None \<Rightarrow> JNull | Some v \<Rightarrow> json_norm v))
          (read_return_value L ty))
      else Inr None) = Inr (cr_return_value r)"
    using assms mem(8,9) read_return_value_norm [of _ L]
    by (cases "cr_return_value r") (auto simp: return_value_finite_def split: param_value.splits)
  show ?thesis
    unfolding json_to_response_def m jget_norm_object contains_norm_object rv read_large_data_def
    using mem by (simp add: default_response_def response_on_wire_def)
qed

text \<open>
  C18: a response whose numeric return value is finite decodes to itself; the buffer fields of a
  response without large data are reset.
\<close>

theorem response_roundtrip:
  assumes "json_lib_ok L" and "return_value_finite r" and "serialize_response L r = Inr s"
  shows "deserialize_response L s = Inr (response_on_wire r)"
  using assms json_lib_okD [of L "response_to_json r" s] response_json_roundtrip [of r L]
  by (simp add: serialize_response_def deserialize_response_def)

text \<open>
  A response whose return value is a double that is not finite cannot be decoded: the dump
  writes \<^verbatim>\<open>null\<close> under the type \<^verbatim>\<open>double\<close> and the decoder throws.
\<close>

theorem response_nan_throws:
  assumes "json_lib_ok L" and "cr_return_value r = Some (PDouble d)" and "\<not> double_finite d"
    and "serialize_response L r = Inr s"
  shows "deserialize_response L s = Inl ''type_error.302''"
proof -
  obtain m where m: "response_to_json r = JObj m"
    by (simp add: response_to_json_def json_object_def)
  note mem = response_members_base [OF m] response_members_value [OF m]
  have "jl_parse L s = Inr (json_norm (JObj m))"
    using assms(1,4) m by (simp add: serialize_response_def json_lib_okD)
  then show ?thesis
    unfolding deserialize_response_def json_to_response_def
    using mem assms(2,3)
    by (simp add: read_return_value_def return_type_of_def del: json_norm.simps(3))
qed

section \<open>Witnesses\<close>

definition demo_command :: serialized_command where
  "demo_command = default_command\<lparr>sc_id := ''1-2'', sc_instrument_name := ''dmm'', sc_verb := ''SET'',
     sc_params := [(''voltage'', PInt64 5), (''offset'', PDouble 0x7FF0000000000000)],
     sc_sync_token := Some 3, sc_is_sync_barrier := True\<rparr>"

theorem command_roundtrip_witness:
  "\<exists>cmd. deserialize_command (docs_lib [command_to_json demo_command]) 9 (show_nat 0) = Inr cmd \<and>
     map_of (sc_params cmd) ''voltage'' = Some (PInt64 5) \<and> map_of (sc_params cmd) ''offset'' = None \<and>
     sc_sync_token cmd = Some 3 \<and> \<not> sc_is_sync_barrier cmd"
proof -
  have "umap_ok (sc_params demo_command)" "arrays_finite (sc_params demo_command)"
    by (simp_all add: demo_command_def umap_ok_def arrays_finite_def)
  moreover have "\<not> double_finite 0x7FF0000000000000" by code_simp
  ultimately show ?thesis
    using command_roundtrip [of "docs_lib [command_to_json demo_command]" demo_command "show_nat 0" 9]
    by (auto simp: serialize_command_def) (auto simp: demo_command_def)
qed

definition demo_response :: command_response where
  "demo_response = default_response\<lparr>cr_command_id := ''1-2'', cr_instrument_name := ''dmm'',
     cr_success := True, cr_return_value := Some (PDouble 0x3FF0000000000000)\<rparr>"

theorem response_roundtrip_witness:
  "deserialize_response (docs_lib [response_to_json demo_response]) (show_nat 0) = Inr demo_response"
proof -
  have "double_finite 0x3FF0000000000000" by code_simp
  then have "return_value_finite demo_response" "response_on_wire demo_response = demo_response"
    by (simp_all add: return_value_finite_def response_on_wire_def demo_response_def default_response_def)
  then show ?thesis
    using response_roundtrip [of "docs_lib [response_to_json demo_response]" demo_response "show_nat 0"]
    by (simp add: serialize_response_def)
qed

theorem response_nan_throws_witness:
  "deserialize_response (docs_lib [response_to_json (demo_response\<lparr>cr_return_value := Some (PDouble 0x7FF8000000000000)\<rparr>)])
     (show_nat 0) = Inl ''type_error.302''"
proof -
  have "\<not> double_finite 0x7FF8000000000000" by code_simp
  then show ?thesis
    using response_nan_throws [of "docs_lib [response_to_json (demo_response\<lparr>cr_return_value := Some (PDouble 0x7FF8000000000000)\<rparr>)]"
        "demo_response\<lparr>cr_return_value := Some (PDouble 0x7FF8000000000000)\<rparr>" "0x7FF8000000000000" "show_nat 0"]
    by (simp add: serialize_response_def)
qed

end
