(* ===== verification/Sync_Coordinator.thy ===== *)
theory Sync_Coordinator
  imports Cxx_Strings
begin

text \<open>
  \<^verbatim>\<open>SyncCoordinator\<close> (\<^verbatim>\<open>src/server/SyncCoordinator.cpp\<close>): barriers keyed by sync token.
  Every public operation runs under the object's mutex, so it is one atomic step; the
  interleavings of concurrent callers are the sequences of such steps.
\<close>

section \<open>State and operations\<close>

record sync_barrier =
  expected_instruments :: "string set"
  acked_instruments :: "string set"
  created_at :: nat

record sync_coordinator =
  barriers :: "(u64, sync_barrier) omap"

definition new_coordinator :: sync_coordinator where
  "new_coordinator = \<lparr>barriers = []\<rparr>"

definition register_barrier ::
  "nat \<Rightarrow> u64 \<Rightarrow> string list \<Rightarrow> sync_coordinator \<Rightarrow> sync_coordinator"
where
  "register_barrier now sync_token instruments sc =
     sc\<lparr>barriers := omap_put sync_token
          \<lparr>expected_instruments = set instruments, acked_instruments = {}, created_at = now\<rparr>
          (barriers sc)\<rparr>"

definition handle_ack :: "u64 \<Rightarrow> string \<Rightarrow> sync_coordinator \<Rightarrow> bool \<times> sync_coordinator" where
  "handle_ack sync_token instrument_name sc =
     (case map_of (barriers sc) sync_token of
        None \<Rightarrow> (False, sc)
      | Some barrier \<Rightarrow>
          if instrument_name \<notin> expected_instruments barrier then (False, sc)
          else
            let barrier' = barrier\<lparr>acked_instruments := insert instrument_name (acked_instruments barrier)\<rparr>;
                complete = (acked_instruments barrier' = expected_instruments barrier')
            in if complete then (True, sc\<lparr>barriers := omap_del sync_token (barriers sc)\<rparr>)
               else (False, sc\<lparr>barriers := omap_put sync_token barrier' (barriers sc)\<rparr>))"

definition get_waiting_instruments :: "u64 \<Rightarrow> sync_coordinator \<Rightarrow> string list" where
  "get_waiting_instruments sync_token sc =
     (case map_of (barriers sc) sync_token of
        None \<Rightarrow> []
      | Some barrier \<Rightarrow>
          filter (\<lambda>inst. inst \<notin> acked_instruments barrier)
            (sorted_list_of_set (expected_instruments barrier)))"

definition has_barrier :: "u64 \<Rightarrow> sync_coordinator \<Rightarrow> bool" where
  "has_barrier sync_token sc \<longleftrightarrow> map_of (barriers sc) sync_token \<noteq> None"

definition clear_barrier :: "u64 \<Rightarrow> sync_coordinator \<Rightarrow> sync_coordinator" where
  "clear_barrier sync_token sc = sc\<lparr>barriers := omap_del sync_token (barriers sc)\<rparr>"

definition active_barrier_count :: "sync_coordinator \<Rightarrow> nat" where
  "active_barrier_count sc = length (barriers sc)"

section \<open>Interleavings as event sequences\<close>

datatype sync_event =
    Register nat u64 "string list"
  | Ack u64 string
  | Clear u64

fun sync_step :: "sync_event \<Rightarrow> sync_coordinator \<Rightarrow> sync_coordinator" where
  "sync_step (Register now t is) sc = register_barrier now t is sc"
| "sync_step (Ack t i) sc = snd (handle_ack t i sc)"
| "sync_step (Clear t) sc = clear_barrier t sc"

fun event_token :: "sync_event \<Rightarrow> u64" where
  "event_token (Register now t is) = t"
| "event_token (Ack t i) = t"
| "event_token (Clear t) = t"

text \<open>The states some history of calls leads to.\<close>

inductive sync_reachable :: "sync_coordinator \<Rightarrow> bool" where
  start: "sync_reachable new_coordinator"
| step: "sync_reachable sc \<Longrightarrow> sync_reachable (sync_step e sc)"

text \<open>
  Acknowledgements of one token arriving in the order of a list of instrument names, each preceded
  by any number of events about other tokens; the list of the values \<^verbatim>\<open>handle_ack\<close> returned.
\<close>

fun ack_run :: "u64 \<Rightarrow> (sync_event list \<times> string) list \<Rightarrow> sync_coordinator \<Rightarrow> bool list \<times> sync_coordinator"
where
  "ack_run t [] sc = ([], sc)"
| "ack_run t ((es, i) # as) sc =
     (let (b, sc1) = handle_ack t i (fold sync_step es sc);
          (bs, sc2) = ack_run t as sc1
      in (b # bs, sc2))"

section \<open>Invariant\<close>

text \<open>
  The table is a well-formed map, and a stored barrier is never one that has just been completed:
  its acknowledgements are among the expected instruments and, unless nothing is expected at all,
  some instrument is still missing.
\<close>

definition barrier_ok :: "sync_barrier \<Rightarrow> bool" where
  "barrier_ok b \<longleftrightarrow> finite (expected_instruments b) \<and>
     acked_instruments b \<subseteq> expected_instruments b \<and>
     (acked_instruments b = expected_instruments b \<longrightarrow> expected_instruments b = {})"

definition sync_inv :: "sync_coordinator \<Rightarrow> bool" where
  "sync_inv sc \<longleftrightarrow> omap_ok (barriers sc) \<and>
     (\<forall>t b. map_of (barriers sc) t = Some b \<longrightarrow> barrier_ok b)"

lemma sync_inv_new [invs]: "sync_inv new_coordinator"
  by (simp add: sync_inv_def new_coordinator_def)

lemma sync_inv_register [invs]: "sync_inv sc \<Longrightarrow> sync_inv (register_barrier now t is sc)"
  by (auto simp: sync_inv_def register_barrier_def barrier_ok_def intro: omap_ok_put)

lemma sync_inv_clear [invs]: "sync_inv sc \<Longrightarrow> sync_inv (clear_barrier t sc)"
  by (auto simp: sync_inv_def clear_barrier_def intro: omap_ok_del split: if_splits)

lemma sync_inv_ack [invs]: "sync_inv sc \<Longrightarrow> sync_inv (snd (handle_ack t i sc))"
  by (auto simp: sync_inv_def handle_ack_def Let_def barrier_ok_def
      intro: omap_ok_put omap_ok_del split: option.splits if_splits)

lemma sync_inv_step: "sync_inv sc \<Longrightarrow> sync_inv (sync_step e sc)"
  by (cases e) (simp_all add: invs)

lemma sync_reachable_inv: "sync_reachable sc \<Longrightarrow> sync_inv sc"
  by (induction rule: sync_reachable.induct) (auto intro: sync_inv_step invs)

section \<open>Abstract specification\<close>

text \<open>
  What a client needs of a barrier table: per token the set of instruments still awaited. An
  acknowledgement removes its instrument and reports completion when the set becomes empty.
\<close>

type_synonym outstanding = "u64 \<rightharpoonup> string set"

definition spec_ack :: "u64 \<Rightarrow> string \<Rightarrow> outstanding \<Rightarrow> bool \<times> outstanding" where
  "spec_ack t i w =
     (case w t of
        None \<Rightarrow> (False, w)
      | Some is \<Rightarrow> if i \<in> is \<and> is = {i} then (True, w(t := None))
                   else (False, w(t \<mapsto> is - {i})))"

definition outstanding_of :: "sync_coordinator \<Rightarrow> outstanding" where
  "outstanding_of sc =
     (\<lambda>t. map_option (\<lambda>b. expected_instruments b - acked_instruments b) (map_of (barriers sc) t))"

text \<open>The interface of a barrier table over the outstanding sets.\<close>

locale barrier_table =
  fixes register :: "u64 \<Rightarrow> string list \<Rightarrow> 's \<Rightarrow> 's"
    and ack :: "u64 \<Rightarrow> string \<Rightarrow> 's \<Rightarrow> bool \<times> 's"
    and clear :: "u64 \<Rightarrow> 's \<Rightarrow> 's"
    and waiting :: "'s \<Rightarrow> outstanding"
    and ok :: "'s \<Rightarrow> bool"
  assumes waiting_register: "ok s \<Longrightarrow> waiting (register t is s) = (waiting s)(t \<mapsto> set is)"
    and waiting_ack: "ok s \<Longrightarrow> (fst (ack t i s), waiting (snd (ack t i s))) = spec_ack t i (waiting s)"
    and waiting_clear: "ok s \<Longrightarrow> waiting (clear t s) = (waiting s)(t := None)"
    and ok_register: "ok s \<Longrightarrow> ok (register t is s)"
    and ok_ack: "ok s \<Longrightarrow> ok (snd (ack t i s))"
    and ok_clear: "ok s \<Longrightarrow> ok (clear t s)"
begin

lemma ack_complete_iff:
  "ok s \<Longrightarrow> fst (ack t i s) \<longleftrightarrow> waiting s t = Some {i}"
  using waiting_ack [of s t i] by (auto simp: spec_ack_def split: option.splits if_splits)

lemma ack_waiting:
  "ok s \<Longrightarrow> waiting s t = Some is \<Longrightarrow> is \<noteq> {i} \<Longrightarrow> waiting (snd (ack t i s)) t = Some (is - {i})"
  using waiting_ack [of s t i] by (auto simp: spec_ack_def split: if_splits)

lemma ack_done:
  "ok s \<Longrightarrow> waiting s t = Some {i} \<Longrightarrow> waiting (snd (ack t i s)) t = None"
  using waiting_ack [of s t i] by (auto simp: spec_ack_def split: if_splits)

lemma ack_unknown:
  "ok s \<Longrightarrow> waiting s t = None \<Longrightarrow> waiting (snd (ack t i s)) t = None"
  using waiting_ack [of s t i] by (auto simp: spec_ack_def)

lemma ack_frame:
  "ok s \<Longrightarrow> t' \<noteq> t \<Longrightarrow> waiting (snd (ack t i s)) t' = waiting s t'"
  using waiting_ack [of s t i] by (auto simp: spec_ack_def split: option.splits if_splits)

end

lemma outstanding_ack:
  assumes "sync_inv sc"
  shows "(fst (handle_ack t i sc), outstanding_of (snd (handle_ack t i sc))) =
    spec_ack t i (outstanding_of sc)"
proof (cases "map_of (barriers sc) t")
  case None
  then show ?thesis by (simp add: handle_ack_def spec_ack_def outstanding_of_def)
next
  case (Some b)
  with assms have b: "acked_instruments b \<subseteq> expected_instruments b"
    "acked_instruments b = expected_instruments b \<longrightarrow> expected_instruments b = {}"
    by (auto simp: sync_inv_def barrier_ok_def)
  let ?w = "expected_instruments b - acked_instruments b"
  have iff: "i \<in> ?w \<and> ?w = {i} \<longleftrightarrow> i \<in> expected_instruments b \<and>
      insert i (acked_instruments b) = expected_instruments b"
    using b by auto
  show ?thesis
    using Some iff
    by (auto simp: handle_ack_def spec_ack_def outstanding_of_def Let_def fun_eq_iff)
qed

interpretation sc: barrier_table "\<lambda>t is. register_barrier now t is" handle_ack clear_barrier
    outstanding_of sync_inv for now
  by unfold_locales
    (auto simp: outstanding_ack invs,
     auto simp: outstanding_of_def register_barrier_def clear_barrier_def fun_eq_iff)

section \<open>Barrier semantics\<close>

definition foreign :: "u64 \<Rightarrow> sync_event list \<Rightarrow> bool" where
  "foreign t es \<longleftrightarrow> (\<forall>e \<in> set es. event_token e \<noteq> t)"

lemma outstanding_step_foreign:
  "sync_inv sc \<Longrightarrow> event_token e \<noteq> t \<Longrightarrow> outstanding_of (sync_step e sc) t = outstanding_of sc t"
  by (cases e) (auto simp: sc.waiting_register sc.waiting_clear sc.ack_frame)

lemma fold_foreign:
  "sync_inv sc \<Longrightarrow> foreign t es \<Longrightarrow>
   sync_inv (fold sync_step es sc) \<and> outstanding_of (fold sync_step es sc) t = outstanding_of sc t"
  by (induction es arbitrary: sc)
    (auto simp: foreign_def outstanding_step_foreign sync_inv_step)

lemma ack_run_Cons [simp]:
  "fst (ack_run t ((es, i) # as) sc) = fst (handle_ack t i (fold sync_step es sc)) #
     fst (ack_run t as (snd (handle_ack t i (fold sync_step es sc))))"
  "snd (ack_run t ((es, i) # as) sc) = snd (ack_run t as (snd (handle_ack t i (fold sync_step es sc))))"
  by (simp_all add: Let_def split: prod.splits)

declare ack_run.simps(2) [simp del]

lemma ack_run_done:
  assumes "sync_inv sc" and "outstanding_of sc t = None" and "\<forall>(es, i) \<in> set as. foreign t es"
  shows "fst (ack_run t as sc) = replicate (length as) False \<and>
    outstanding_of (snd (ack_run t as sc)) t = None"
  using assms
proof (induction as arbitrary: sc)
  case (Cons a as)
  obtain es i where a: "a = (es, i)" by (cases a)
  let ?s = "fold sync_step es sc"
  have s: "sync_inv ?s" "outstanding_of ?s t = None"
    using fold_foreign [of sc t es] Cons.prems a by auto
  have "\<not> fst (handle_ack t i ?s)" using s by (simp add: sc.ack_complete_iff)
  moreover have "outstanding_of (snd (handle_ack t i ?s)) t = None"
    using s by (simp add: sc.ack_unknown)
  ultimately show ?case
    using Cons.IH [of "snd (handle_ack t i ?s)"] Cons.prems a s
    by (auto simp: invs)
qed simp

lemma ack_run_nth:
  assumes "sync_inv sc" and "outstanding_of sc t = Some W" and "W \<noteq> {}"
    and "\<forall>(es, i) \<in> set as. foreign t es"
  shows "(\<forall>k < length as. fst (ack_run t as sc) ! k \<longleftrightarrow>
      W \<subseteq> set (take (Suc k) (map snd as)) \<and> \<not> W \<subseteq> set (take k (map snd as))) \<and>
    length (fst (ack_run t as sc)) = length as \<and>
    outstanding_of (snd (ack_run t as sc)) t =
      (if W \<subseteq> set (map snd as) then None else Some (W - set (map snd as)))"
  using assms
proof (induction as arbitrary: sc W)
  case (Cons a as)
  obtain es i where a: "a = (es, i)" by (cases a)
  let ?s = "fold sync_step es sc" and ?s1 = "snd (handle_ack t i (fold sync_step es sc))"
  have s: "sync_inv ?s" "outstanding_of ?s t = Some W" and fo: "\<forall>(es, i) \<in> set as. foreign t es"
    using fold_foreign [of sc t es] Cons.prems a by auto
  show ?case
  proof (cases "W = {i}")
    case True
    then have "fst (handle_ack t i ?s)" "outstanding_of ?s1 t = None"
      using s by (simp_all add: sc.ack_complete_iff sc.ack_done)
    moreover note ack_run_done [OF sync_inv_ack [OF s(1)] this(2) fo]
    ultimately show ?thesis
      using True by (auto simp: a nth_Cons split: nat.splits)
  next
    case False
    then have h: "\<not> fst (handle_ack t i ?s)" "outstanding_of ?s1 t = Some (W - {i})"
      using s by (simp_all add: sc.ack_complete_iff sc.ack_waiting)
    have "W - {i} \<noteq> {}" using False Cons.prems(3) by auto
    note IH = Cons.IH [OF sync_inv_ack [OF s(1)] h(2) this fo]
    have sub: "W - {i} \<subseteq> X \<longleftrightarrow> W \<subseteq> insert i X" for X by auto
    have "W - {i} - X = W - insert i X" for X by auto
    with IH h(1) False Cons.prems(3) show ?thesis
      by (auto simp: a nth_Cons sub split: nat.splits)
  qed
qed simp

text \<open>
  C9: after a barrier over some instruments has been registered, the acknowledgement that makes
  \<^verbatim>\<open>handle_ack\<close> return true is the first one that leaves no expected instrument missing, and
  only that one, whatever the order and repetition of the acknowledgements, whatever instruments
  outside the barrier acknowledge it, and whatever happens to other tokens in between; the barrier
  is gone exactly when it was completed.
\<close>

theorem barrier_completes_once:
  assumes "sync_reachable sc" and "insts \<noteq> []" and "\<forall>(es, i) \<in> set as. foreign t es"
    and "run = ack_run t as (register_barrier now t insts sc)"
  shows "(\<forall>k < length as. fst run ! k \<longleftrightarrow>
      set insts \<subseteq> set (take (Suc k) (map snd as)) \<and> \<not> set insts \<subseteq> set (take k (map snd as))) \<and>
    (has_barrier t (snd run) \<longleftrightarrow> \<not> set insts \<subseteq> set (map snd as))"
proof -
  let ?s = "register_barrier now t insts sc"
  have "sync_inv ?s" "outstanding_of ?s t = Some (set insts)"
    using sync_reachable_inv [OF assms(1)] by (simp_all add: invs sc.waiting_register)
  from ack_run_nth [OF this _ assms(3)] assms(2,4)
  show ?thesis by (auto simp: has_barrier_def outstanding_of_def split: if_splits)
qed

theorem barrier_completes_once_witness:
  "fst (ack_run 7 [([], ''A''), ([Ack 9 ''B''], ''A''), ([], ''X''), ([Clear 8], ''B''), ([], ''A'')]
      (register_barrier 0 7 [''A'', ''B''] new_coordinator)) ! 3 \<and>
   \<not> has_barrier 7 (snd (ack_run 7
      [([], ''A''), ([Ack 9 ''B''], ''A''), ([], ''X''), ([Clear 8], ''B''), ([], ''A'')]
      (register_barrier 0 7 [''A'', ''B''] new_coordinator)))"
proof -
  let ?as = "[([], ''A''), ([Ack 9 ''B''], ''A''), ([], ''X''), ([Clear 8], ''B''), ([], ''A'')]"
  have f: "\<forall>(es, i) \<in> set ?as. foreign 7 es" by (simp add: foreign_def)
  note th = barrier_completes_once [OF sync_reachable.start _ f refl, of "[''A'', ''B'']" 0]
  from th have "fst (ack_run 7 ?as (register_barrier 0 7 [''A'', ''B''] new_coordinator)) ! 3 \<longleftrightarrow>
      set [''A'', ''B''] \<subseteq> set (take (Suc 3) (map snd ?as)) \<and> \<not> set [''A'', ''B''] \<subseteq> set (take 3 (map snd ?as))"
    by (simp del: ack_run_Cons)
  with th show ?thesis by (simp add: numeral_eq_Suc del: ack_run_Cons)
qed

lemma filter_sorted_list_of_set:
  fixes E :: "string set"
  assumes "finite E"
  shows "filter (\<lambda>i. i \<notin> A) (sorted_list_of_set E) = sorted_list_of_set (E - A)"
  using assms by (intro sorted_distinct_set_unique) (auto intro: sorted_wrt_filter)

lemma get_waiting_outstanding:
  "sync_inv sc \<Longrightarrow> get_waiting_instruments t sc =
     (case outstanding_of sc t of None \<Rightarrow> [] | Some W \<Rightarrow> sorted_list_of_set W)"
  by (auto simp: get_waiting_instruments_def outstanding_of_def sync_inv_def barrier_ok_def
      filter_sorted_list_of_set split: option.splits)

lemma count_outstanding:
  "sync_inv sc \<Longrightarrow> active_barrier_count sc = card (dom (outstanding_of sc))"
  using om.length_keys [of "barriers sc"]
  by (simp add: active_barrier_count_def sync_inv_def outstanding_of_def dom_map_option_comp [unfolded comp_def])

text \<open>
  C20: the implementation refines the table of outstanding sets, in every reachable state and for
  every operation; the list of waiting instruments is the sorted outstanding set.
\<close>

theorem coordinator_refines_outstanding:
  assumes "sync_reachable sc"
  shows "outstanding_of (register_barrier now t insts sc) = (outstanding_of sc)(t \<mapsto> set insts) \<and>
    (fst (handle_ack t i sc), outstanding_of (snd (handle_ack t i sc))) = spec_ack t i (outstanding_of sc) \<and>
    outstanding_of (clear_barrier t sc) = (outstanding_of sc)(t := None) \<and>
    has_barrier t sc = (outstanding_of sc t \<noteq> None) \<and>
    get_waiting_instruments t sc =
      (case outstanding_of sc t of None \<Rightarrow> [] | Some W \<Rightarrow> sorted_list_of_set W) \<and>
    active_barrier_count sc = card (dom (outstanding_of sc))"
proof -
  note inv = sync_reachable_inv [OF assms]
  have "has_barrier t sc = (outstanding_of sc t \<noteq> None)"
    by (simp add: has_barrier_def outstanding_of_def)
  with inv show ?thesis
    by (simp add: sc.waiting_register sc.waiting_ack sc.waiting_clear get_waiting_outstanding
        count_outstanding)
qed

theorem coordinator_refines_outstanding_witness:
  "has_barrier 3 (register_barrier 0 3 [''A''] new_coordinator) \<and>
   fst (handle_ack 3 ''A'' (register_barrier 0 3 [''A''] new_coordinator))"
proof -
  have "sync_reachable (sync_step (Register 0 3 [''A'']) new_coordinator)"
    by (intro sync_reachable.intros)
  then have r: "sync_reachable (register_barrier 0 3 [''A''] new_coordinator)" by simp
  have "outstanding_of (register_barrier 0 3 [''A''] new_coordinator) 3 = Some {''A''}"
    by (simp add: outstanding_of_def register_barrier_def new_coordinator_def)
  then show ?thesis
    using coordinator_refines_outstanding [OF r, of 0 3 "[]" "''A''"] by (simp add: spec_ack_def)
qed

end
