(* ===== verification/Data_Buffer.thy ===== *)
theory Data_Buffer
  imports Cxx_Strings
begin

text \<open>
  \<^verbatim>\<open>DataBuffer\<close>, \<^verbatim>\<open>DataBufferManager\<close> (\<^verbatim>\<open>src/ipc/DataBufferManager.cpp\<close>) and its C
  interface (\<^verbatim>\<open>src/ipc/DataBufferManager_c_api.cpp\<close>): reference-counted buffers for large
  results. Sizes are 64-bit and reference counts 32-bit words, so that wrap-around is what the code
  does. \<^verbatim>\<open>malloc\<close> is an argument that says which requests succeed; the memory a caller passes
  is the function that reads it.
\<close>

section \<open>Data types\<close>

text \<open>An \<^verbatim>\<open>enum class : uint8_t\<close> can hold any byte, so a cast may leave the listed values.\<close>

datatype data_type = FLOAT32 | FLOAT64 | INT32 | INT64 | UINT32 | UINT64 | UINT8 | DT_unlisted u8

fun data_type_of_u8 :: "u8 \<Rightarrow> data_type" where
  "data_type_of_u8 b =
     (if b = 0 then FLOAT32 else if b = 1 then FLOAT64 else if b = 2 then INT32
      else if b = 3 then INT64 else if b = 4 then UINT32 else if b = 5 then UINT64
      else if b = 6 then UINT8 else DT_unlisted b)"

fun data_type_to_string :: "data_type \<Rightarrow> string" where
  "data_type_to_string FLOAT32 = ''float32''"
| "data_type_to_string FLOAT64 = ''float64''"
| "data_type_to_string INT32 = ''int32''"
| "data_type_to_string INT64 = ''int64''"
| "data_type_to_string UINT32 = ''uint32''"
| "data_type_to_string UINT64 = ''uint64''"
| "data_type_to_string UINT8 = ''uint8''"
| "data_type_to_string (DT_unlisted b) = ''unknown''"

fun data_type_size :: "data_type \<Rightarrow> u64" where
  "data_type_size FLOAT32 = 4"
| "data_type_size FLOAT64 = 8"
| "data_type_size INT32 = 4"
| "data_type_size UINT32 = 4"
| "data_type_size INT64 = 8"
| "data_type_size UINT64 = 8"
| "data_type_size UINT8 = 1"
| "data_type_size (DT_unlisted b) = 0"

section \<open>Buffers\<close>

record data_buffer =
  db_id :: string
  db_data :: "u8 list option"  \<comment> \<open>\<^verbatim>\<open>nullptr\<close> or the allocated block\<close>
  db_byte_size :: u64
  db_element_count :: u64
  db_data_type :: data_type
  db_owns_memory :: bool

definition new_data_buffer :: "string \<Rightarrow> u8 list \<Rightarrow> u64 \<Rightarrow> data_type \<Rightarrow> u64 \<Rightarrow> data_buffer" where
  "new_data_buffer i block bytes ty n =
     \<lparr>db_id = i, db_data = Some block, db_byte_size = bytes, db_element_count = n,
      db_data_type = ty, db_owns_memory = True\<rparr>"

text \<open>The move constructor: the new object and what is left of the old one (whose identifier is
  valid but unspecified after the move, an argument here).\<close>

definition move_data_buffer :: "string \<Rightarrow> data_buffer \<Rightarrow> data_buffer \<times> data_buffer" where
  "move_data_buffer left_id other =
     (other, other\<lparr>db_id := left_id, db_data := None, db_owns_memory := False\<rparr>)"

text \<open>The destructor: the block it frees, if any.\<close>

definition destroy_data_buffer :: "data_buffer \<Rightarrow> u8 list option" where
  "destroy_data_buffer b = (if db_owns_memory b then db_data b else None)"

definition move_assign_data_buffer ::
  "string \<Rightarrow> data_buffer \<Rightarrow> data_buffer \<Rightarrow> u8 list option \<times> data_buffer \<times> data_buffer"
where
  "move_assign_data_buffer left_id this other =
     (destroy_data_buffer this, fst (move_data_buffer left_id other), snd (move_data_buffer left_id other))"

definition as_float32 :: "data_buffer \<Rightarrow> u8 list option" where
  "as_float32 b = (if db_data_type b = FLOAT32 then db_data b else None)"

definition as_float64 :: "data_buffer \<Rightarrow> u8 list option" where
  "as_float64 b = (if db_data_type b = FLOAT64 then db_data b else None)"

definition as_int32 :: "data_buffer \<Rightarrow> u8 list option" where
  "as_int32 b = (if db_data_type b = INT32 then db_data b else None)"

definition as_int64 :: "data_buffer \<Rightarrow> u8 list option" where
  "as_int64 b = (if db_data_type b = INT64 then db_data b else None)"

definition as_uint32 :: "data_buffer \<Rightarrow> u8 list option" where
  "as_uint32 b = (if db_data_type b = UINT32 then db_data b else None)"

definition as_uint64 :: "data_buffer \<Rightarrow> u8 list option" where
  "as_uint64 b = (if db_data_type b = UINT64 then db_data b else None)"

definition as_uint8 :: "data_buffer \<Rightarrow> u8 list option" where
  "as_uint8 b = (if db_data_type b = UINT8 then db_data b else None)"

text \<open>
  \<^verbatim>\<open>export_to_file\<close> writes the block's first \<^verbatim>\<open>byte_size_\<close> bytes. Opening the file and the
  stream's state at the end are arguments; a null block with a positive size, or a block shorter
  than the size, is undefined behaviour (\<^const>\<open>None\<close>).
\<close>

definition read_block :: "data_buffer \<Rightarrow> nat \<Rightarrow> nat \<Rightarrow> u8 list option" where
  "read_block b off n =
     (case db_data b of
        None \<Rightarrow> (if n = 0 then Some [] else None)
      | Some block \<Rightarrow> (if off + n \<le> length block then Some (take n (drop off block)) else None))"

definition export_to_file :: "bool \<Rightarrow> bool \<Rightarrow> data_buffer \<Rightarrow> (bool \<times> u8 list) option" where
  "export_to_file opened good b =
     (if \<not> opened then Some (False, [])
      else map_option (\<lambda>bs. (good, bs)) (read_block b 0 (unat (db_byte_size b))))"

text \<open>
  \<^verbatim>\<open>export_to_csv\<close>: one line per element. The formatting of one element (its bytes, read as the
  buffer's type) by the output stream is the argument \<open>fmt\<close>.
\<close>

fun csv_lines :: "(data_type \<Rightarrow> u8 list \<Rightarrow> string) \<Rightarrow> data_buffer \<Rightarrow> nat \<Rightarrow> nat \<Rightarrow> string list option" where
  "csv_lines fmt b i 0 = Some []"
| "csv_lines fmt b i (Suc k) =
     (let sz = unat (data_type_size (db_data_type b)) in
      case read_block b (i * sz) sz of
        None \<Rightarrow> None
      | Some bs \<Rightarrow> map_option (\<lambda>ls. (fmt (db_data_type b) bs @ [CHR 0x0A]) # ls) (csv_lines fmt b (Suc i) k))"

definition export_to_csv ::
  "(data_type \<Rightarrow> u8 list \<Rightarrow> string) \<Rightarrow> bool \<Rightarrow> bool \<Rightarrow> data_buffer \<Rightarrow> (bool \<times> string list) option"
where
  "export_to_csv fmt opened good b =
     (if \<not> opened then Some (False, [])
      else case db_data_type b of
          DT_unlisted u \<Rightarrow> Some (False, [])
        | _ \<Rightarrow> map_option (\<lambda>ls. (good, ls)) (csv_lines fmt b 0 (unat (db_element_count b))))"

section \<open>The manager\<close>

record data_buffer_metadata =
  md_buffer_id :: string
  md_instrument_name :: string
  md_command_id :: string
  md_data_type :: data_type
  md_element_count :: u64
  md_byte_size :: u64
  md_timestamp_ms :: u64
  md_description :: string
  md_dimensions :: "u64 list"

record buffer_entry =
  be_buffer :: data_buffer
  be_metadata :: data_buffer_metadata
  be_ref_count :: u32

record data_buffer_manager =
  dm_buffers :: "(string, buffer_entry) umap"
  dm_next_buffer_id :: u64

definition new_manager :: data_buffer_manager where
  "new_manager = \<lparr>dm_buffers = [], dm_next_buffer_id = 1\<rparr>"

definition buffer_id_string :: "nat \<Rightarrow> u64 \<Rightarrow> string" where
  "buffer_id_string ms n = ''buffer_'' @ show_nat ms @ ''_'' @ show_nat (unat n)"

definition generate_buffer_id :: "nat \<Rightarrow> data_buffer_manager \<Rightarrow> string \<times> data_buffer_manager" where
  "generate_buffer_id ms m =
     (buffer_id_string ms (dm_next_buffer_id m), m\<lparr>dm_next_buffer_id := dm_next_buffer_id m + 1\<rparr>)"

text \<open>\<^verbatim>\<open>try_emplace\<close>: an existing entry is kept.\<close>

definition try_emplace :: "'k \<Rightarrow> 'v \<Rightarrow> ('k, 'v) umap \<Rightarrow> ('k, 'v) umap" where
  "try_emplace k v m = (if map_of m k = None then umap_put k v m else m)"

definition create_buffer ::
  "(u64 \<Rightarrow> bool) \<Rightarrow> nat \<Rightarrow> nat \<Rightarrow> string \<Rightarrow> string \<Rightarrow> data_type \<Rightarrow> u64 \<Rightarrow> (nat \<Rightarrow> u8) option \<Rightarrow>
   data_buffer_manager \<Rightarrow> string \<times> data_buffer_manager"
where
  "create_buffer malloc_ok ms ms' instrument_name command_id ty element_count data m =
     (let element_size = data_type_size ty in
      if element_size = 0 then ([], m)
      else
        let byte_size = element_count * element_size in
        if \<not> malloc_ok byte_size then ([], m)
        else
          let block = (case data of
                Some mem \<Rightarrow> map mem [0..<unat byte_size]
              | None \<Rightarrow> replicate (unat byte_size) 0);
              (buffer_id, m1) = generate_buffer_id ms m;
              buffer = new_data_buffer buffer_id block byte_size ty element_count;
              metadata = \<lparr>md_buffer_id = buffer_id, md_instrument_name = instrument_name,
                md_command_id = command_id, md_data_type = ty, md_element_count = element_count,
                md_byte_size = byte_size, md_timestamp_ms = of_nat ms', md_description = [],
                md_dimensions = []\<rparr>
          in (buffer_id,
              m1\<lparr>dm_buffers := try_emplace buffer_id
                    \<lparr>be_buffer = buffer, be_metadata = metadata, be_ref_count = 1\<rparr> (dm_buffers m1)\<rparr>))"

definition create_buffer_with_metadata ::
  "(u64 \<Rightarrow> bool) \<Rightarrow> nat \<Rightarrow> nat \<Rightarrow> data_buffer_metadata \<Rightarrow> (nat \<Rightarrow> u8) option \<Rightarrow>
   data_buffer_manager \<Rightarrow> string \<times> data_buffer_manager"
where
  "create_buffer_with_metadata malloc_ok ms ms' md data m =
     create_buffer malloc_ok ms ms' (md_instrument_name md) (md_command_id md) (md_data_type md)
       (md_element_count md) data m"

definition get_buffer :: "string \<Rightarrow> data_buffer_manager \<Rightarrow> data_buffer option \<times> data_buffer_manager" where
  "get_buffer i m =
     (case map_of (dm_buffers m) i of
        None \<Rightarrow> (None, m)
      | Some e \<Rightarrow> (Some (be_buffer e),
          m\<lparr>dm_buffers := umap_put i (e\<lparr>be_ref_count := be_ref_count e + 1\<rparr>) (dm_buffers m)\<rparr>))"

definition get_metadata :: "string \<Rightarrow> data_buffer_manager \<Rightarrow> data_buffer_metadata option" where
  "get_metadata i m = map_option be_metadata (map_of (dm_buffers m) i)"

definition release_buffer :: "string \<Rightarrow> data_buffer_manager \<Rightarrow> data_buffer_manager" where
  "release_buffer i m =
     (case map_of (dm_buffers m) i of
        None \<Rightarrow> m
      | Some e \<Rightarrow>
          let rc = be_ref_count e - 1 in
          if rc = 0 then m\<lparr>dm_buffers := umap_del i (dm_buffers m)\<rparr>
          else m\<lparr>dm_buffers := umap_put i (e\<lparr>be_ref_count := rc\<rparr>) (dm_buffers m)\<rparr>)"

definition list_buffers :: "data_buffer_manager \<Rightarrow> string list" where
  "list_buffers m = umap_keys (dm_buffers m)"

definition total_memory_usage :: "data_buffer_manager \<Rightarrow> u64" where
  "total_memory_usage m = foldl (\<lambda>t (i, e). t + md_byte_size (be_metadata e)) 0 (dm_buffers m)"

definition clear_all :: "data_buffer_manager \<Rightarrow> data_buffer_manager" where
  "clear_all m = m\<lparr>dm_buffers := []\<rparr>"

section \<open>The C interface\<close>

text \<open>
  A null pointer argument is \<^const>\<open>None\<close>. The result is the return code, the text left in
  \<^verbatim>\<open>buffer_id_out\<close> when it was written, and the manager.
\<close>

definition data_buffer_create ::
  "(u64 \<Rightarrow> bool) \<Rightarrow> nat \<Rightarrow> nat \<Rightarrow> string option \<Rightarrow> string option \<Rightarrow> u8 \<Rightarrow> u64 \<Rightarrow> (nat \<Rightarrow> u8) option \<Rightarrow>
   bool \<Rightarrow> data_buffer_manager \<Rightarrow> int \<times> string option \<times> data_buffer_manager"
where
  "data_buffer_create malloc_ok ms ms' instrument_name command_id data_type element_count data out_ok m =
     (case (instrument_name, command_id) of
        (Some inst, Some cid) \<Rightarrow>
          if \<not> out_ok then (-1, None, m)
          else
            let (buffer_id, m') = create_buffer malloc_ok ms ms' inst cid
                  (data_type_of_u8 data_type) element_count data m
            in if buffer_id = [] then (-1, None, m') else (0, Some (strncpy0 128 buffer_id), m')
      | _ \<Rightarrow> (-1, None, m))"

definition data_buffer_total_memory :: "data_buffer_manager \<Rightarrow> u64" where
  "data_buffer_total_memory m = total_memory_usage m"

section \<open>Histories\<close>

text \<open>
  Every entry point works under the manager's mutex; \<^verbatim>\<open>create_buffer\<close> draws its identifier from
  an atomic counter, which nothing else reads, before it takes the lock. A history is therefore a
  sequence of whole operations. \<open>Create\<close> carries its arguments, the two clock readings and
  \<^verbatim>\<open>malloc\<close>'s answer.
\<close>

datatype buffer_event =
    Create string string data_type u64 "(nat \<Rightarrow> u8) option" nat nat bool
  | Get string
  | Release string
  | ClearAll

fun buffer_step :: "buffer_event \<Rightarrow> data_buffer_manager \<Rightarrow> data_buffer_manager" where
  "buffer_step (Create inst cid ty n data ms ms' a) m = snd (create_buffer (\<lambda>_. a) ms ms' inst cid ty n data m)"
| "buffer_step (Get i) m = snd (get_buffer i m)"
| "buffer_step (Release i) m = release_buffer i m"
| "buffer_step ClearAll m = clear_all m"

fun is_create :: "buffer_event \<Rightarrow> bool" where
  "is_create (Create _ _ _ _ _ _ _ _) = True"
| "is_create _ = False"

text \<open>\<open>buffer_reachable n m\<close>: some history with \<open>n\<close> calls of \<^verbatim>\<open>create_buffer\<close> leads to \<open>m\<close>.\<close>

inductive buffer_reachable :: "nat \<Rightarrow> data_buffer_manager \<Rightarrow> bool" where
  start: "buffer_reachable 0 new_manager"
| created: "buffer_reachable n m \<Longrightarrow> is_create e \<Longrightarrow> buffer_reachable (Suc n) (buffer_step e m)"
| other: "buffer_reachable n m \<Longrightarrow> \<not> is_create e \<Longrightarrow> buffer_reachable n (buffer_step e m)"

section \<open>Invariant\<close>

definition entry_ok :: "string \<Rightarrow> buffer_entry \<Rightarrow> bool" where
  "entry_ok i e \<longleftrightarrow>
     (let b = be_buffer e; md = be_metadata e in
      db_id b = i \<and> md_buffer_id md = i \<and> db_owns_memory b \<and>
      map_option length (db_data b) = Some (unat (db_byte_size b)) \<and>
      db_byte_size b = db_element_count b * data_type_size (db_data_type b) \<and>
      data_type_size (db_data_type b) \<noteq> 0 \<and>
      md_byte_size md = db_byte_size b \<and> md_element_count md = db_element_count b \<and>
      md_data_type md = db_data_type b)"

definition manager_inv :: "data_buffer_manager \<Rightarrow> bool" where
  "manager_inv m \<longleftrightarrow> umap_ok (dm_buffers m) \<and>
     (\<forall>i e. map_of (dm_buffers m) i = Some e \<longrightarrow> entry_ok i e)"

lemma entry_ok_ref_count [simp]: "entry_ok i (e\<lparr>be_ref_count := c\<rparr>) = entry_ok i e"
  by (simp add: entry_ok_def Let_def)

lemma buffer_id_nonempty [simp]: "buffer_id_string ms n \<noteq> []"
  by (simp add: buffer_id_string_def)

text \<open>The entry a successful \<^verbatim>\<open>create_buffer\<close> builds.\<close>

definition fresh_entry ::
  "string \<Rightarrow> nat \<Rightarrow> string \<Rightarrow> string \<Rightarrow> data_type \<Rightarrow> u64 \<Rightarrow> (nat \<Rightarrow> u8) option \<Rightarrow> buffer_entry"
where
  "fresh_entry i ms' inst cid ty n data =
     \<lparr>be_buffer = new_data_buffer i
        (case data of Some mem \<Rightarrow> map mem [0..<unat (n * data_type_size ty)]
          | None \<Rightarrow> replicate (unat (n * data_type_size ty)) 0) (n * data_type_size ty) ty n,
      be_metadata = \<lparr>md_buffer_id = i, md_instrument_name = inst, md_command_id = cid,
        md_data_type = ty, md_element_count = n, md_byte_size = n * data_type_size ty,
        md_timestamp_ms = of_nat ms', md_description = [], md_dimensions = []\<rparr>,
      be_ref_count = 1\<rparr>"

lemma create_buffer_alt:
  "create_buffer a ms ms' inst cid ty n data m =
     (if data_type_size ty = 0 \<or> \<not> a (n * data_type_size ty) then ([], m)
      else let i = buffer_id_string ms (dm_next_buffer_id m) in
        (i, m\<lparr>dm_next_buffer_id := dm_next_buffer_id m + 1,
              dm_buffers := try_emplace i (fresh_entry i ms' inst cid ty n data) (dm_buffers m)\<rparr>))"
  by (simp add: create_buffer_def generate_buffer_id_def fresh_entry_def Let_def)

lemma fresh_entry_ok: "data_type_size ty \<noteq> 0 \<Longrightarrow> entry_ok i (fresh_entry i ms' inst cid ty n data)"
  by (simp add: entry_ok_def fresh_entry_def new_data_buffer_def Let_def split: option.split)

lemma manager_inv_create [invs]:
  "manager_inv m \<Longrightarrow> manager_inv (snd (create_buffer a ms ms' inst cid ty n data m))"
  by (auto simp: create_buffer_alt manager_inv_def Let_def try_emplace_def um.ok_put fresh_entry_ok)

lemma manager_inv_get [invs]: "manager_inv m \<Longrightarrow> manager_inv (snd (get_buffer i m))"
  by (auto simp: get_buffer_def manager_inv_def um.ok_put split: option.split)

lemma manager_inv_release [invs]: "manager_inv m \<Longrightarrow> manager_inv (release_buffer i m)"
  by (auto simp: release_buffer_def manager_inv_def Let_def um.ok_put um.ok_del split: option.split)

lemma manager_inv_clear [invs]: "manager_inv (clear_all m)"
  by (simp add: clear_all_def manager_inv_def)

lemma manager_inv_step [invs]: "manager_inv m \<Longrightarrow> manager_inv (buffer_step e m)"
  by (cases e) (simp_all add: invs)

lemma buffer_reachable_inv: "buffer_reachable n m \<Longrightarrow> manager_inv m"
  by (induction rule: buffer_reachable.induct) (simp_all add: invs, simp add: new_manager_def manager_inv_def)

section \<open>Identifiers\<close>

interpretation buffer_ids: id_source buffer_id_string
  by unfold_locales (auto simp: buffer_id_string_def show_nat_sep_inject word_unat_eq_iff)

text \<open>The counter never runs behind the identifiers in use, as long as it has not wrapped.\<close>

definition ids_below :: "nat \<Rightarrow> data_buffer_manager \<Rightarrow> bool" where
  "ids_below n m \<longleftrightarrow> unat (dm_next_buffer_id m) \<le> Suc n \<and>
     issued buffer_id_string (dom (map_of (dm_buffers m))) (dm_next_buffer_id m)"

lemma other_events_frame:
  assumes "\<not> is_create e"
  shows "dm_next_buffer_id (buffer_step e m) = dm_next_buffer_id m \<and>
    dom (map_of (dm_buffers (buffer_step e m))) \<subseteq> dom (map_of (dm_buffers m))"
  using assms
  by (cases e) (auto simp: get_buffer_def release_buffer_def clear_all_def Let_def
      split: option.splits if_splits)

lemma ids_below_other: "ids_below n m \<Longrightarrow> \<not> is_create e \<Longrightarrow> ids_below n (buffer_step e m)"
  using other_events_frame [of e m] by (auto simp: ids_below_def intro: buffer_ids.issued_subset)

lemma ids_below_create:
  assumes "ids_below n m" and "is_create e" and "Suc n < 2 ^ 64 - 1"
  shows "ids_below (Suc n) (buffer_step e m)"
proof (cases e)
  case (Create inst cid ty k data ms ms' a)
  have lt: "Suc (unat (dm_next_buffer_id m)) < 2 ^ 64"
    using assms by (auto simp: ids_below_def)
  have "dom (map_of (try_emplace i v bs)) = insert i (dom (map_of bs))" for i v and bs :: "(string, buffer_entry) umap"
    by (auto simp: try_emplace_def)
  then show ?thesis
    using assms(1) unat_inc [of "dm_next_buffer_id m"] lt
    by (auto simp: Create create_buffer_alt ids_below_def Let_def intro: buffer_ids.issued_next)
qed (use assms in auto)

lemma buffer_reachable_ids: "buffer_reachable n m \<Longrightarrow> n < 2 ^ 64 - 1 \<Longrightarrow> ids_below n m"
proof (induction rule: buffer_reachable.induct)
  case start
  show ?case by (simp add: ids_below_def new_manager_def issued_def)
qed (auto intro: ids_below_create ids_below_other)

lemma fresh_id:
  "ids_below n m \<Longrightarrow> map_of (dm_buffers m) (buffer_id_string ms (dm_next_buffer_id m)) = None"
  using buffer_ids.fresh by (auto simp: ids_below_def domIff)

section \<open>Life time of a buffer\<close>

text \<open>
  The contract behind the reference counts: \<open>holders i k es\<close> is the number of references that are
  held on buffer \<open>i\<close> after the events, starting from \<open>k\<close>, with no bound on the number, and
  \<^const>\<open>None\<close> from the moment the last reference was given back (or everything was cleared).
\<close>

fun holders :: "string \<Rightarrow> nat \<Rightarrow> buffer_event list \<Rightarrow> nat option" where
  "holders i k [] = Some k"
| "holders i k (Get j # es) = holders i (if j = i then Suc k else k) es"
| "holders i k (Release j # es) =
     (if j = i then (if k \<le> 1 then None else holders i (k - 1) es) else holders i k es)"
| "holders i k (ClearAll # es) = None"
| "holders i k (Create _ _ _ _ _ _ _ _ # es) = holders i k es"

definition buffer_run :: "buffer_event list \<Rightarrow> data_buffer_manager \<Rightarrow> data_buffer_manager" where
  "buffer_run es m = fold buffer_step es m"

lemma create_keeps:
  "map_of (dm_buffers m) i = Some e \<Longrightarrow>
   map_of (dm_buffers (snd (create_buffer a ms ms' inst cid ty n data m))) i = Some e"
  by (auto simp: create_buffer_alt Let_def try_emplace_def)

lemma lookup_get_buffer:
  "map_of (dm_buffers (snd (get_buffer j m))) i =
     (if i = j then map_option (be_ref_count_update (\<lambda>c. c + 1)) (map_of (dm_buffers m) i)
      else map_of (dm_buffers m) i)"
  by (auto simp: get_buffer_def split: option.split)

lemma lookup_release_buffer:
  "map_of (dm_buffers (release_buffer j m)) i =
     (if i = j then
        Option.bind (map_of (dm_buffers m) i)
          (\<lambda>e. if be_ref_count e = 1 then None else Some (e\<lparr>be_ref_count := be_ref_count e - 1\<rparr>))
      else map_of (dm_buffers m) i)"
  by (auto simp: release_buffer_def Let_def split: option.split)

lemma holders_refine:
  assumes "map_of (dm_buffers m) i = Some e" and "unat (be_ref_count e) = k" and "0 < k"
    and "k + length (filter (\<lambda>v. v = Get i) es) < 2 ^ 32"
    and "holders i k es = Some k'"
  shows "map_of (dm_buffers (buffer_run es m)) i = Some (e\<lparr>be_ref_count := of_nat k'\<rparr>)"
  using assms
proof (induction es arbitrary: k m e)
  case Nil
  then show ?case by (auto simp: buffer_run_def)
next
  case (Cons v es)
  show ?case
  proof (cases v)
    case (Get j)
    have "map_of (dm_buffers (buffer_run es (snd (get_buffer j m)))) i =
        Some ((if j = i then e\<lparr>be_ref_count := be_ref_count e + 1\<rparr> else e)\<lparr>be_ref_count := of_nat k'\<rparr>)"
      using Cons.prems unat_inc [of "be_ref_count e"]
      by (intro Cons.IH [where k = "if j = i then Suc k else k"])
        (auto simp: Get lookup_get_buffer split: if_splits)
    then show ?thesis by (simp add: buffer_run_def Get split: if_splits)
  next
    case (Release j)
    have "map_of (dm_buffers (buffer_run es (release_buffer j m))) i =
        Some ((if j = i then e\<lparr>be_ref_count := be_ref_count e - 1\<rparr> else e)\<lparr>be_ref_count := of_nat k'\<rparr>)"
      using Cons.prems unat_dec [of "be_ref_count e"]
      by (intro Cons.IH [where k = "if j = i then k - 1 else k"])
        (auto simp: Release lookup_release_buffer split: if_splits)
    then show ?thesis by (simp add: buffer_run_def Release split: if_splits)
  next
    case (Create a b c d f g h l)
    then have "map_of (dm_buffers (buffer_step v m)) i = Some e"
      using create_keeps Cons.prems(1) by simp
    then show ?thesis
      using Cons.IH [of "buffer_step v m" e k] Cons.prems by (simp add: Create buffer_run_def)
  next
    case ClearAll
    then show ?thesis using Cons.prems by simp
  qed
qed

section \<open>Properties\<close>

lemma create_stores:
  assumes "buffer_reachable n m" and "n < 2 ^ 64 - 1"
    and "data_type_size ty \<noteq> 0" and "malloc_ok (count * data_type_size ty)"
    and "create_buffer malloc_ok ms ms' inst cid ty count (Some mem) m = (i, m')"
  shows "i = buffer_id_string ms (dm_next_buffer_id m)" and "map_of (dm_buffers m) i = None"
    and "dm_buffers m' = try_emplace i (fresh_entry i ms' inst cid ty count (Some mem)) (dm_buffers m)"
    and "map_of (dm_buffers m') i = Some (fresh_entry i ms' inst cid ty count (Some mem))"
proof -
  show i: "i = buffer_id_string ms (dm_next_buffer_id m)"
    and m': "dm_buffers m' = try_emplace i (fresh_entry i ms' inst cid ty count (Some mem)) (dm_buffers m)"
    using assms(3-5) by (auto simp: create_buffer_alt Let_def)
  show new: "map_of (dm_buffers m) i = None"
    using fresh_id [OF buffer_reachable_ids [OF assms(1,2)]] i by simp
  then show "map_of (dm_buffers m') i = Some (fresh_entry i ms' inst cid ty count (Some mem))"
    by (simp add: m' try_emplace_def)
qed

lemma buffer_id_short:
  assumes "ms < 2 ^ 64"
  shows "strncpy0 128 (buffer_id_string ms c) = buffer_id_string ms c"
proof (rule strncpy0_id)
  show "CHR 0x00 \<notin> set (buffer_id_string ms c)"
    using show_nat_digits [of ms] show_nat_digits [of "unat c"] by (auto simp: buffer_id_string_def is_digit_def)
  show "length (buffer_id_string ms c) < 128"
    using u64_show_length [OF assms] u64_show_length [OF u64_less [of c]] by (simp add: buffer_id_string_def)
qed

text \<open>C16: A successful \<^verbatim>\<open>create_buffer\<close>, in any state a history with fewer than \<open>2 ^ 64 - 1\<close>
  creations can reach, returns an identifier that was not in use; \<^verbatim>\<open>get_buffer\<close> with it returns
  a buffer that holds exactly the caller's bytes, type and count, \<^verbatim>\<open>get_metadata\<close> the
  caller's names, and no other buffer's entry changes.\<close>

theorem create_get_roundtrip:
  assumes "buffer_reachable n m" and "n < 2 ^ 64 - 1"
    and "data_type_size ty \<noteq> 0" and "malloc_ok (count * data_type_size ty)"
    and "create_buffer malloc_ok ms ms' inst cid ty count (Some mem) m = (i, m')"
  shows "i \<notin> set (list_buffers m) \<and>
    map_option db_data (fst (get_buffer i m')) =
      Some (Some (map mem [0..<unat (count * data_type_size ty)])) \<and>
    map_option db_data_type (fst (get_buffer i m')) = Some ty \<and>
    map_option db_element_count (fst (get_buffer i m')) = Some count \<and>
    map_option md_instrument_name (get_metadata i m') = Some inst \<and>
    map_option md_command_id (get_metadata i m') = Some cid \<and>
    (\<forall>j. j \<noteq> i \<longrightarrow> map_of (dm_buffers m') j = map_of (dm_buffers m) j)"
proof -
  note c = create_stores [OF assms]
  show ?thesis
    using c(2)
    by (auto simp: get_buffer_def get_metadata_def c(4) list_buffers_def um.set_keys)
      (auto simp: fresh_entry_def new_data_buffer_def c(3) try_emplace_def)
qed

text \<open>C19: While references remain (fewer than \<open>2 ^ 32\<close> acquisitions), no sequence of creations,
  acquisitions and releases by any client changes or frees a buffer: the entry is there with the
  block and metadata it was created with, and its 32-bit count is the number of references held.
  The release of the last one frees it.\<close>

theorem buffer_lifetime:
  assumes "buffer_reachable n m" and "n < 2 ^ 64 - 1"
    and "create_buffer malloc_ok ms ms' inst cid ty count data m = (i, m')" and "i \<noteq> []"
    and "length (filter (\<lambda>v. v = Get i) es) < 2 ^ 32 - 1"
    and "holders i 1 es = Some k"
  shows "map_of (dm_buffers (buffer_run es m')) i =
      Some ((fresh_entry i ms' inst cid ty count data)\<lparr>be_ref_count := of_nat k\<rparr>) \<and>
    (k = 1 \<longrightarrow> map_of (dm_buffers (buffer_run (es @ [Release i]) m')) i = None)"
proof -
  have i: "i = buffer_id_string ms (dm_next_buffer_id m)"
    and m': "m' = m\<lparr>dm_next_buffer_id := dm_next_buffer_id m + 1,
      dm_buffers := try_emplace i (fresh_entry i ms' inst cid ty count data) (dm_buffers m)\<rparr>"
    using assms(3,4) by (auto simp: create_buffer_alt Let_def split: if_splits)
  have "map_of (dm_buffers m') i = Some (fresh_entry i ms' inst cid ty count data)"
    using fresh_id [OF buffer_reachable_ids [OF assms(1,2)], of ms]
    by (simp add: m' i try_emplace_def)
  moreover have "unat (be_ref_count (fresh_entry i ms' inst cid ty count data)) = 1"
    by (simp add: fresh_entry_def)
  ultimately have now: "map_of (dm_buffers (buffer_run es m')) i =
      Some ((fresh_entry i ms' inst cid ty count data)\<lparr>be_ref_count := of_nat k\<rparr>)"
    using assms(5,6) by (intro holders_refine [where k = 1]) auto
  then show ?thesis
    by (simp add: buffer_run_def lookup_release_buffer)
qed

lemma csv_lines_defined:
  assumes "db_data b = Some block"
  shows "(\<exists>ls. csv_lines fmt b i k = Some ls) \<longleftrightarrow>
    k = 0 \<or> (i + k) * unat (data_type_size (db_data_type b)) \<le> length block"
proof (induction k arbitrary: i)
  case (Suc k)
  let ?sz = "unat (data_type_size (db_data_type b))"
  have "(\<exists>ls. csv_lines fmt b i (Suc k) = Some ls) \<longleftrightarrow>
      i * ?sz + ?sz \<le> length block \<and> (\<exists>ls. csv_lines fmt b (Suc i) k = Some ls)"
    by (auto simp: read_block_def assms Let_def split: option.splits)
  also have "\<dots> \<longleftrightarrow> Suc i * ?sz \<le> length block \<and> (k = 0 \<or> (Suc i + k) * ?sz \<le> length block)"
    by (simp add: Suc.IH add.commute)
  also have "\<dots> \<longleftrightarrow> (i + Suc k) * ?sz \<le> length block"
    by (cases "k = 0") (auto intro: order_trans [rotated] simp: add_mult_distrib)
  finally show ?case by simp
qed simp

text \<open>C29: Exporting a stored buffer as CSV reads only memory of its block, and then writes one line
  per element, exactly when element count times element size fits 64 bits. Otherwise the allocated
  size wrapped and the export reads past the block.\<close>

theorem csv_export_in_bounds_iff:
  assumes "buffer_reachable n m" and "map_of (dm_buffers m) i = Some e"
  shows "(\<exists>r. export_to_csv fmt True good (be_buffer e) = Some r) \<longleftrightarrow>
    unat (db_element_count (be_buffer e)) * unat (data_type_size (db_data_type (be_buffer e))) < 2 ^ 64"
proof -
  let ?b = "be_buffer e"
  let ?p = "unat (db_element_count ?b) * unat (data_type_size (db_data_type ?b))"
  have ok: "entry_ok i e"
    using buffer_reachable_inv [OF assms(1)] assms(2) by (simp add: manager_inv_def)
  then obtain block where block: "db_data ?b = Some block" "length block = ?p mod 2 ^ 64"
    by (auto simp: entry_ok_def Let_def unat_word_ariths)
  have listed: "\<And>u. db_data_type ?b \<noteq> DT_unlisted u"
    using ok by (metis entry_ok_def data_type_size.simps(8))
  have "(\<exists>r. export_to_csv fmt True good ?b = Some r) \<longleftrightarrow> ?p = 0 \<or> ?p \<le> length block"
    using listed csv_lines_defined [OF block(1), of fmt 0 "unat (db_element_count ?b)"] ok
    by (auto simp: export_to_csv_def entry_ok_def Let_def unat_eq_zero split: data_type.split)
  also have "\<dots> \<longleftrightarrow> ?p < 2 ^ 64"
  proof
    assume "?p = 0 \<or> ?p \<le> length block"
    moreover have "length block < 2 ^ 64" using block(2) by simp
    ultimately show "?p < 2 ^ 64" by auto
  qed (simp add: block(2))
  finally show ?thesis .
qed

lemma foldl_sum_word:
  "foldl (\<lambda>t x. t + f x) (a :: u64) xs = a + of_nat (sum_list (map (\<lambda>x. unat (f x)) xs))"
  by (induction xs arbitrary: a) (simp_all add: unat_of_nat)

text \<open>\<^verbatim>\<open>total_memory_usage\<close> is the sum of the lengths of the blocks the manager holds,
  modulo \<open>2 ^ 64\<close>.\<close>

theorem total_memory_is_blocks:
  assumes "buffer_reachable n m"
  shows "unat (total_memory_usage m) =
    sum_list (map (\<lambda>(i, e). length (the (db_data (be_buffer e)))) (dm_buffers m)) mod 2 ^ 64"
proof -
  have ok: "entry_ok i e" if "(i, e) \<in> set (dm_buffers m)" for i e
    using buffer_reachable_inv [OF assms] that umap_ok_lookup by (metis manager_inv_def)
  have sizes: "map (\<lambda>x. unat (md_byte_size (be_metadata (snd x)))) (dm_buffers m) =
      map (\<lambda>x. length (the (db_data (be_buffer (snd x))))) (dm_buffers m)"
    using ok by (fastforce simp: entry_ok_def Let_def)
  show ?thesis
    unfolding total_memory_usage_def case_prod_unfold foldl_sum_word sizes
    by (simp add: unat_of_nat)
qed

text \<open>The C entry point returns 0 exactly when its name, command and output pointers are not
  null, the type byte is one of the seven listed and \<^verbatim>\<open>malloc\<close> succeeds, and then the identifier
  it copied out is the whole identifier, which the manager knows; else it leaves the manager as it
  was.\<close>

theorem c_create_contract:
  assumes "ms < 2 ^ 64"
    and "data_buffer_create malloc_ok ms ms' inst cid ty count data out_ok m = (rc, text, m')"
  shows "(rc = 0 \<longleftrightarrow> inst \<noteq> None \<and> cid \<noteq> None \<and> out_ok \<and> ty \<le> 6 \<and>
        malloc_ok (count * data_type_size (data_type_of_u8 ty))) \<and>
    (rc = 0 \<longrightarrow> text = Some (buffer_id_string ms (dm_next_buffer_id m)) \<and>
        buffer_id_string ms (dm_next_buffer_id m) \<in> set (list_buffers m')) \<and>
    (rc \<noteq> 0 \<longrightarrow> rc = -1 \<and> text = None \<and> m' = m)"
proof -
  let ?id = "buffer_id_string ms (dm_next_buffer_id m)"
  have listed: "data_type_size (data_type_of_u8 ty) = 0 \<longleftrightarrow> \<not> ty \<le> 6"
    by (auto simp: word_le_nat_alt) (simp_all add: word_unat_eq_iff)
  have id: "strncpy0 128 ?id = ?id" using buffer_id_short [OF assms(1)] .
  have dom: "\<exists>y. map_of (try_emplace ?id e bs) ?id = Some y" for e bs
    by (auto simp: try_emplace_def)
  show ?thesis
    using assms(2) listed id dom
    by (auto simp: data_buffer_create_def create_buffer_alt Let_def list_buffers_def um.set_keys
        split: option.splits if_splits simp del: data_type_of_u8.simps)
qed

section \<open>Witnesses\<close>

text \<open>One client's buffer of three bytes, created first of all at clock reading 7.\<close>

definition demo_bytes :: "nat \<Rightarrow> u8" where
  "demo_bytes i = of_nat (i * i)"

definition demo_create :: "string \<times> data_buffer_manager" where
  "demo_create = create_buffer (\<lambda>_. True) 7 7 ''dmm'' ''c1'' UINT8 3 (Some demo_bytes) new_manager"

lemma show_nat_demo [simp]: "show_nat 7 = ''7''" "show_nat (Suc 0) = ''1''" "show_nat 1 = ''1''"
  by code_simp+

lemma demo_create_eq:
  "demo_create = (''buffer_7_1'', \<lparr>dm_buffers = [(''buffer_7_1'',
      fresh_entry ''buffer_7_1'' 7 ''dmm'' ''c1'' UINT8 3 (Some demo_bytes))],
      dm_next_buffer_id = 2\<rparr>)"
  by (simp add: demo_create_def create_buffer_alt Let_def new_manager_def buffer_id_string_def try_emplace_def)

lemma demo_reachable: "buffer_reachable 1 (snd demo_create)"
  using buffer_reachable.created [OF buffer_reachable.start,
      of "Create ''dmm'' ''c1'' UINT8 3 (Some demo_bytes) 7 7 True"]
  by (simp add: demo_create_def)

lemma demo_create_call:
  "create_buffer (\<lambda>_. True) 7 7 ''dmm'' ''c1'' UINT8 3 (Some demo_bytes) new_manager =
   (''buffer_7_1'', snd demo_create)"
  by (simp add: demo_create_eq flip: demo_create_def)

theorem create_get_roundtrip_witness:
  "map_option db_data (fst (get_buffer ''buffer_7_1'' (snd demo_create))) = Some (Some [0, 1, 4]) \<and>
   ''buffer_7_1'' \<notin> set (list_buffers new_manager)"
  using create_get_roundtrip [OF buffer_reachable.start _ _ _ demo_create_call]
  by (simp add: upt_rec demo_bytes_def)

theorem buffer_lifetime_witness:
  "map_of (dm_buffers (buffer_run [Get ''buffer_7_1'', Release ''buffer_7_1'', Release ''buffer_7_1'']
     (snd demo_create))) ''buffer_7_1'' = None"
  using buffer_lifetime [OF buffer_reachable.start _ demo_create_call,
      of "[Get ''buffer_7_1'', Release ''buffer_7_1'']" 1]
  by simp

theorem csv_export_in_bounds_iff_witness:
  "\<exists>r. export_to_csv (\<lambda>_ _. ''x'') True True
     (be_buffer (fresh_entry ''buffer_7_1'' 7 ''dmm'' ''c1'' UINT8 3 (Some demo_bytes))) = Some r"
  using csv_export_in_bounds_iff [OF demo_reachable, of "''buffer_7_1''"
      "fresh_entry ''buffer_7_1'' 7 ''dmm'' ''c1'' UINT8 3 (Some demo_bytes)" "\<lambda>_ _. ''x''" True]
  by (simp add: demo_create_eq) (simp add: fresh_entry_def new_data_buffer_def)

theorem total_memory_is_blocks_witness: "unat (total_memory_usage (snd demo_create)) = 3"
  using total_memory_is_blocks [OF demo_reachable]
  by (simp add: demo_create_eq) (simp add: fresh_entry_def new_data_buffer_def)

theorem c_create_contract_witness:
  "fst (data_buffer_create (\<lambda>_. True) 7 7 (Some ''dmm'') (Some ''c1'') 6 3 None True new_manager) = 0 \<and>
   fst (data_buffer_create (\<lambda>_. True) 7 7 (Some ''dmm'') (Some ''c1'') 7 3 None True new_manager) = -1"
proof -
  have "fst (data_buffer_create (\<lambda>_. True) 7 7 (Some ''dmm'') (Some ''c1'') ty 3 None True new_manager) =
      (if ty \<le> 6 then 0 else -1)" for ty
    by (rule prod_cases3 [of "data_buffer_create (\<lambda>_. True) 7 7 (Some ''dmm'') (Some ''c1'') ty 3 None True new_manager"])
      (use c_create_contract [of 7 "\<lambda>_. True" 7 "Some ''dmm''" "Some ''c1''" ty 3 None True new_manager] in force)
  then show ?thesis by simp
qed

end
