(* ===== verification/Job_Manager.thy ===== *)
theory Job_Manager
  imports Json
begin

text \<open>
  \<^verbatim>\<open>JobManager\<close> (\<^verbatim>\<open>src/server/JobManager.cpp\<close>): the job queue, its one worker thread and the
  detached monitor threads of measure jobs. Each critical section of the mutex is one step, so a
  history is an interleaving of client calls, worker sections and monitor sections. What runs
  outside the mutex (the Lua script, the clock, starting a thread) is an input of the step.
\<close>

section \<open>State\<close>

record job_info =
  ji_id :: string
  ji_type :: string
  ji_params :: json
  ji_status :: string
  ji_result :: json
  ji_error :: string
  ji_created_at :: nat
  ji_started_at :: nat
  ji_finished_at :: nat

text \<open>
  Where the worker thread is: \<open>AtWait\<close> at the top of its loop; \<open>WaitMeasure jid\<close> inside
  \<^verbatim>\<open>measure_cv_.wait\<close> with the front of the queue peeked; \<open>Starting\<close> after the pop;
  \<open>Sleeping\<close> in the loop of a sleep job with the duration and the time slept so far;
  \<open>InScript\<close> and \<open>Spawning\<close> in a measure job; \<open>Finishing\<close> before the last
  section, with what the \<^verbatim>\<open>try\<close> block left; \<open>Exited\<close>; \<open>Undefined\<close> after an operation
  the language leaves undefined.
\<close>

datatype worker_pc =
    AtWait
  | WaitMeasure string
  | Starting string
  | Sleeping string job_info int int
  | InScript string job_info
  | Spawning string job_info
  | Finishing string job_info "json result"
  | Exited
  | Undefined

record job_manager =
  jm_queue :: "string list"
  jm_jobs :: "(string, job_info) umap"
  jm_next_id :: u64
  jm_running :: bool
  jm_active_measure_jobs :: "string set"
  jm_worker :: worker_pc
  jm_monitors :: "string list"  \<comment> \<open>jobs whose detached monitor thread runs\<close>

definition new_job_manager :: job_manager where
  "new_job_manager = \<lparr>jm_queue = [], jm_jobs = [], jm_next_id = 1, jm_running = True,
     jm_active_measure_jobs = {}, jm_worker = AtWait, jm_monitors = []\<rparr>"

section \<open>Client operations\<close>

definition job_id_string :: "nat \<Rightarrow> u64 \<Rightarrow> string" where
  "job_id_string ms n = ''job-'' @ show_nat ms @ ''-'' @ show_nat (unat n)"

definition make_job_id :: "nat \<Rightarrow> job_manager \<Rightarrow> string \<times> job_manager" where
  "make_job_id ms s = (job_id_string ms (jm_next_id s), s\<lparr>jm_next_id := jm_next_id s + 1\<rparr>)"

text \<open>\<^verbatim>\<open>emplace\<close> keeps an entry that is already there.\<close>

definition submit_job :: "nat \<Rightarrow> nat \<Rightarrow> string \<Rightarrow> json \<Rightarrow> job_manager \<Rightarrow> string \<times> job_manager" where
  "submit_job ms now job_type params s =
     (let (jid, s1) = make_job_id ms s;
          info = \<lparr>ji_id = jid, ji_type = job_type, ji_params = params, ji_status = ''queued'',
                  ji_result = JNull, ji_error = [], ji_created_at = now, ji_started_at = 0,
                  ji_finished_at = 0\<rparr>
      in (jid, s1\<lparr>jm_jobs := (if map_of (jm_jobs s1) jid = None then umap_put jid info (jm_jobs s1)
                              else jm_jobs s1),
                  jm_queue := jm_queue s1 @ [jid]\<rparr>))"

definition submit_measure ::
  "nat \<Rightarrow> nat \<Rightarrow> string \<Rightarrow> json \<Rightarrow> job_manager \<Rightarrow> (string \<times> job_manager) result"
where
  "submit_measure ms now script_path params s =
     bind_result (jset ''script_path'' (JStr script_path) params)
       (\<lambda>p. Inr (submit_job ms now ''measure'' p s))"

definition get_job_info :: "string \<Rightarrow> job_manager \<Rightarrow> job_info option" where
  "get_job_info jid s = map_of (jm_jobs s) jid"

definition get_job_result :: "string \<Rightarrow> job_manager \<Rightarrow> json option" where
  "get_job_result jid s =
     (case map_of (jm_jobs s) jid of
        None \<Rightarrow> None
      | Some j \<Rightarrow> if ji_status j \<noteq> ''completed'' then None else Some (ji_result j))"

definition list_jobs :: "job_manager \<Rightarrow> job_info list" where
  "list_jobs s = map snd (jm_jobs s)"

definition put_job :: "string \<Rightarrow> job_info \<Rightarrow> job_manager \<Rightarrow> job_manager" where
  "put_job jid j s = s\<lparr>jm_jobs := umap_put jid j (jm_jobs s)\<rparr>"

definition cancel_job :: "nat \<Rightarrow> string \<Rightarrow> job_manager \<Rightarrow> bool \<times> job_manager" where
  "cancel_job now jid s =
     (case map_of (jm_jobs s) jid of
        None \<Rightarrow> (False, s)
      | Some j \<Rightarrow>
          if ji_status j = ''queued'' then
            (True, put_job jid (j\<lparr>ji_status := ''canceled'', ji_finished_at := now, ji_error := ''canceled''\<rparr>)
                     (s\<lparr>jm_queue := remove1 jid (jm_queue s)\<rparr>))
          else if ji_status j = ''running'' then
            (True, put_job jid (j\<lparr>ji_status := ''canceling''\<rparr>) s)
          else (False, s))"

text \<open>The critical section of \<^verbatim>\<open>stop\<close>; joining the thread changes nothing of the state.\<close>

definition stop :: "job_manager \<Rightarrow> job_manager" where
  "stop s = (if jm_running s then s\<lparr>jm_running := False\<rparr> else s)"

section \<open>The worker thread\<close>

text \<open>Inputs of a worker step: the clock, how the script ended (an error text, or \<^const>\<open>None\<close>),
  and whether \<^verbatim>\<open>std::thread\<close> threw.\<close>

record worker_input =
  wi_now :: nat
  wi_script_error :: "string option"
  wi_spawn_error :: "string option"

text \<open>\<^verbatim>\<open>pop_front\<close> and marking the peeked job; popping an empty deque is undefined.\<close>

definition pop_and_start :: "nat \<Rightarrow> string \<Rightarrow> job_manager \<Rightarrow> job_manager" where
  "pop_and_start now jid s =
     (case (jm_queue s, map_of (jm_jobs s) jid) of
        (q # qs, Some j) \<Rightarrow>
          (put_job jid (j\<lparr>ji_status := ''running'', ji_started_at := now\<rparr>) s)
            \<lparr>jm_queue := qs, jm_worker := Starting jid\<rparr>
      | _ \<Rightarrow> s\<lparr>jm_worker := Undefined\<rparr>)"

definition at_wait_step :: "nat \<Rightarrow> job_manager \<Rightarrow> job_manager option" where
  "at_wait_step now s =
     (case jm_queue s of
        [] \<Rightarrow> if jm_running s then None else Some (s\<lparr>jm_worker := Exited\<rparr>)
      | jid # _ \<Rightarrow>
          (case map_of (jm_jobs s) jid of
             None \<Rightarrow> Some (s\<lparr>jm_worker := Undefined\<rparr>)
           | Some jpeek \<Rightarrow>
               if ji_type jpeek \<noteq> ''measure'' \<and> jm_active_measure_jobs s \<noteq> {} \<and> jm_running s
               then Some (s\<lparr>jm_worker := WaitMeasure jid\<rparr>)
               else Some (pop_and_start now jid s)))"

definition int32_of :: "int \<Rightarrow> int" where
  "int32_of i = sint (word_of_int i :: 32 word)"

definition sleep_duration :: "json_lib \<Rightarrow> json \<Rightarrow> int" where
  "sleep_duration L params =
     (case value_int L params ''duration_ms'' 100 of Inl e \<Rightarrow> 100 | Inr ms \<Rightarrow> int32_of ms)"

definition dispatch_job :: "json_lib \<Rightarrow> string \<Rightarrow> job_info \<Rightarrow> worker_pc" where
  "dispatch_job L jid run_info =
     (if ji_type run_info = ''sleep'' then
        Sleeping jid run_info (sleep_duration L (ji_params run_info)) 0
      else if ji_type run_info = ''measure'' then
        (case value_string (ji_params run_info) ''script_path'' [] of
           Inl e \<Rightarrow> Finishing jid run_info (Inl e)
         | Inr script_path \<Rightarrow>
             if script_path = [] then Finishing jid run_info (Inl ''missing script_path'')
             else InScript jid run_info)
      else Finishing jid run_info (Inl (''unknown job type: '' @ ji_type run_info)))"

text \<open>One round of the sleep loop; the signed addition at its end is undefined past \<^verbatim>\<open>INT_MAX\<close>.\<close>

definition cancel_requested :: "string \<Rightarrow> job_manager \<Rightarrow> bool" where
  "cancel_requested jid s =
     (case map_of (jm_jobs s) jid of
        None \<Rightarrow> False
      | Some j \<Rightarrow> ji_status j = ''canceling'' \<or> ji_status j = ''canceled'')"

definition sleep_round :: "string \<Rightarrow> job_info \<Rightarrow> int \<Rightarrow> int \<Rightarrow> job_manager \<Rightarrow> worker_pc" where
  "sleep_round jid run_info ms slept s =
     (if slept < ms then
        if cancel_requested jid s then Finishing jid run_info (Inl ''canceled'')
        else if slept + 20 > 2 ^ 31 - 1 then Undefined
        else Sleeping jid run_info ms (slept + 20)
      else Finishing jid run_info
        (Inr (json_object [(''message'', JStr ''slept''), (''duration_ms'', JInt ms)])))"

definition finish_job :: "nat \<Rightarrow> string \<Rightarrow> job_info \<Rightarrow> json result \<Rightarrow> job_manager \<Rightarrow> job_manager" where
  "finish_job now jid run_info out s =
     (case map_of (jm_jobs s) jid of
        None \<Rightarrow> s
      | Some j \<Rightarrow>
          if ji_type run_info \<noteq> ''measure'' then
            (case out of
               Inr result \<Rightarrow> put_job jid (j\<lparr>ji_status := ''completed'', ji_result := result, ji_finished_at := now\<rparr>) s
             | Inl err \<Rightarrow> put_job jid (j\<lparr>ji_status := ''failed'', ji_error := err, ji_finished_at := now\<rparr>) s)
          else
            (case out of
               Inl err \<Rightarrow>
                 (put_job jid (j\<lparr>ji_status := ''failed'', ji_error := err, ji_finished_at := now\<rparr>) s)
                   \<lparr>jm_active_measure_jobs := jm_active_measure_jobs s - {jid}\<rparr>
             | Inr result \<Rightarrow> s))"

text \<open>One step of \<^verbatim>\<open>worker_loop\<close>; \<^const>\<open>None\<close> while it is blocked in a wait or has ended.\<close>

definition worker_step :: "json_lib \<Rightarrow> worker_input \<Rightarrow> job_manager \<Rightarrow> job_manager option" where
  "worker_step L inp s =
     (case jm_worker s of
        AtWait \<Rightarrow> at_wait_step (wi_now inp) s
      | WaitMeasure jid \<Rightarrow>
          if jm_active_measure_jobs s \<noteq> {} \<and> jm_running s then None
          else Some (pop_and_start (wi_now inp) jid s)
      | Starting jid \<Rightarrow>
          (case map_of (jm_jobs s) jid of
             None \<Rightarrow> Some (s\<lparr>jm_worker := Undefined\<rparr>)
           | Some run_info \<Rightarrow> Some (s\<lparr>jm_worker := dispatch_job L jid run_info\<rparr>))
      | Sleeping jid run_info ms slept \<Rightarrow> Some (s\<lparr>jm_worker := sleep_round jid run_info ms slept s\<rparr>)
      | InScript jid run_info \<Rightarrow>
          (case wi_script_error inp of
             Some e \<Rightarrow> Some (s\<lparr>jm_worker := Finishing jid run_info (Inl (''Script error: '' @ e))\<rparr>)
           | None \<Rightarrow> Some (s\<lparr>jm_active_measure_jobs := insert jid (jm_active_measure_jobs s),
                            jm_worker := Spawning jid run_info\<rparr>))
      | Spawning jid run_info \<Rightarrow>
          (case wi_spawn_error inp of
             Some e \<Rightarrow> Some (s\<lparr>jm_worker := Finishing jid run_info (Inl e)\<rparr>)
           | None \<Rightarrow> Some (s\<lparr>jm_monitors := jid # jm_monitors s,
                            jm_worker := Finishing jid run_info
                              (Inr (json_object [(''message'', JStr ''enqueued'')]))\<rparr>))
      | Finishing jid run_info out \<Rightarrow>
          Some ((finish_job (wi_now inp) jid run_info out s)\<lparr>jm_worker := AtWait\<rparr>)
      | Exited \<Rightarrow> None
      | Undefined \<Rightarrow> None)"

text \<open>The critical section at the end of a monitor thread, with the results it collected.\<close>

definition monitor_done :: "nat \<Rightarrow> string \<Rightarrow> json \<Rightarrow> job_manager \<Rightarrow> job_manager" where
  "monitor_done now jid r s =
     (let s1 = (case map_of (jm_jobs s) jid of
                  None \<Rightarrow> s
                | Some j \<Rightarrow> put_job jid (j\<lparr>ji_result := r, ji_status := ''completed'', ji_finished_at := now\<rparr>) s)
      in s1\<lparr>jm_active_measure_jobs := jm_active_measure_jobs s1 - {jid},
            jm_monitors := remove1 jid (jm_monitors s1)\<rparr>)"

section \<open>Histories\<close>

datatype job_event =
    Submit nat nat string json
  | Cancel nat string
  | Stop
  | Worker worker_input
  | MonitorDone nat string json

fun job_step :: "json_lib \<Rightarrow> job_event \<Rightarrow> job_manager \<Rightarrow> job_manager option" where
  "job_step L (Submit ms now ty params) s = Some (snd (submit_job ms now ty params s))"
| "job_step L (Cancel now jid) s = Some (snd (cancel_job now jid s))"
| "job_step L Stop s = Some (stop s)"
| "job_step L (Worker inp) s = worker_step L inp s"
| "job_step L (MonitorDone now jid r) s =
     (if jid \<in> set (jm_monitors s) then Some (monitor_done now jid r s) else None)"

fun is_submit :: "job_event \<Rightarrow> bool" where
  "is_submit (Submit _ _ _ _) = True"
| "is_submit _ = False"

text \<open>\<open>job_reachable L n s\<close>: some history with \<open>n\<close> submissions leads to \<open>s\<close>.\<close>

inductive job_reachable :: "json_lib \<Rightarrow> nat \<Rightarrow> job_manager \<Rightarrow> bool" for L where
  start: "job_reachable L 0 new_job_manager"
| step: "job_reachable L n s \<Longrightarrow> job_step L e s = Some s' \<Longrightarrow>
    job_reachable L (if is_submit e then Suc n else n) s'"

fun job_run :: "json_lib \<Rightarrow> job_event list \<Rightarrow> job_manager \<Rightarrow> job_manager option" where
  "job_run L [] s = Some s"
| "job_run L (e # es) s = Option.bind (job_step L e s) (job_run L es)"

section \<open>Invariant\<close>

definition job_status :: "job_manager \<Rightarrow> string \<Rightarrow> string option" where
  "job_status s jid = map_option ji_status (map_of (jm_jobs s) jid)"

definition job_type :: "job_manager \<Rightarrow> string \<Rightarrow> string option" where
  "job_type s jid = map_option ji_type (map_of (jm_jobs s) jid)"

definition live :: "job_manager \<Rightarrow> string \<Rightarrow> bool" where
  "live s jid \<longleftrightarrow> job_status s jid = Some ''running'' \<or> job_status s jid = Some ''canceling''"

definition queue_inv :: "job_manager \<Rightarrow> bool" where
  "queue_inv s \<longleftrightarrow> distinct (jm_queue s) \<and>
     (\<forall>jid \<in> set (jm_queue s). job_status s jid = Some ''queued'')"

definition monitor_inv :: "job_manager \<Rightarrow> bool" where
  "monitor_inv s \<longleftrightarrow> distinct (jm_monitors s) \<and>
     (\<forall>jid \<in> set (jm_monitors s). live s jid \<and> job_type s jid = Some ''measure'' \<and>
        jid \<in> jm_active_measure_jobs s)"

text \<open>The job the worker executes is live, is no monitor's, and has the type that was copied.\<close>

definition owned :: "job_manager \<Rightarrow> string \<Rightarrow> bool" where
  "owned s jid \<longleftrightarrow> live s jid \<and> jid \<notin> set (jm_monitors s)"

definition worker_inv :: "job_manager \<Rightarrow> bool" where
  "worker_inv s \<longleftrightarrow>
     (case jm_worker s of
        WaitMeasure jid \<Rightarrow> job_type s jid \<noteq> Some ''measure'' \<and>
          (job_status s jid = Some ''queued'' \<and> jm_queue s \<noteq> [] \<and> hd (jm_queue s) = jid \<or>
           job_status s jid = Some ''canceled'')
      | Starting jid \<Rightarrow> owned s jid
      | Sleeping jid info ms slept \<Rightarrow>
          owned s jid \<and> job_type s jid = Some (ji_type info) \<and> ji_type info = ''sleep''
      | InScript jid info \<Rightarrow> owned s jid \<and> job_type s jid = Some (ji_type info) \<and> ji_type info = ''measure''
      | Spawning jid info \<Rightarrow> owned s jid \<and> job_type s jid = Some (ji_type info) \<and>
          ji_type info = ''measure'' \<and> jid \<in> jm_active_measure_jobs s
      | Finishing jid info out \<Rightarrow> job_type s jid = Some (ji_type info) \<and>
          (ji_type info = ''measure'' \<and> (\<exists>r. out = Inr r) \<or> owned s jid)
      | _ \<Rightarrow> True)"

text \<open>The job the worker executes between its two sections, if any.\<close>

fun executing :: "worker_pc \<Rightarrow> string option" where
  "executing (Starting jid) = Some jid"
| "executing (Sleeping jid _ _ _) = Some jid"
| "executing (InScript jid _) = Some jid"
| "executing (Spawning jid _) = Some jid"
| "executing (Finishing jid _ _) = Some jid"
| "executing _ = None"

definition exclusion_inv :: "job_manager \<Rightarrow> bool" where
  "exclusion_inv s \<longleftrightarrow>
     (\<forall>jid. executing (jm_worker s) = Some jid \<longrightarrow> job_type s jid \<noteq> Some ''measure'' \<longrightarrow>
        jm_running s \<longrightarrow> jm_active_measure_jobs s = {})"

definition ids_inv :: "nat \<Rightarrow> job_manager \<Rightarrow> bool" where
  "ids_inv n s \<longleftrightarrow> unat (jm_next_id s) \<le> Suc n \<and>
     issued job_id_string (dom (map_of (jm_jobs s))) (jm_next_id s)"

definition job_inv :: "nat \<Rightarrow> job_manager \<Rightarrow> bool" where
  "job_inv n s \<longleftrightarrow> ids_inv n s \<and> queue_inv s \<and> monitor_inv s \<and> worker_inv s \<and> exclusion_inv s"

interpretation job_ids: id_source job_id_string
  by unfold_locales (auto simp: job_id_string_def show_nat_sep_inject word_unat_eq_iff)

lemmas job_inv_defs = job_inv_def queue_inv_def monitor_inv_def worker_inv_def exclusion_inv_def

lemma put_job_simps [simp]:
  "map_of (jm_jobs (put_job jid j s)) = (map_of (jm_jobs s))(jid \<mapsto> j)"
  "jm_queue (put_job jid j s) = jm_queue s"
  "jm_next_id (put_job jid j s) = jm_next_id s"
  "jm_running (put_job jid j s) = jm_running s"
  "jm_active_measure_jobs (put_job jid j s) = jm_active_measure_jobs s"
  "jm_worker (put_job jid j s) = jm_worker s"
  "jm_monitors (put_job jid j s) = jm_monitors s"
  by (simp_all add: put_job_def)

lemma job_status_put [simp]:
  "job_status (put_job jid j s) i = (if i = jid then Some (ji_status j) else job_status s i)"
  by (simp add: job_status_def)

lemma job_type_put [simp]:
  "job_type (put_job jid j s) i = (if i = jid then Some (ji_type j) else job_type s i)"
  by (simp add: job_type_def)

text \<open>Neither depends on anything but the job table.\<close>

lemma job_status_cong [simp]:
  "job_status (s\<lparr>jm_queue := q\<rparr>) = job_status s"
  "job_status (s\<lparr>jm_running := r\<rparr>) = job_status s"
  "job_status (s\<lparr>jm_next_id := k\<rparr>) = job_status s"
  "job_status (s\<lparr>jm_active_measure_jobs := a\<rparr>) = job_status s"
  "job_status (s\<lparr>jm_worker := w\<rparr>) = job_status s"
  "job_status (s\<lparr>jm_monitors := m\<rparr>) = job_status s"
  by (simp_all add: job_status_def fun_eq_iff)

lemma job_type_cong [simp]:
  "job_type (s\<lparr>jm_queue := q\<rparr>) = job_type s"
  "job_type (s\<lparr>jm_running := r\<rparr>) = job_type s"
  "job_type (s\<lparr>jm_next_id := k\<rparr>) = job_type s"
  "job_type (s\<lparr>jm_active_measure_jobs := a\<rparr>) = job_type s"
  "job_type (s\<lparr>jm_worker := w\<rparr>) = job_type s"
  "job_type (s\<lparr>jm_monitors := m\<rparr>) = job_type s"
  by (simp_all add: job_type_def fun_eq_iff)

lemma lookup_status:
  "map_of (jm_jobs s) jid = Some j \<Longrightarrow>
   job_status s jid = Some (ji_status j) \<and> job_type s jid = Some (ji_type j)"
  by (simp add: job_status_def job_type_def)

lemma job_status_None: "job_status s jid = None \<longleftrightarrow> map_of (jm_jobs s) jid = None"
  by (simp add: job_status_def)

lemma ids_inv_same_dom:
  "ids_inv n s \<Longrightarrow> dom (map_of (jm_jobs s')) \<subseteq> dom (map_of (jm_jobs s)) \<Longrightarrow>
   jm_next_id s' = jm_next_id s \<Longrightarrow> ids_inv n s'"
  by (auto simp: ids_inv_def intro: job_ids.issued_subset)

subsection \<open>Preservation\<close>

lemma submit_job_alt:
  assumes "ids_inv n s"
  shows "submit_job ms now ty params s =
    (let jid = job_id_string ms (jm_next_id s) in
     (jid, (put_job jid \<lparr>ji_id = jid, ji_type = ty, ji_params = params, ji_status = ''queued'',
         ji_result = JNull, ji_error = [], ji_created_at = now, ji_started_at = 0, ji_finished_at = 0\<rparr> s)
       \<lparr>jm_next_id := jm_next_id s + 1, jm_queue := jm_queue s @ [jid]\<rparr>))"
    and "job_status s (job_id_string ms (jm_next_id s)) = None"
    and "job_type s (job_id_string ms (jm_next_id s)) = None"
proof -
  have "map_of (jm_jobs s) (job_id_string ms (jm_next_id s)) = None"
    using assms job_ids.fresh by (auto simp: ids_inv_def domIff)
  then show "submit_job ms now ty params s =
    (let jid = job_id_string ms (jm_next_id s) in
     (jid, (put_job jid \<lparr>ji_id = jid, ji_type = ty, ji_params = params, ji_status = ''queued'',
         ji_result = JNull, ji_error = [], ji_created_at = now, ji_started_at = 0, ji_finished_at = 0\<rparr> s)
       \<lparr>jm_next_id := jm_next_id s + 1, jm_queue := jm_queue s @ [jid]\<rparr>))"
    and "job_status s (job_id_string ms (jm_next_id s)) = None"
    and "job_type s (job_id_string ms (jm_next_id s)) = None"
    by (simp_all add: submit_job_def make_job_id_def put_job_def Let_def job_status_def job_type_def)
qed

lemma job_inv_submit:
  assumes "job_inv n s" and "Suc n < 2 ^ 64 - 1"
  shows "job_inv (Suc n) (snd (submit_job ms now ty params s))"
proof -
  let ?jid = "job_id_string ms (jm_next_id s)"
  have ids: "ids_inv n s" using assms(1) by (simp add: job_inv_def)
  note sub = submit_job_alt [OF ids, of ms]
  have "Suc (unat (jm_next_id s)) < 2 ^ 64"
    using ids assms(2) by (auto simp: ids_inv_def)
  then have "ids_inv (Suc n) (snd (submit_job ms now ty params s))"
    using ids unat_inc [of "jm_next_id s"]
    by (auto simp: sub(1) ids_inv_def Let_def intro: job_ids.issued_next)
  moreover have "queue_inv (snd (submit_job ms now ty params s))"
    using assms(1) sub(2) by (auto simp: sub(1) Let_def job_inv_def queue_inv_def)
  moreover have "monitor_inv (snd (submit_job ms now ty params s))"
    using assms(1) sub(2) by (auto simp: sub(1) Let_def job_inv_def monitor_inv_def live_def)
  moreover have "worker_inv (snd (submit_job ms now ty params s))"
    using assms(1) sub(2,3)
    by (auto simp: sub(1) Let_def job_inv_def worker_inv_def live_def owned_def split: worker_pc.splits)
  moreover have "exclusion_inv (snd (submit_job ms now ty params s))"
    using assms(1) sub(2,3)
    by (auto simp: sub(1) Let_def job_inv_def worker_inv_def live_def owned_def exclusion_inv_def
        split: worker_pc.splits)
  ultimately show ?thesis by (simp add: job_inv_def)
qed

definition peek_ok :: "job_manager \<Rightarrow> string \<Rightarrow> bool" where
  "peek_ok s jid \<longleftrightarrow> job_type s jid \<noteq> Some ''measure'' \<and>
     (job_status s jid = Some ''queued'' \<and> jm_queue s \<noteq> [] \<and> hd (jm_queue s) = jid \<or>
      job_status s jid = Some ''canceled'')"

lemma worker_inv_frame:
  assumes "worker_inv s" and "jm_worker s' = jm_worker s"
    and "\<And>i t. job_type s i = Some t \<Longrightarrow> job_type s' i = Some t"
    and "\<And>i. owned s i \<Longrightarrow> owned s' i"
    and "\<And>i. owned s i \<Longrightarrow> i \<in> jm_active_measure_jobs s \<Longrightarrow> i \<in> jm_active_measure_jobs s'"
    and "\<And>i. peek_ok s i \<Longrightarrow> peek_ok s' i"
  shows "worker_inv s'"
  using assms unfolding worker_inv_def peek_ok_def by (cases "jm_worker s") auto

lemma job_inv_cancel:
  assumes "job_inv n s"
  shows "job_inv n (snd (cancel_job now jid s))"
proof (cases "map_of (jm_jobs s) jid")
  case None
  then show ?thesis using assms by (simp add: cancel_job_def)
next
  case (Some j)
  note st = lookup_status [OF Some]
  have ids: "ids_inv n (snd (cancel_job now jid s))"
    using assms Some by - (rule ids_inv_same_dom [of n s]; auto simp: cancel_job_def job_inv_def)
  have "queue_inv (snd (cancel_job now jid s)) \<and> monitor_inv (snd (cancel_job now jid s))"
    using assms st Some by (auto simp: cancel_job_def job_inv_def queue_inv_def monitor_inv_def live_def)
  moreover have "worker_inv (snd (cancel_job now jid s))"
  proof (rule worker_inv_frame [of s])
    show "peek_ok (snd (cancel_job now jid s)) i" if "peek_ok s i" for i
      using that st Some by (cases "jm_queue s") (auto simp: cancel_job_def peek_ok_def)
  qed (use assms st Some in \<open>auto simp: cancel_job_def job_inv_def owned_def live_def\<close>)
  moreover have "exclusion_inv (snd (cancel_job now jid s))"
    using assms st Some by (auto simp: cancel_job_def job_inv_def exclusion_inv_def)
  ultimately show ?thesis using ids by (simp add: job_inv_def)
qed

lemma job_inv_stop: "job_inv n s \<Longrightarrow> job_inv n (stop s)"
  by (auto simp: stop_def job_inv_defs ids_inv_def live_def owned_def split: worker_pc.splits)

lemma job_inv_monitor:
  assumes "job_inv n s" and "jid \<in> set (jm_monitors s)"
  shows "job_inv n (monitor_done now jid r s)"
proof -
  from assms obtain j where j: "map_of (jm_jobs s) jid = Some j"
    by (fastforce simp: job_inv_def monitor_inv_def live_def job_status_def)
  note st = lookup_status [OF j]
  have run: "ji_status j = ''running'' \<or> ji_status j = ''canceling''"
    using assms st by (auto simp: job_inv_def monitor_inv_def live_def)
  have ids: "ids_inv n (monitor_done now jid r s)"
    using assms j by - (rule ids_inv_same_dom [of n s]; auto simp: monitor_done_def Let_def job_inv_def)
  have "queue_inv (monitor_done now jid r s) \<and> monitor_inv (monitor_done now jid r s)"
    using assms st j run by (auto simp: monitor_done_def Let_def job_inv_def queue_inv_def monitor_inv_def live_def)
  moreover have "worker_inv (monitor_done now jid r s)"
    using assms st j
    by - (rule worker_inv_frame [of s];
      auto simp: monitor_done_def Let_def job_inv_def monitor_inv_def owned_def live_def peek_ok_def)
  moreover have "exclusion_inv (monitor_done now jid r s)"
    using assms st j by (auto simp: monitor_done_def Let_def job_inv_def exclusion_inv_def)
  ultimately show ?thesis using ids by (simp add: job_inv_def)
qed

text \<open>A step of the worker that only moves its program counter.\<close>

lemma job_inv_move:
  assumes "job_inv n s" and "worker_inv (s\<lparr>jm_worker := w\<rparr>)"
    and "\<And>jid. executing w = Some jid \<Longrightarrow> executing (jm_worker s) = Some jid"
  shows "job_inv n (s\<lparr>jm_worker := w\<rparr>)"
  using assms by (auto simp: job_inv_def ids_inv_def queue_inv_def monitor_inv_def exclusion_inv_def live_def)

lemma job_inv_pop:
  assumes "job_inv n s" and "peek_ok s jid \<or> (jm_queue s \<noteq> [] \<and> hd (jm_queue s) = jid)"
    and "job_type s jid = Some ''measure'' \<or> jm_active_measure_jobs s = {} \<or> \<not> jm_running s"
  shows "job_inv n (pop_and_start now jid s)"
proof (cases "jm_queue s")
  case Nil
  then show ?thesis
    using assms(1) by (simp add: pop_and_start_def) (rule job_inv_move; simp add: worker_inv_def)
next
  case (Cons q qs)
  have "job_status s jid = Some ''queued'' \<or> job_status s jid = Some ''canceled''"
    using assms(1,2) Cons by (auto simp: peek_ok_def job_inv_def queue_inv_def)
  then obtain j where j: "map_of (jm_jobs s) jid = Some j"
    and st: "ji_status j = ''queued'' \<or> ji_status j = ''canceled''"
    by (auto simp: job_status_def)
  note ty = lookup_status [OF j]
  have "(q = jid \<or> job_status s jid = Some ''canceled'')"
    using assms(2) Cons by (auto simp: peek_ok_def)
  then have out: "jid \<notin> set qs"
    using assms(1) Cons by (auto simp: job_inv_def queue_inv_def)
  have mon: "jid \<notin> set (jm_monitors s)"
    using assms(1) ty st by (auto simp: job_inv_def monitor_inv_def live_def)
  have p: "pop_and_start now jid s =
      (put_job jid (j\<lparr>ji_status := ''running'', ji_started_at := now\<rparr>) s)\<lparr>jm_queue := qs, jm_worker := Starting jid\<rparr>"
    by (simp add: pop_and_start_def Cons j)
  have "ids_inv n (pop_and_start now jid s)"
    using assms(1) j by - (rule ids_inv_same_dom [of n s]; auto simp: p job_inv_def)
  moreover have "queue_inv (pop_and_start now jid s)"
    using assms(1) Cons out by (auto simp: p job_inv_def queue_inv_def)
  moreover have "monitor_inv (pop_and_start now jid s)"
    using assms(1) ty by (auto simp: p job_inv_def monitor_inv_def live_def)
  moreover have "worker_inv (pop_and_start now jid s)"
    using mon by (simp add: p worker_inv_def owned_def live_def)
  moreover have "exclusion_inv (pop_and_start now jid s)"
    using assms(3) ty by (auto simp: p exclusion_inv_def)
  ultimately show ?thesis by (simp add: job_inv_def)
qed

lemma job_inv_at_wait:
  assumes "job_inv n s" and "at_wait_step now s = Some s'"
  shows "job_inv n s'"
proof (cases "jm_queue s")
  case Nil
  then have "s' = s\<lparr>jm_worker := Exited\<rparr>"
    using assms(2) by (auto simp: at_wait_step_def split: if_splits)
  then show ?thesis
    using assms(1) by (simp, intro job_inv_move) (simp_all add: worker_inv_def)
next
  case (Cons jid qs)
  have "job_status s jid = Some ''queued''"
    using assms(1) Cons by (auto simp: job_inv_def queue_inv_def)
  then obtain j where j: "map_of (jm_jobs s) jid = Some j" "ji_status j = ''queued''"
    by (auto simp: job_status_def)
  note st = lookup_status [OF j(1)]
  show ?thesis
  proof (cases "ji_type j \<noteq> ''measure'' \<and> jm_active_measure_jobs s \<noteq> {} \<and> jm_running s")
    case True
    then have "s' = s\<lparr>jm_worker := WaitMeasure jid\<rparr>"
      using assms(2) Cons j by (simp add: at_wait_step_def)
    then show ?thesis
      using assms(1) True Cons st j(2) by (simp, intro job_inv_move) (simp_all add: worker_inv_def)
  next
    case False
    then have "s' = pop_and_start now jid s"
      using assms(2) Cons j by (auto simp: at_wait_step_def)
    then show ?thesis
      using job_inv_pop [OF assms(1)] False Cons st by auto
  qed
qed

lemma job_inv_dispatch:
  assumes "job_inv n s" and "jm_worker s = Starting jid" and "map_of (jm_jobs s) jid = Some j"
  shows "job_inv n (s\<lparr>jm_worker := dispatch_job L jid j\<rparr>)"
proof (rule job_inv_move [OF assms(1)])
  have "owned (s\<lparr>jm_worker := w\<rparr>) jid" for w
    using assms(1,2) by (simp add: job_inv_def worker_inv_def owned_def live_def)
  then show "worker_inv (s\<lparr>jm_worker := dispatch_job L jid j\<rparr>)"
    using lookup_status [OF assms(3)]
    by (auto simp: dispatch_job_def worker_inv_def split: sum.split)
  show "executing (jm_worker s) = Some i" if "executing (dispatch_job L jid j) = Some i" for i
    using that assms(2) by (auto simp: dispatch_job_def split: if_splits sum.splits)
qed

lemma job_inv_sleep:
  assumes "job_inv n s" and "jm_worker s = Sleeping jid info ms slept"
  shows "job_inv n (s\<lparr>jm_worker := sleep_round jid info ms slept s\<rparr>)"
proof (rule job_inv_move [OF assms(1)])
  have "owned (s\<lparr>jm_worker := w\<rparr>) jid \<and> job_type s jid = Some (ji_type info) \<and> ji_type info = ''sleep''" for w
    using assms by (simp add: job_inv_def worker_inv_def owned_def live_def)
  then show "worker_inv (s\<lparr>jm_worker := sleep_round jid info ms slept s\<rparr>)"
    by (auto simp: sleep_round_def worker_inv_def)
  show "executing (jm_worker s) = Some i" if "executing (sleep_round jid info ms slept s) = Some i" for i
    using that assms(2) by (auto simp: sleep_round_def split: if_splits)
qed

lemma job_inv_script:
  assumes "job_inv n s" and "jm_worker s = InScript jid info"
  shows "job_inv n (s\<lparr>jm_active_measure_jobs := insert jid (jm_active_measure_jobs s),
      jm_worker := Spawning jid info\<rparr>)"
  using assms
  by (auto simp: job_inv_defs ids_inv_def owned_def live_def)

lemma job_inv_spawn:
  assumes "job_inv n s" and "jm_worker s = Spawning jid info"
  shows "job_inv n (s\<lparr>jm_monitors := jid # jm_monitors s, jm_worker := Finishing jid info (Inr r)\<rparr>)"
  using assms
  by (auto simp: job_inv_defs ids_inv_def owned_def live_def)

lemma job_inv_finish:
  assumes "job_inv n s" and "jm_worker s = Finishing jid info out"
  shows "job_inv n ((finish_job now jid info out s)\<lparr>jm_worker := AtWait\<rparr>)"
proof -
  have ty: "job_type s jid = Some (ji_type info)"
    and own: "ji_type info = ''measure'' \<and> (\<exists>r. out = Inr r) \<or> owned s jid"
    using assms by (auto simp: job_inv_def worker_inv_def)
  from ty obtain j where j: "map_of (jm_jobs s) jid = Some j" by (auto simp: job_type_def)
  note st = lookup_status [OF j]
  let ?s = "(finish_job now jid info out s)\<lparr>jm_worker := AtWait\<rparr>"
  have "ids_inv n ?s"
    using assms(1) j
    by - (rule ids_inv_same_dom [of n s]; auto simp: finish_job_def job_inv_def split: sum.split)
  moreover have "queue_inv ?s"
    using assms(1) own st j
    by (auto simp: finish_job_def job_inv_def queue_inv_def owned_def live_def split: sum.split)
  moreover have "monitor_inv ?s"
    using assms(1) own st j
    by (auto simp: finish_job_def job_inv_def monitor_inv_def owned_def live_def split: sum.split)
  ultimately show ?thesis by (simp add: job_inv_def worker_inv_def exclusion_inv_def)
qed

lemma job_inv_worker:
  assumes "job_inv n s" and "worker_step L inp s = Some s'"
  shows "job_inv n s'"
proof (cases "jm_worker s")
  case AtWait
  then show ?thesis using assms job_inv_at_wait by (simp add: worker_step_def)
next
  case (WaitMeasure jid)
  then have "peek_ok s jid" using assms(1) by (simp add: job_inv_def worker_inv_def peek_ok_def)
  then show ?thesis
    using job_inv_pop [OF assms(1), of jid] assms(2) WaitMeasure
    by (auto simp: worker_step_def split: if_splits)
next
  case (Starting jid)
  then have "\<exists>j. map_of (jm_jobs s) jid = Some j"
    using assms(1) by (auto simp: job_inv_def worker_inv_def owned_def live_def job_status_def)
  then show ?thesis
    using assms job_inv_dispatch Starting by (auto simp: worker_step_def)
next
  case (Sleeping jid info ms slept)
  then show ?thesis using assms job_inv_sleep by (auto simp: worker_step_def)
next
  case (InScript jid info)
  have "job_inv n (s\<lparr>jm_worker := Finishing jid info (Inl e)\<rparr>)" for e
    using assms(1) InScript
    by (intro job_inv_move) (simp_all add: job_inv_def worker_inv_def owned_def live_def)
  then show ?thesis
    using assms InScript job_inv_script by (auto simp: worker_step_def split: option.splits)
next
  case (Spawning jid info)
  have "job_inv n (s\<lparr>jm_worker := Finishing jid info (Inl e)\<rparr>)" for e
    using assms(1) Spawning
    by (intro job_inv_move) (simp_all add: job_inv_def worker_inv_def owned_def live_def)
  then show ?thesis
    using assms Spawning job_inv_spawn by (auto simp: worker_step_def split: option.splits)
next
  case (Finishing jid info out)
  then show ?thesis using assms job_inv_finish by (auto simp: worker_step_def)
qed (use assms in \<open>auto simp: worker_step_def\<close>)

lemma job_reachable_inv: "job_reachable L n s \<Longrightarrow> n < 2 ^ 64 - 1 \<Longrightarrow> job_inv n s"
proof (induction rule: job_reachable.induct)
  case start
  show ?case by (simp add: job_inv_defs ids_inv_def issued_def new_job_manager_def)
next
  case (step n s e s')
  show ?case
  proof (cases e)
    case (Submit ms now ty params)
    then show ?thesis using step job_inv_submit by auto
  next
    case (MonitorDone now jid r)
    then show ?thesis using step job_inv_monitor by (auto split: if_splits)
  qed (use step job_inv_cancel job_inv_stop job_inv_worker in auto)
qed

section \<open>Properties\<close>

text \<open>A step of the worker changes at most the job it peeked or executes.\<close>

lemma worker_step_frame:
  assumes "job_inv n s" and "worker_step L inp s = Some s'" and "map_of (jm_jobs s) jid = Some j"
    and "ji_status j = ''completed'' \<or> ji_status j = ''failed''"
  shows "map_of (jm_jobs s') jid = Some j"
proof -
  note st = lookup_status [OF assms(3)]
  have nq: "jid \<notin> set (jm_queue s)" and no: "\<not> owned s jid" and np: "\<not> peek_ok s jid"
    using assms(1,4) st by (auto simp: job_inv_def queue_inv_def owned_def live_def peek_ok_def)
  have pop: "map_of (jm_jobs (pop_and_start now i s)) jid = Some j" if "i \<noteq> jid" for now i
    using that assms(3) by (auto simp: pop_and_start_def split: list.split option.split)
  have w: "worker_inv s" using assms(1) by (simp add: job_inv_def)
  show ?thesis
  proof (cases "jm_worker s")
    case AtWait
    then show ?thesis
      using assms(2,3) nq pop
      by (auto simp: worker_step_def at_wait_step_def split: list.splits if_splits option.splits)
  next
    case (WaitMeasure i)
    then have "i \<noteq> jid" using w np by (auto simp: worker_inv_def peek_ok_def)
    then show ?thesis
      using assms(2) pop WaitMeasure by (auto simp: worker_step_def split: if_splits)
  next
    case (Finishing i info out)
    then have "i \<noteq> jid \<or> ji_type info = ''measure'' \<and> (\<exists>r. out = Inr r)"
      using w no by (auto simp: worker_inv_def)
    then show ?thesis
      using assms(2,3) Finishing
      by (auto simp: worker_step_def finish_job_def split: option.splits sum.splits)
  qed (use assms(2,3) in \<open>auto simp: worker_step_def split: option.splits\<close>)
qed

text \<open>C4: Completed and failed are final. Whatever clients, the worker and the monitor threads do next,
  in any interleaving of any length (fewer than \<open>2 ^ 64 - 1\<close> submissions), a job that has completed
  or failed keeps its whole record: no job is run twice or finished twice, and no late cancellation
  or monitor changes its status, result or error.\<close>

theorem finished_job_is_final:
  assumes "job_reachable L n s" and "n < 2 ^ 64 - 1" and "job_step L e s = Some s'"
    and "get_job_info jid s = Some j"
    and "ji_status j = ''completed'' \<or> ji_status j = ''failed''"
  shows "get_job_info jid s' = Some j"
proof -
  have inv: "job_inv n s" using job_reachable_inv assms(1,2) by blast
  have j: "map_of (jm_jobs s) jid = Some j" using assms(4) by (simp add: get_job_info_def)
  note st = lookup_status [OF j]
  show ?thesis
  proof (cases e)
    case (Submit ms now ty params)
    have "ids_inv n s" using inv by (simp add: job_inv_def)
    then show ?thesis
      using assms(3) Submit j st submit_job_alt [of n s ms]
      by (auto simp: get_job_info_def Let_def)
  next
    case (Cancel now i)
    then show ?thesis
      using assms(3,5) j by (auto simp: get_job_info_def cancel_job_def split: option.splits)
  next
    case Stop
    then show ?thesis using assms(3) j by (auto simp: get_job_info_def stop_def)
  next
    case (Worker inp)
    then show ?thesis using assms(3,5) worker_step_frame [OF inv _ j] by (simp add: get_job_info_def)
  next
    case (MonitorDone now i r)
    then have "i \<in> set (jm_monitors s)" and s': "s' = monitor_done now i r s"
      using assms(3) by (auto split: if_splits)
    then have "i \<noteq> jid"
      using inv st assms(5) by (auto simp: job_inv_def monitor_inv_def live_def)
    then show ?thesis
      using j by (auto simp: s' get_job_info_def monitor_done_def Let_def split: option.splits)
  qed
qed

text \<open>A job that is not a measure job executes only when no measure job is active. (The code makes no exception for
  \<^verbatim>\<open>status\<close> and \<^verbatim>\<open>list\<close> jobs, which \<^verbatim>\<open>docs/JOB_SCHEDULING.md\<close> says do not wait.)\<close>

lemma non_measure_exclusion:
  assumes "job_reachable L n s" and "n < 2 ^ 64 - 1" and "jm_running s"
    and "executing (jm_worker s) = Some jid" and "map_option ji_type (get_job_info jid s) \<noteq> Some ''measure''"
  shows "jm_active_measure_jobs s = {} \<and> jm_monitors s = []"
proof -
  have inv: "job_inv n s" using job_reachable_inv assms(1,2) by blast
  then have "jm_active_measure_jobs s = {}"
    using assms(3-5) by (auto simp: job_inv_def exclusion_inv_def get_job_info_def job_type_def)
  then show ?thesis
    using inv by (cases "jm_monitors s") (auto simp: job_inv_def monitor_inv_def)
qed

lemma status_job_waits:
  assumes "jm_worker s = AtWait" and "jm_queue s = jid # qs" and "get_job_info jid s = Some j"
    and "ji_type j \<in> {''status'', ''list''}" and "jm_active_measure_jobs s \<noteq> {}" and "jm_running s"
  shows "worker_step L inp s = Some (s\<lparr>jm_worker := WaitMeasure jid\<rparr>)"
  using assms by (auto simp: worker_step_def at_wait_step_def get_job_info_def)

text \<open>C8: While the manager runs, a job of a type for which the documentation's table says so (any type but \<^verbatim>\<open>measure\<close>,
  \<^verbatim>\<open>status\<close> and \<^verbatim>\<open>list\<close>) executes only when no measure job is
  active and no monitor thread runs, during the whole execution and under every interleaving.\<close>

theorem measure_exclusion:
  assumes "job_reachable L n s" and "n < 2 ^ 64 - 1" and "jm_running s"
    and "executing (jm_worker s) = Some jid" and "get_job_info jid s = Some j"
    and "ji_type j \<notin> {''measure'', ''status'', ''list''}"
  shows "jm_active_measure_jobs s = {} \<and> jm_monitors s = []"
  using non_measure_exclusion [OF assms(1-4)] assms(5,6) by simp

text \<open>\<^verbatim>\<open>cancel_job\<close> succeeds exactly for a queued or running job; a queued one leaves the queue
  for good and is canceled, a running one is marked for the worker, anything else leaves the manager
  as it was; no other job is touched.\<close>

theorem cancel_job_contract:
  assumes "job_reachable L n s" and "n < 2 ^ 64 - 1" and "cancel_job now jid s = (ok, s')"
  shows "(ok \<longleftrightarrow> (\<exists>j. get_job_info jid s = Some j \<and> (ji_status j = ''queued'' \<or> ji_status j = ''running''))) \<and>
    (\<forall>j. get_job_info jid s = Some j \<longrightarrow> ji_status j = ''queued'' \<longrightarrow>
       jid \<notin> set (jm_queue s') \<and> set (jm_queue s') = set (jm_queue s) - {jid} \<and>
       get_job_info jid s' = Some (j\<lparr>ji_status := ''canceled'', ji_finished_at := now, ji_error := ''canceled''\<rparr>)) \<and>
    (\<forall>j. get_job_info jid s = Some j \<longrightarrow> ji_status j = ''running'' \<longrightarrow>
       jm_queue s' = jm_queue s \<and> get_job_info jid s' = Some (j\<lparr>ji_status := ''canceling''\<rparr>)) \<and>
    (\<not> ok \<longrightarrow> s' = s) \<and>
    (\<forall>i. i \<noteq> jid \<longrightarrow> get_job_info i s' = get_job_info i s)"
proof -
  have "distinct (jm_queue s)"
    using job_reachable_inv [OF assms(1,2)] by (simp add: job_inv_def queue_inv_def)
  then show ?thesis
    using assms(3) by (auto simp: cancel_job_def get_job_info_def split: option.splits if_splits)
qed

subsection \<open>Sleep jobs finish\<close>

lemma job_run_append:
  "job_run L (es @ fs) s = Option.bind (job_run L es s) (job_run L fs)"
  by (induction es arbitrary: s) (auto split: bind_split)

definition slept_result :: "int \<Rightarrow> json" where
  "slept_result ms = json_object [(''message'', JStr ''slept''), (''duration_ms'', JInt ms)]"

lemma sleeping_run:
  assumes "\<not> cancel_requested jid s" and "0 \<le> slept" and "ms < 2 ^ 31 - 20"
  shows "\<exists>k. job_run L (replicate k (Worker inp)) (s\<lparr>jm_worker := Sleeping jid info ms slept\<rparr>) =
    Some (s\<lparr>jm_worker := Finishing jid info (Inr (slept_result ms))\<rparr>)"
  using assms(2)
proof (induction "nat (ms - slept)" arbitrary: slept rule: less_induct)
  case less
  let ?s = "s\<lparr>jm_worker := Sleeping jid info ms slept\<rparr>"
  have nc: "\<not> cancel_requested jid ?s" using assms(1) by (simp add: cancel_requested_def)
  show ?case
  proof (cases "slept < ms")
    case True
    then have step: "job_step L (Worker inp) ?s = Some (s\<lparr>jm_worker := Sleeping jid info ms (slept + 20)\<rparr>)"
      using nc assms(3) by (simp add: worker_step_def sleep_round_def)
    obtain k where "job_run L (replicate k (Worker inp)) (s\<lparr>jm_worker := Sleeping jid info ms (slept + 20)\<rparr>) =
        Some (s\<lparr>jm_worker := Finishing jid info (Inr (slept_result ms))\<rparr>)"
      using less.hyps [of "slept + 20"] less.prems True by auto
    then show ?thesis using step by (intro exI [of _ "Suc k"]) simp
  next
    case False
    then show ?thesis
      by (intro exI [of _ 1]) (simp add: worker_step_def sleep_round_def slept_result_def)
  qed
qed

text \<open>C26: A sleep job at the front of the queue runs to its end: with no measure job active and no
  cancellation, the worker alone takes it through finitely many steps to \<^verbatim>\<open>completed\<close>, its result
  can be fetched, and the worker is back at the queue, which has lost just that job. (The duration
  is below \<open>2 ^ 31 - 20\<close>, so that the loop's 32-bit sum stays defined.)\<close>

theorem sleep_job_completes:
  assumes "job_reachable L n s" and "n < 2 ^ 64 - 1"
    and "jm_worker s = AtWait" and "jm_queue s = jid # qs" and "jm_active_measure_jobs s = {}"
    and "get_job_info jid s = Some j" and "ji_type j = ''sleep''"
    and "sleep_duration L (ji_params j) < 2 ^ 31 - 20"
  shows "\<exists>k s'. job_run L (replicate k (Worker inp)) s = Some s' \<and>
    get_job_result jid s' = Some (json_object [(''message'', JStr ''slept''),
      (''duration_ms'', JInt (sleep_duration L (ji_params j)))]) \<and>
    jm_queue s' = qs \<and> jm_worker s' = AtWait"
proof -
  let ?j = "j\<lparr>ji_status := ''running'', ji_started_at := wi_now inp\<rparr>"
  let ?ms = "sleep_duration L (ji_params j)"
  define s1 where "s1 = (put_job jid ?j s)\<lparr>jm_queue := qs\<rparr>"
  have j: "map_of (jm_jobs s) jid = Some j" using assms(6) by (simp add: get_job_info_def)
  have start: "job_run L [Worker inp, Worker inp] s = Some (s1\<lparr>jm_worker := Sleeping jid ?j ?ms 0\<rparr>)"
    using assms(3-5,7) j
    by (simp add: worker_step_def at_wait_step_def pop_and_start_def dispatch_job_def s1_def)
  have "\<not> cancel_requested jid s1" by (simp add: s1_def cancel_requested_def)
  then obtain k where sleep: "job_run L (replicate k (Worker inp)) (s1\<lparr>jm_worker := Sleeping jid ?j ?ms 0\<rparr>) =
      Some (s1\<lparr>jm_worker := Finishing jid ?j (Inr (slept_result ?ms))\<rparr>)"
    using sleeping_run [of jid s1 0 ?ms L inp ?j] assms(8) by blast
  define s2 where "s2 = (put_job jid (?j\<lparr>ji_status := ''completed'', ji_result := slept_result ?ms,
      ji_finished_at := wi_now inp\<rparr>) s1)\<lparr>jm_worker := AtWait\<rparr>"
  have fin: "job_run L [Worker inp] (s1\<lparr>jm_worker := Finishing jid ?j (Inr (slept_result ?ms))\<rparr>) = Some s2"
    using assms(7) by (simp add: worker_step_def finish_job_def s1_def s2_def put_job_def)
  have "job_run L (([Worker inp, Worker inp] @ replicate k (Worker inp)) @ [Worker inp]) s = Some s2"
    unfolding job_run_append start using sleep fin by simp
  then have "job_run L (replicate (Suc (Suc (Suc k))) (Worker inp)) s = Some s2"
    by (simp add: replicate_append_same)
  moreover have "get_job_result jid s2 = Some (slept_result ?ms) \<and> jm_queue s2 = qs \<and> jm_worker s2 = AtWait"
    by (simp add: s2_def s1_def get_job_result_def)
  ultimately show ?thesis unfolding slept_result_def by blast
qed

subsection \<open>Queued jobs and the queue\<close>

text \<open>Histories in which no client cancels the job the worker has peeked while it waits for the
  measure jobs.\<close>

fun cancels_peeked :: "job_event \<Rightarrow> job_manager \<Rightarrow> bool" where
  "cancels_peeked (Cancel now jid) s = (jm_worker s = WaitMeasure jid)"
| "cancels_peeked e s = False"

inductive quiet_reachable :: "json_lib \<Rightarrow> nat \<Rightarrow> job_manager \<Rightarrow> bool" for L where
  start: "quiet_reachable L 0 new_job_manager"
| step: "quiet_reachable L n s \<Longrightarrow> job_step L e s = Some s' \<Longrightarrow> \<not> cancels_peeked e s \<Longrightarrow>
    quiet_reachable L (if is_submit e then Suc n else n) s'"

lemma quiet_job_reachable: "quiet_reachable L n s \<Longrightarrow> job_reachable L n s"
  by (induction rule: quiet_reachable.induct) (rule job_reachable.start, rule job_reachable.step)

text \<open>Nothing marked queued is outside the queue, and a peeked job is still its front.\<close>

definition none_lost :: "job_manager \<Rightarrow> bool" where
  "none_lost s \<longleftrightarrow> (\<forall>jid. job_status s jid = Some ''queued'' \<longrightarrow> jid \<in> set (jm_queue s)) \<and>
     (\<forall>jid. jm_worker s = WaitMeasure jid \<longrightarrow> jm_queue s \<noteq> [] \<and> hd (jm_queue s) = jid)"

lemma none_lost_pop:
  assumes "none_lost s" and "jm_queue s \<noteq> []" and "hd (jm_queue s) = jid"
  shows "none_lost (pop_and_start now jid s)"
  using assms by (cases "jm_queue s") (auto simp: pop_and_start_def none_lost_def split: option.split)

lemma none_lost_worker:
  assumes "none_lost s" and "worker_step L inp s = Some s'"
  shows "none_lost s'"
proof (cases "jm_worker s")
  case AtWait
  then show ?thesis
    using assms none_lost_pop [OF assms(1)]
    by (auto simp: worker_step_def at_wait_step_def split: list.splits option.splits if_splits)
      (auto simp: none_lost_def)
next
  case (WaitMeasure jid)
  then show ?thesis
    using assms none_lost_pop [OF assms(1)]
    by (auto simp: worker_step_def none_lost_def split: if_splits)
next
  case (Starting jid)
  then show ?thesis
    using assms by (auto simp: worker_step_def none_lost_def dispatch_job_def split: option.splits if_splits sum.splits)
next
  case (Sleeping jid info ms slept)
  then show ?thesis
    using assms by (auto simp: worker_step_def none_lost_def sleep_round_def split: if_splits)
next
  case (Finishing jid info out)
  then show ?thesis
    using assms by (auto simp: worker_step_def none_lost_def finish_job_def split: option.splits sum.splits if_splits)
qed (use assms in \<open>auto simp: worker_step_def none_lost_def split: option.splits\<close>)

lemma none_lost_step:
  assumes "job_inv n s" and "none_lost s" and "job_step L e s = Some s'" and "\<not> cancels_peeked e s"
  shows "none_lost s'"
proof (cases e)
  case (Submit ms now ty params)
  have "ids_inv n s" using assms(1) by (simp add: job_inv_def)
  then show ?thesis
    using assms(2,3) Submit submit_job_alt [of n s ms]
    by (auto simp: none_lost_def Let_def split: if_splits)
next
  case (Cancel now jid)
  then show ?thesis
    using assms(2-4) by (cases "jm_queue s") (auto simp: cancel_job_def none_lost_def split: option.splits if_splits)
next
  case Stop
  then show ?thesis using assms(2,3) by (auto simp: none_lost_def stop_def split: if_splits)
next
  case (Worker inp)
  then show ?thesis using assms(2,3) none_lost_worker by auto
next
  case (MonitorDone now jid r)
  then show ?thesis
    using assms(2,3) by (auto simp: none_lost_def monitor_done_def Let_def split: if_splits option.splits)
qed

text \<open>C27: As long as no client cancels the very job the worker peeked while it waits for measure jobs,
  the status \<^verbatim>\<open>queued\<close> and the queue agree: a job is marked queued exactly when it is in the queue,
  so no submitted job is lost.\<close>

theorem queued_iff_in_queue:
  assumes "quiet_reachable L n s" and "n < 2 ^ 64 - 1"
  shows "map_option ji_status (get_job_info jid s) = Some ''queued'' \<longleftrightarrow> jid \<in> set (jm_queue s)"
proof -
  have "none_lost s"
    using assms
  proof (induction rule: quiet_reachable.induct)
    case start
    show ?case by (simp add: none_lost_def new_job_manager_def job_status_def)
  next
    case (step n s e s')
    then have "n < 2 ^ 64 - 1" by (auto split: if_splits)
    then show ?case
      using step none_lost_step [OF job_reachable_inv [OF quiet_job_reachable [OF step(1)]]] by blast
  qed
  moreover have "queue_inv s"
    using job_reachable_inv [OF quiet_job_reachable [OF assms(1)] assms(2)] by (simp add: job_inv_def)
  ultimately show ?thesis
    by (auto simp: none_lost_def queue_inv_def get_job_info_def job_status_def)
qed

subsection \<open>The race\<close>

text \<open>
  A measure job is active, the worker has peeked a sleep job and waits; a client cancels that job
  and is told so; the measure job ends. The worker then pops whatever is at the front.
\<close>

definition plain_input :: worker_input where
  "plain_input = \<lparr>wi_now = 1, wi_script_error = None, wi_spawn_error = None\<rparr>"

definition no_sleep :: json where
  "no_sleep = JObj [(''duration_ms'', JInt 0)]"

definition race_prefix :: "job_event list" where
  "race_prefix =
     [Submit 0 0 ''measure'' (JObj [(''script_path'', JStr ''m.lua'')]), Worker plain_input,
      Worker plain_input, Worker plain_input, Worker plain_input, Worker plain_input,
      Submit 0 0 ''sleep'' no_sleep]"

lemma show_nat_small [simp]: "show_nat 0 = ''0''" "show_nat 2 = ''2''" "show_nat 3 = ''3''"
    "show_nat (Suc 0) = ''1''"
  by code_simp+

lemma int32_of_small [simp]: "int32_of 0 = 0"
  by (simp add: int32_of_def)

lemmas worker_run_simps = worker_step_def at_wait_step_def pop_and_start_def dispatch_job_def
  sleep_duration_def sleep_round_def finish_job_def put_job_def monitor_done_def Let_def
  submit_job_def make_job_id_def job_id_string_def cancel_job_def plain_input_def no_sleep_def

text \<open>The measure job, active, with its monitor.\<close>

definition measure_job :: job_info where
  "measure_job = \<lparr>ji_id = ''job-0-1'', ji_type = ''measure'',
     ji_params = JObj [(''script_path'', JStr ''m.lua'')], ji_status = ''running'', ji_result = JNull,
     ji_error = [], ji_created_at = 0, ji_started_at = 1, ji_finished_at = 0\<rparr>"

definition sleep_job :: "string \<Rightarrow> job_info" where
  "sleep_job jid = \<lparr>ji_id = jid, ji_type = ''sleep'', ji_params = no_sleep, ji_status = ''queued'',
     ji_result = JNull, ji_error = [], ji_created_at = 0, ji_started_at = 0, ji_finished_at = 0\<rparr>"

definition measuring :: job_manager where
  "measuring = \<lparr>jm_queue = [''job-0-2''], jm_jobs = [(''job-0-1'', measure_job), (''job-0-2'', sleep_job ''job-0-2'')],
     jm_next_id = 3, jm_running = True, jm_active_measure_jobs = {''job-0-1''}, jm_worker = AtWait,
     jm_monitors = [''job-0-1'']\<rparr>"

lemma race_prefix_run: "job_run L race_prefix new_job_manager = Some measuring"
  by (simp add: race_prefix_def new_job_manager_def worker_run_simps
      measuring_def measure_job_def sleep_job_def)

lemma measuring_reachable: "quiet_reachable L 2 measuring"
proof -
  have "quiet_reachable L (n + length (filter is_submit es)) s'"
    if "quiet_reachable L n s" and "job_run L es s = Some s'" and "\<forall>e \<in> set es. \<forall>s. \<not> cancels_peeked e s"
    for n s es s'
    using that
  proof (induction es arbitrary: n s)
    case (Cons e es)
    then obtain s1 where "job_step L e s = Some s1" and "job_run L es s1 = Some s'"
      by (auto split: bind_splits)
    then show ?case
      using Cons.IH [of "if is_submit e then Suc n else n" s1] Cons.prems quiet_reachable.step [of L n s e s1]
      by auto
  qed simp
  from this [OF quiet_reachable.start race_prefix_run] show ?thesis
    by (simp add: race_prefix_def numeral_2_eq_2)
qed

lemma job_reachable_run:
  "job_reachable L n s \<Longrightarrow> job_run L es s = Some s' \<Longrightarrow>
   job_reachable L (n + length (filter is_submit es)) s'"
proof (induction es arbitrary: n s)
  case (Cons e es)
  then obtain s1 where "job_step L e s = Some s1" and "job_run L es s1 = Some s'"
    by (auto split: bind_splits)
  then show ?case
    using Cons.IH [of "if is_submit e then Suc n else n" s1] Cons.prems job_reachable.step [of L n s e s1]
    by auto
qed simp

text \<open>The canceled job stays peeked until the worker wakes up.\<close>

fun is_worker :: "job_event \<Rightarrow> bool" where
  "is_worker (Worker _) = True"
| "is_worker _ = False"

lemma canceled_peek_step:
  assumes "job_inv n s" and "jm_worker s = WaitMeasure jid" and "job_status s jid = Some ''canceled''"
    and "job_step L e s = Some s'" and "\<not> is_worker e"
  shows "jm_worker s' = WaitMeasure jid \<and> job_status s' jid = Some ''canceled''"
proof (cases e)
  case (Submit ms now ty params)
  have "ids_inv n s" using assms(1) by (simp add: job_inv_def)
  then show ?thesis using submit_job_alt [of n s ms] assms(2-4) Submit by (auto simp: Let_def)
next
  case (Cancel now i)
  then show ?thesis using assms(2-4) by (auto simp: cancel_job_def job_status_def split: option.splits)
next
  case Stop
  then show ?thesis using assms(2-4) by (auto simp: stop_def)
next
  case (MonitorDone now i r)
  then have "i \<in> set (jm_monitors s)" "s' = monitor_done now i r s" using assms(4) by (auto split: if_splits)
  moreover from this have "i \<noteq> jid" using assms(1,3) by (auto simp: job_inv_def monitor_inv_def live_def)
  ultimately show ?thesis using assms(2,3) by (auto simp: monitor_done_def Let_def split: option.split)
qed (use assms(5) in auto)

lemma job_run_invariant:
  assumes "job_reachable L n s" and "n + length (filter is_submit es) < 2 ^ 64 - 1" and "P s" and "job_run L es s = Some s'"
    and "\<And>n s e s'. job_inv n s \<Longrightarrow> P s \<Longrightarrow> e \<in> set es \<Longrightarrow> job_step L e s = Some s' \<Longrightarrow> P s'"
  shows "P s'"
  using assms
proof (induction es arbitrary: n s)
  case (Cons e es)
  then obtain s1 where s1: "job_step L e s = Some s1" "job_run L es s1 = Some s'" by (auto split: bind_splits)
  let ?n = "if is_submit e then Suc n else n"
  have inv: "job_inv n s" using job_reachable_inv [OF Cons.prems(1)] Cons.prems(2) by simp
  have "job_reachable L ?n s1" using job_reachable.step [OF Cons.prems(1) s1(1)] .
  moreover have "?n + length (filter is_submit es) < 2 ^ 64 - 1" using Cons.prems(2) by (auto split: if_splits)
  moreover have "P s1" using Cons.prems(5) [OF inv Cons.prems(3) _ s1(1)] by simp
  ultimately show ?case using Cons.IH [OF _ _ _ s1(2)] Cons.prems(5) by (meson list.set_intros(2))
qed simp

text \<open>A lost job: its status says queued, but it is not in the queue and the worker does not have it.\<close>

definition lost :: "job_manager \<Rightarrow> string \<Rightarrow> bool" where
  "lost s q \<longleftrightarrow> job_status s q = Some ''queued'' \<and> q \<notin> set (jm_queue s) \<and> jm_worker s \<noteq> WaitMeasure q \<and>
     executing (jm_worker s) \<noteq> Some q"

lemma lost_pop:
  assumes "lost s q" and "i \<noteq> q"
  shows "lost (pop_and_start now i s) q"
  using assms by (auto simp: lost_def pop_and_start_def split: list.split option.split)

lemma lost_worker:
  assumes "lost s q" and "worker_step L inp s = Some s'"
  shows "lost s' q"
proof (cases "jm_worker s")
  case AtWait
  then show ?thesis
    using assms lost_pop [OF assms(1)]
    by (auto simp: worker_step_def at_wait_step_def split: list.splits if_splits option.splits) (auto simp: lost_def)
next
  case (WaitMeasure i)
  then have "i \<noteq> q" using assms(1) by (auto simp: lost_def)
  then show ?thesis using assms(2) WaitMeasure lost_pop [OF assms(1)] by (auto simp: worker_step_def split: if_splits)
next
  case (Finishing i info out)
  then have "i \<noteq> q" using assms(1) by (auto simp: lost_def)
  then show ?thesis
    using assms Finishing by (auto simp: worker_step_def finish_job_def lost_def split: option.splits sum.splits if_splits)
qed (use assms in \<open>auto simp: worker_step_def lost_def dispatch_job_def sleep_round_def split: option.splits sum.splits if_splits\<close>)

lemma lost_step:
  assumes "job_inv n s" and "lost s q" and "job_step L e s = Some s'" and "\<And>t. e \<noteq> Cancel t q"
  shows "lost s' q"
proof (cases e)
  case (Submit ms now ty params)
  have "ids_inv n s" using assms(1) by (simp add: job_inv_def)
  then show ?thesis using submit_job_alt [of n s ms] assms(2,3) Submit by (auto simp: Let_def lost_def)
next
  case (Cancel now i)
  then have "i \<noteq> q" using assms(4) by blast
  then show ?thesis
    using assms(2,3) Cancel by (auto simp: cancel_job_def lost_def split: option.splits if_splits dest: notin_set_remove1)
next
  case Stop
  then show ?thesis using assms(2,3) by (auto simp: stop_def lost_def split: if_splits)
next
  case (Worker inp)
  then show ?thesis using assms(2,3) lost_worker by simp
next
  case (MonitorDone now i r)
  then have "i \<in> set (jm_monitors s)" "s' = monitor_done now i r s" using assms(3) by (auto split: if_splits)
  moreover from this have "i \<noteq> q" using assms(1,2) by (auto simp: job_inv_def monitor_inv_def live_def lost_def)
  ultimately show ?thesis using assms(2) by (auto simp: monitor_done_def Let_def lost_def split: option.split)
qed

text \<open>C28: A defect. A client cancels the job the worker has peeked, while the worker waits for measure jobs, and is told that it is
  canceled. Whatever clients and monitor threads do until the worker wakes up: if the queue is then empty, the worker
  pops from an empty deque, which is undefined; otherwise it starts the canceled job, and pops another one, which nothing but its own
  cancellation ever touches again: its status stays \<^verbatim>\<open>queued\<close>, it is not in the queue and it never runs.\<close>

theorem cancel_race:
  assumes "job_reachable L n s" and "jm_worker s = WaitMeasure jid"
    and "get_job_info jid s = Some j" and "ji_status j = ''queued''" and "cancel_job now jid s = (ok, s1)"
    and "job_run L es s1 = Some s2" and "\<forall>e \<in> set es. \<not> is_worker e"
    and "jm_active_measure_jobs s2 = {} \<or> \<not> jm_running s2"
    and "n + length (filter is_submit es) < 2 ^ 64 - 1"
  shows "ok \<and> (\<exists>s3. worker_step L inp s2 = Some s3 \<and>
    (case jm_queue s2 of
       [] \<Rightarrow> jm_worker s3 = Undefined
     | q # qs \<Rightarrow> q \<noteq> jid \<and> jm_worker s3 = Starting jid \<and> job_status s3 jid = Some ''running'' \<and> jm_queue s3 = qs \<and>
         (\<forall>es' s4. job_run L es' s3 = Some s4 \<longrightarrow> n + length (filter is_submit (es @ es')) < 2 ^ 64 - 1 \<longrightarrow>
            (\<forall>t. Cancel t q \<notin> set es') \<longrightarrow>
            job_status s4 q = Some ''queued'' \<and> q \<notin> set (jm_queue s4) \<and> executing (jm_worker s4) \<noteq> Some q)))"
proof -
  let ?n = "n + length (filter is_submit es)"
  have c: "ok" "jm_worker s1 = WaitMeasure jid" "job_status s1 jid = Some ''canceled''"
    using assms(2-5) by (auto simp: cancel_job_def get_job_info_def)
  have r1: "job_reachable L n s1" using job_reachable.step [OF assms(1), of "Cancel now jid" s1] assms(5) by simp
  have p: "jm_worker s2 = WaitMeasure jid \<and> job_status s2 jid = Some ''canceled''"
    using job_run_invariant [OF r1 assms(9) _ assms(6), of "\<lambda>s. jm_worker s = WaitMeasure jid \<and> job_status s jid = Some ''canceled''"]
      canceled_peek_step assms(7) c(2,3) by blast
  have r2: "job_reachable L ?n s2" using job_reachable_run [OF r1 assms(6)] .
  have inv: "job_inv ?n s2" using job_reachable_inv [OF r2 assms(9)] .
  have step: "worker_step L inp s2 = Some (pop_and_start (wi_now inp) jid s2)" using p assms(8) by (simp add: worker_step_def)
  show ?thesis
  proof (cases "jm_queue s2")
    case Nil
    then show ?thesis using c(1) step by (simp add: pop_and_start_def)
  next
    case (Cons q qs)
    have q: "job_status s2 q = Some ''queued''" "q \<notin> set qs" "q \<noteq> jid"
      using inv p Cons by (auto simp: job_inv_def queue_inv_def)
    obtain i where i: "map_of (jm_jobs s2) jid = Some i" using p by (auto simp: job_status_def)
    define s3 where "s3 = pop_and_start (wi_now inp) jid s2"
    have s3: "jm_worker s3 = Starting jid" "job_status s3 jid = Some ''running''" "jm_queue s3 = qs" "lost s3 q"
      using Cons i q by (simp_all add: s3_def pop_and_start_def lost_def)
    have "job_reachable L ?n s3" using job_reachable.step [OF r2, of "Worker inp" s3] step by (simp add: s3_def)
    then have "lost s4 q" if "job_run L es' s3 = Some s4" "n + length (filter is_submit (es @ es')) < 2 ^ 64 - 1"
        "\<forall>t. Cancel t q \<notin> set es'" for es' s4
    proof (rule job_run_invariant [where P = "\<lambda>s. lost s q" and s' = s4])
      show "lost s'' q" if "job_inv m s'" "lost s' q" "e \<in> set es'" "job_step L e s' = Some s''" for m s' e s''
        using lost_step [OF that(1,2,4)] that(3) \<open>\<forall>t. Cancel t q \<notin> set es'\<close> by blast
    qed (use that s3(4) in \<open>simp_all add: add.assoc\<close>)
    then show ?thesis using c(1) step Cons q(3) s3(1-3) by (simp add: s3_def lost_def)
  qed
qed

section \<open>Witnesses\<close>

definition napped :: job_manager where
  "napped = \<lparr>jm_queue = [], jm_jobs = [(''job-0-1'', (sleep_job ''job-0-1'')\<lparr>ji_status := ''running'', ji_started_at := 1\<rparr>)],
     jm_next_id = 2, jm_running = True, jm_active_measure_jobs = {},
     jm_worker = Finishing ''job-0-1'' ((sleep_job ''job-0-1'')\<lparr>ji_status := ''running'', ji_started_at := 1\<rparr>)
       (Inr (slept_result 0)), jm_monitors = []\<rparr>"

definition one_queued :: job_manager where
  "one_queued = \<lparr>jm_queue = [''job-0-1''], jm_jobs = [(''job-0-1'', sleep_job ''job-0-1'')],
     jm_next_id = 2, jm_running = True, jm_active_measure_jobs = {}, jm_worker = AtWait, jm_monitors = []\<rparr>"

lemma one_queued_reachable: "job_reachable L 1 one_queued"
proof -
  have "job_run L [Submit 0 0 ''sleep'' no_sleep] new_job_manager = Some one_queued"
    by (simp add: new_job_manager_def worker_run_simps one_queued_def sleep_job_def)
  from job_reachable_run [OF job_reachable.start this] show ?thesis by simp
qed

lemma napped_reachable: "job_reachable L 1 napped"
proof -
  have "job_run L [Worker plain_input, Worker plain_input, Worker plain_input] one_queued = Some napped"
    by (simp add: worker_run_simps one_queued_def napped_def sleep_job_def slept_result_def)
  from job_reachable_run [OF one_queued_reachable this] show ?thesis by simp
qed

text \<open>The sleep job after its last section.\<close>

definition done_sleeping :: job_manager where
  "done_sleeping = (finish_job 1 ''job-0-1'' ((sleep_job ''job-0-1'')\<lparr>ji_status := ''running'', ji_started_at := 1\<rparr>)
     (Inr (slept_result 0)) napped)\<lparr>jm_worker := AtWait\<rparr>"

lemma done_sleeping_reachable: "job_reachable L 1 done_sleeping"
  using job_reachable_run [OF napped_reachable, of L "[Worker plain_input]" done_sleeping]
  by (simp add: worker_step_def napped_def done_sleeping_def plain_input_def)

theorem finished_job_is_final_witness:
  "map_option ji_status (get_job_info ''job-0-1'' (snd (cancel_job 2 ''job-0-1'' done_sleeping))) = Some ''completed''"
proof -
  obtain j where j: "get_job_info ''job-0-1'' done_sleeping = Some j" "ji_status j = ''completed''"
    by (simp add: get_job_info_def done_sleeping_def finish_job_def napped_def sleep_job_def put_job_def)
  show ?thesis
    using finished_job_is_final [OF done_sleeping_reachable [of "docs_lib []"], of "Cancel 2 ''job-0-1''"
        "snd (cancel_job 2 ''job-0-1'' done_sleeping)" "''job-0-1''" j] j
    by simp
qed

theorem measure_exclusion_witness: "jm_active_measure_jobs napped = {} \<and> jm_monitors napped = []"
  using measure_exclusion [OF napped_reachable [of "docs_lib []"], of "''job-0-1''"]
  by (auto simp: napped_def get_job_info_def sleep_job_def)

text \<open>A second sleep job is behind the peeked one; the worker loses it.\<close>

definition two_waiting :: job_manager where
  "two_waiting = measuring\<lparr>jm_queue := [''job-0-2'', ''job-0-3''],
     jm_jobs := [(''job-0-1'', measure_job), (''job-0-2'', sleep_job ''job-0-2''), (''job-0-3'', sleep_job ''job-0-3'')],
     jm_next_id := 4, jm_worker := WaitMeasure ''job-0-2''\<rparr>"

lemma two_waiting_reachable: "job_reachable L 3 two_waiting"
proof -
  have "job_run L (race_prefix @ [Submit 0 0 ''sleep'' no_sleep, Worker plain_input]) new_job_manager = Some two_waiting"
    unfolding job_run_append race_prefix_run
    by (simp add: worker_run_simps measuring_def two_waiting_def measure_job_def sleep_job_def)
  from job_reachable_run [OF job_reachable.start this] show ?thesis by (simp add: race_prefix_def numeral_3_eq_3)
qed

theorem cancel_race_witness:
  "\<exists>s2 s3. job_run (docs_lib []) [MonitorDone 1 ''job-0-1'' (JArr [])] (snd (cancel_job 1 ''job-0-2'' two_waiting)) = Some s2 \<and>
     worker_step (docs_lib []) plain_input s2 = Some s3 \<and> jm_worker s3 = Starting ''job-0-2'' \<and> jm_queue s3 = [] \<and>
     job_status s3 ''job-0-3'' = Some ''queued''"
proof -
  let ?s1 = "snd (cancel_job 1 ''job-0-2'' two_waiting)"
  define s2 where "s2 = monitor_done 1 ''job-0-1'' (JArr []) ?s1"
  have s1: "get_job_info ''job-0-2'' two_waiting = Some (sleep_job ''job-0-2'')" "jm_worker two_waiting = WaitMeasure ''job-0-2''"
    by (simp_all add: two_waiting_def get_job_info_def)
  have s2: "job_run (docs_lib []) [MonitorDone 1 ''job-0-1'' (JArr [])] ?s1 = Some s2" "jm_active_measure_jobs s2 = {}"
      "jm_queue s2 = [''job-0-3'']"
    by (simp_all add: s2_def monitor_done_def cancel_job_def two_waiting_def measuring_def measure_job_def sleep_job_def put_job_def Let_def)
  obtain s3 where s3: "worker_step (docs_lib []) plain_input s2 = Some s3" "jm_worker s3 = Starting ''job-0-2''" "jm_queue s3 = []"
      "\<forall>es' s4. job_run (docs_lib []) es' s3 = Some s4 \<longrightarrow> 3 + length (filter is_submit es') < 2 ^ 64 - 1 \<longrightarrow>
         (\<forall>t. Cancel t ''job-0-3'' \<notin> set es') \<longrightarrow> job_status s4 ''job-0-3'' = Some ''queued''"
    using cancel_race [OF two_waiting_reachable s1(2,1) _ prod.collapse [symmetric] s2(1), where inp = plain_input] s2(2,3)
    by (auto simp: sleep_job_def)
  from s3(4) [rule_format, of "[]" s3] have "job_status s3 ''job-0-3'' = Some ''queued''" by simp
  then show ?thesis using s2(1) s3(1-3) by blast
qed

theorem cancel_job_contract_witness:
  "fst (cancel_job 2 ''job-0-1'' one_queued) \<and> jm_queue (snd (cancel_job 2 ''job-0-1'' one_queued)) = []"
proof -
  have "get_job_info ''job-0-1'' one_queued = Some (sleep_job ''job-0-1'')" "set (jm_queue one_queued) = {''job-0-1''}"
    by (simp_all add: one_queued_def get_job_info_def)
  then show ?thesis
    using cancel_job_contract [OF one_queued_reachable [of "docs_lib []"] _ prod.collapse [symmetric], of 2 "''job-0-1''"]
    by (simp add: sleep_job_def)
qed

theorem sleep_job_completes_witness:
  "\<exists>k s'. job_run (docs_lib []) (replicate k (Worker plain_input)) one_queued = Some s' \<and>
     get_job_result ''job-0-1'' s' = Some (json_object [(''message'', JStr ''slept''), (''duration_ms'', JInt 0)])"
proof -
  have "sleep_duration (docs_lib []) (ji_params (sleep_job ''job-0-1'')) = 0"
    by (simp add: sleep_duration_def sleep_job_def no_sleep_def)
  then show ?thesis
    using sleep_job_completes [OF one_queued_reachable [of "docs_lib []"], of "''job-0-1''" "[]" "sleep_job ''job-0-1''" plain_input]
    by (auto simp: one_queued_def get_job_info_def sleep_job_def)
qed

theorem queued_iff_in_queue_witness:
  "map_option ji_status (get_job_info ''job-0-2'' measuring) = Some ''queued'' \<and>
   map_option ji_status (get_job_info ''job-0-1'' measuring) \<noteq> Some ''queued''"
  using queued_iff_in_queue [OF measuring_reachable [of "docs_lib []"], of "''job-0-1''"]
    queued_iff_in_queue [OF measuring_reachable [of "docs_lib []"], of "''job-0-2''"]
  by (simp add: measuring_def)

end
