(* ===== verification/Ipc.thy ===== *)
theory Ipc
  imports Cxx_Strings
begin

text \<open>
  \<^verbatim>\<open>IPCMessage\<close> (\<^verbatim>\<open>include/instrument-server/ipc/IPCMessage.hpp\<close>) and \<^verbatim>\<open>SharedQueue\<close>
  (\<^verbatim>\<open>src/ipc/SharedQueue.cpp\<close>), the pair of message queues between the server and one worker.
  The queues themselves are \<^verbatim>\<open>boost::interprocess::message_queue\<close>, a library: its five operations on
  the shared memory, whose state has the type \<open>'w\<close>, are a record of type \<open>'w mq_lib\<close> and an
  argument of the model. What the program relies on is the named hypothesis \<open>mq_lib_ok\<close>.
\<close>

section \<open>Messages\<close>

datatype msg_type = COMMAND | RESPONSE | HEARTBEAT | SHUTDOWN | SYNC_ACK | SYNC_CONTINUE | MT_unlisted u32

definition IPC_MAX_PAYLOAD :: nat where
  "IPC_MAX_PAYLOAD = 4096"

record ipc_message =
  im_type :: msg_type
  im_id :: u64
  im_sync_token :: u64
  im_payload_size :: u32
  im_payload :: string  \<comment> \<open>an array: always \<^const>\<open>IPC_MAX_PAYLOAD\<close> characters\<close>

definition new_message :: ipc_message where
  "new_message = \<lparr>im_type = COMMAND, im_id = 0, im_sync_token = 0, im_payload_size = 0,
     im_payload = replicate IPC_MAX_PAYLOAD (CHR 0x00)\<rparr>"

text \<open>
  How both sides put a text into a message: \<^verbatim>\<open>payload_size = min(size, sizeof payload)\<close> and a
  \<^verbatim>\<open>memcpy\<close> over the zeroed array; and how both read it back. A size beyond the array would read out of
  bounds: \<^const>\<open>None\<close>.
\<close>

definition put_payload :: "string \<Rightarrow> ipc_message \<Rightarrow> ipc_message" where
  "put_payload text m =
     (let n = min (length text) IPC_MAX_PAYLOAD in
      m\<lparr>im_payload_size := of_nat n, im_payload := take n text @ drop n (im_payload m)\<rparr>)"

definition read_payload :: "ipc_message \<Rightarrow> string option" where
  "read_payload m =
     (if unat (im_payload_size m) \<le> length (im_payload m)
      then Some (take (unat (im_payload_size m)) (im_payload m)) else None)"

section \<open>The message queue library\<close>

record 'w mq_lib =
  mq_remove :: "string \<Rightarrow> 'w \<Rightarrow> 'w"
  mq_create :: "string \<Rightarrow> nat \<Rightarrow> 'w \<Rightarrow> unit result \<times> 'w"  \<comment> \<open>\<^verbatim>\<open>create_only\<close>: name, capacity\<close>
  mq_open :: "string \<Rightarrow> 'w \<Rightarrow> unit result"  \<comment> \<open>\<^verbatim>\<open>open_only\<close>\<close>
  mq_timed_send :: "string \<Rightarrow> ipc_message \<Rightarrow> int \<Rightarrow> 'w \<Rightarrow> bool result \<times> 'w"
  mq_timed_receive :: "string \<Rightarrow> int \<Rightarrow> 'w \<Rightarrow> (ipc_message \<times> bool) option result \<times> 'w"
    \<comment> \<open>the message and whether its size was \<^verbatim>\<open>sizeof(IPCMessage)\<close>\<close>

text \<open>
  The documented behaviour, over the contents \<open>view w name\<close> of a queue (capacity and messages, the
  oldest first; \<^const>\<open>None\<close> when there is no queue of that name): \<^verbatim>\<open>create_only\<close> fails on an
  existing name and otherwise makes an empty queue, a send appends and times out only on a full
  queue, a receive takes the oldest message (all have priority 0) and times out only on an empty
  one, and no operation touches another queue.
\<close>

definition mq_lib_ok :: "'w mq_lib \<Rightarrow> ('w \<Rightarrow> string \<Rightarrow> (nat \<times> ipc_message list) option) \<Rightarrow> bool" where
  "mq_lib_ok mq view \<longleftrightarrow>
     (\<forall>n w. view (mq_remove mq n w) = (view w)(n := None)) \<and>
     (\<forall>n c w. view w n = None \<longrightarrow>
        fst (mq_create mq n c w) = Inr () \<and> view (snd (mq_create mq n c w)) = (view w)(n \<mapsto> (c, []))) \<and>
     (\<forall>n w. (\<exists>u. mq_open mq n w = Inr u) \<longleftrightarrow> view w n \<noteq> None) \<and>
     (\<forall>n m t w c ms. view w n = Some (c, ms) \<longrightarrow>
        (if length ms < c
         then fst (mq_timed_send mq n m t w) = Inr True \<and>
              view (snd (mq_timed_send mq n m t w)) = (view w)(n \<mapsto> (c, ms @ [m]))
         else fst (mq_timed_send mq n m t w) = Inr False \<and> view (snd (mq_timed_send mq n m t w)) = view w)) \<and>
     (\<forall>n t w c. view w n = Some (c, []) \<longrightarrow>
        fst (mq_timed_receive mq n t w) = Inr None \<and> view (snd (mq_timed_receive mq n t w)) = view w) \<and>
     (\<forall>n t w c m ms. view w n = Some (c, m # ms) \<longrightarrow>
        fst (mq_timed_receive mq n t w) = Inr (Some (m, True)) \<and>
        view (snd (mq_timed_receive mq n t w)) = (view w)(n \<mapsto> (c, ms)))"

section \<open>Shared queues\<close>

record shared_queue =
  sq_request_queue :: "string option"  \<comment> \<open>the open queue, by name; \<^const>\<open>None\<close> is \<^verbatim>\<open>nullptr\<close>\<close>
  sq_response_queue :: "string option"
  sq_request_queue_name :: string
  sq_response_queue_name :: string
  sq_is_server :: bool

definition make_queue_name :: "string \<Rightarrow> string \<Rightarrow> string" where
  "make_queue_name instrument_name suffix = ''instrument_'' @ instrument_name @ ''_'' @ suffix"

definition is_valid :: "shared_queue \<Rightarrow> bool" where
  "is_valid q \<longleftrightarrow> sq_request_queue q \<noteq> None \<and> sq_response_queue q \<noteq> None"

definition new_shared_queue :: "string \<Rightarrow> string \<Rightarrow> string \<Rightarrow> string \<Rightarrow> bool \<Rightarrow> shared_queue" where
  "new_shared_queue req_queue resp_queue req_name resp_name is_server =
     \<lparr>sq_request_queue = Some req_queue, sq_response_queue = Some resp_queue,
      sq_request_queue_name = req_name, sq_response_queue_name = resp_name, sq_is_server = is_server\<rparr>"

definition create_server_queue :: "'w mq_lib \<Rightarrow> string \<Rightarrow> 'w \<Rightarrow> shared_queue result \<times> 'w" where
  "create_server_queue mq instrument_name w =
     (let req_name = make_queue_name instrument_name ''req'';
          resp_name = make_queue_name instrument_name ''resp'';
          w1 = mq_remove mq (c_str resp_name) (mq_remove mq (c_str req_name) w)
      in case mq_create mq (c_str req_name) 100 w1 of
           (Inl e, w2) \<Rightarrow> (Inl e, w2)
         | (Inr _, w2) \<Rightarrow>
             (case mq_create mq (c_str resp_name) 100 w2 of
                (Inl e, w3) \<Rightarrow> (Inl e, w3)
              | (Inr _, w3) \<Rightarrow>
                  (Inr (new_shared_queue (c_str req_name) (c_str resp_name) req_name resp_name True), w3)))"

definition create_worker_queue :: "'w mq_lib \<Rightarrow> string \<Rightarrow> 'w \<Rightarrow> shared_queue result" where
  "create_worker_queue mq instrument_name w =
     (let req_name = make_queue_name instrument_name ''req'';
          resp_name = make_queue_name instrument_name ''resp''
      in bind_result (mq_open mq (c_str req_name) w) (\<lambda>_.
         bind_result (mq_open mq (c_str resp_name) w) (\<lambda>_.
         Inr (new_shared_queue (c_str req_name) (c_str resp_name) req_name resp_name False))))"

definition send_queue :: "shared_queue \<Rightarrow> string option" where
  "send_queue q = (if sq_is_server q then sq_request_queue q else sq_response_queue q)"

definition receive_queue :: "shared_queue \<Rightarrow> string option" where
  "receive_queue q = (if sq_is_server q then sq_response_queue q else sq_request_queue q)"

definition send_msg :: "'w mq_lib \<Rightarrow> ipc_message \<Rightarrow> int \<Rightarrow> shared_queue \<Rightarrow> 'w \<Rightarrow> bool \<times> 'w" where
  "send_msg mq msg timeout q w =
     (if \<not> is_valid q then (False, w)
      else case mq_timed_send mq (the (send_queue q)) msg timeout w of
          (Inl e, w') \<Rightarrow> (False, w')
        | (Inr sent, w') \<Rightarrow> (sent, w'))"

definition receive_msg :: "'w mq_lib \<Rightarrow> int \<Rightarrow> shared_queue \<Rightarrow> 'w \<Rightarrow> ipc_message option \<times> 'w" where
  "receive_msg mq timeout q w =
     (if \<not> is_valid q then (None, w)
      else case mq_timed_receive mq (the (receive_queue q)) timeout w of
          (Inl e, w') \<Rightarrow> (None, w')
        | (Inr None, w') \<Rightarrow> (None, w')
        | (Inr (Some (msg, size_ok)), w') \<Rightarrow> (if size_ok then (Some msg, w') else (None, w')))"

definition cleanup_queues :: "'w mq_lib \<Rightarrow> string \<Rightarrow> 'w \<Rightarrow> 'w" where
  "cleanup_queues mq instrument_name w =
     mq_remove mq (c_str (make_queue_name instrument_name ''resp''))
       (mq_remove mq (c_str (make_queue_name instrument_name ''req'')) w)"

section \<open>Facts\<close>

lemma length_new_payload [simp]: "length (im_payload new_message) = IPC_MAX_PAYLOAD"
  by (simp add: new_message_def)

lemma put_payload_simps [simp]:
  "im_type (put_payload t m) = im_type m" "im_id (put_payload t m) = im_id m"
  "im_sync_token (put_payload t m) = im_sync_token m"
  by (simp_all add: put_payload_def Let_def)

lemma read_put_payload:
  assumes "length (im_payload m) = IPC_MAX_PAYLOAD"
  shows "read_payload (put_payload t m) = Some (take IPC_MAX_PAYLOAD t)"
proof -
  have "unat (of_nat (min (length t) IPC_MAX_PAYLOAD) :: u32) = min (length t) IPC_MAX_PAYLOAD"
    by (simp add: unat_of_nat IPC_MAX_PAYLOAD_def min_def)
  then show ?thesis
    using assms by (simp add: read_payload_def put_payload_def Let_def min_def)
qed

lemma put_payload_length [simp]:
  "length (im_payload m) = IPC_MAX_PAYLOAD \<Longrightarrow> length (im_payload (put_payload t m)) = IPC_MAX_PAYLOAD"
  by (simp add: put_payload_def Let_def)

lemma queue_name_inject:
  "make_queue_name i ''req'' = make_queue_name j ''req'' \<longleftrightarrow> i = j"
  "make_queue_name i ''resp'' = make_queue_name j ''resp'' \<longleftrightarrow> i = j"
  "make_queue_name i ''req'' \<noteq> make_queue_name j ''resp''"
proof -
  have "last (make_queue_name i ''req'') \<noteq> last (make_queue_name j ''resp'')"
    by (simp add: make_queue_name_def)
  then show "make_queue_name i ''req'' \<noteq> make_queue_name j ''resp''" by metis
qed (simp_all add: make_queue_name_def)

definition plain_name :: "string \<Rightarrow> bool" where
  "plain_name i \<longleftrightarrow> CHR 0x00 \<notin> set i"

lemma c_str_plain: "plain_name s \<Longrightarrow> c_str s = s"
  by (auto simp: plain_name_def c_str_def takeWhile_eq_all_conv)

lemma plain_queue_name: "plain_name i \<Longrightarrow> plain_name s \<Longrightarrow> plain_name (make_queue_name i s)"
  by (simp add: plain_name_def make_queue_name_def)

lemma plain_suffix [simp]: "plain_name ''req''" "plain_name ''resp''"
  by (simp_all add: plain_name_def)

abbreviation req_of :: "string \<Rightarrow> string" where
  "req_of i \<equiv> make_queue_name i ''req''"

abbreviation resp_of :: "string \<Rightarrow> string" where
  "resp_of i \<equiv> make_queue_name i ''resp''"

definition server_end :: "string \<Rightarrow> shared_queue" where
  "server_end i = new_shared_queue (req_of i) (resp_of i) (req_of i) (resp_of i) True"

definition worker_end :: "string \<Rightarrow> shared_queue" where
  "worker_end i = new_shared_queue (req_of i) (resp_of i) (req_of i) (resp_of i) False"

lemma mq_lib_okD:
  assumes "mq_lib_ok mq view"
  shows "view (mq_remove mq n w) = (view w)(n := None)"
    and "view w n = None \<Longrightarrow> fst (mq_create mq n c w) = Inr ()"
    and "view w n = None \<Longrightarrow> view (snd (mq_create mq n c w)) = (view w)(n \<mapsto> (c, []))"
    and "(\<exists>u. mq_open mq n w = Inr u) \<longleftrightarrow> view w n \<noteq> None"
    and "view w n = Some (c, ms) \<Longrightarrow> length ms < c \<Longrightarrow> fst (mq_timed_send mq n m t w) = Inr True"
    and "view w n = Some (c, ms) \<Longrightarrow> length ms < c \<Longrightarrow>
      view (snd (mq_timed_send mq n m t w)) = (view w)(n \<mapsto> (c, ms @ [m]))"
    and "view w n = Some (c, ms) \<Longrightarrow> \<not> length ms < c \<Longrightarrow> fst (mq_timed_send mq n m t w) = Inr False"
    and "view w n = Some (c, ms) \<Longrightarrow> \<not> length ms < c \<Longrightarrow> view (snd (mq_timed_send mq n m t w)) = view w"
    and "view w n = Some (c, []) \<Longrightarrow> fst (mq_timed_receive mq n t w) = Inr None"
    and "view w n = Some (c, []) \<Longrightarrow> view (snd (mq_timed_receive mq n t w)) = view w"
    and "view w n = Some (c, m # ms) \<Longrightarrow> fst (mq_timed_receive mq n t w) = Inr (Some (m, True))"
    and "view w n = Some (c, m # ms) \<Longrightarrow> view (snd (mq_timed_receive mq n t w)) = (view w)(n \<mapsto> (c, ms))"
  using assms unfolding mq_lib_ok_def by metis+

lemma ends_simps [simp]:
  "is_valid (server_end i)" "is_valid (worker_end i)"
  "send_queue (server_end i) = Some (req_of i)" "receive_queue (server_end i) = Some (resp_of i)"
  "send_queue (worker_end i) = Some (resp_of i)" "receive_queue (worker_end i) = Some (req_of i)"
  by (simp_all add: server_end_def worker_end_def new_shared_queue_def is_valid_def send_queue_def receive_queue_def)

text \<open>One send and one receive at the level of the contents.\<close>

lemma send_msg_ok:
  assumes "mq_lib_ok mq view" and "is_valid q" and "send_queue q = Some n"
    and "view w n = Some (c, ms)" and "length ms < c"
  shows "fst (send_msg mq m t q w) \<and> view (snd (send_msg mq m t q w)) = (view w)(n \<mapsto> (c, ms @ [m]))"
  using mq_lib_okD(5,6) [OF assms(1,4,5), of m t] assms(2,3)
  by (auto simp: send_msg_def split: prod.split sum.split)

lemma send_msg_full:
  assumes "mq_lib_ok mq view" and "is_valid q" and "send_queue q = Some n"
    and "view w n = Some (c, ms)" and "\<not> length ms < c"
  shows "\<not> fst (send_msg mq m t q w) \<and> view (snd (send_msg mq m t q w)) = view w"
  using mq_lib_okD(7,8) [OF assms(1,4,5), of m t] assms(2,3)
  by (auto simp: send_msg_def split: prod.split sum.split)

lemma receive_msg_ok:
  assumes "mq_lib_ok mq view" and "is_valid q" and "receive_queue q = Some n"
    and "view w n = Some (c, m # ms)"
  shows "fst (receive_msg mq t q w) = Some m \<and> view (snd (receive_msg mq t q w)) = (view w)(n \<mapsto> (c, ms))"
  using mq_lib_okD(11,12) [OF assms(1,4), of t] assms(2,3)
  by (auto simp: receive_msg_def split: prod.split sum.split option.split)

lemma receive_msg_empty:
  assumes "mq_lib_ok mq view" and "is_valid q" and "receive_queue q = Some n"
    and "view w n = Some (c, [])"
  shows "fst (receive_msg mq t q w) = None \<and> view (snd (receive_msg mq t q w)) = view w"
  using mq_lib_okD(9,10) [OF assms(1,4), of t] assms(2,3)
  by (auto simp: receive_msg_def split: prod.split sum.split option.split)

fun send_all :: "'w mq_lib \<Rightarrow> int \<Rightarrow> shared_queue \<Rightarrow> ipc_message list \<Rightarrow> 'w \<Rightarrow> bool list \<times> 'w" where
  "send_all mq t q [] w = ([], w)"
| "send_all mq t q (m # ms) w =
     (let (b, w1) = send_msg mq m t q w; (bs, w2) = send_all mq t q ms w1 in (b # bs, w2))"

fun receive_n :: "'w mq_lib \<Rightarrow> int \<Rightarrow> shared_queue \<Rightarrow> nat \<Rightarrow> 'w \<Rightarrow> ipc_message option list \<times> 'w" where
  "receive_n mq t q 0 w = ([], w)"
| "receive_n mq t q (Suc k) w =
     (let (m, w1) = receive_msg mq t q w; (ms, w2) = receive_n mq t q k w1 in (m # ms, w2))"

lemma send_all_ok:
  assumes "mq_lib_ok mq view" and "is_valid q" and "send_queue q = Some n"
    and "view w n = Some (c, old)" and "length old + length ms \<le> c"
  shows "fst (send_all mq t q ms w) = replicate (length ms) True \<and>
    view (snd (send_all mq t q ms w)) = (view w)(n \<mapsto> (c, old @ ms))"
  using assms(4,5)
proof (induction ms arbitrary: w old)
  case (Cons m ms)
  have s: "fst (send_msg mq m t q w) \<and> view (snd (send_msg mq m t q w)) = (view w)(n \<mapsto> (c, old @ [m]))"
    using send_msg_ok [OF assms(1-3) Cons.prems(1)] Cons.prems(2) by simp
  show ?case
    using Cons.IH [of "snd (send_msg mq m t q w)" "old @ [m]"] s Cons.prems(2)
    by (auto simp: Let_def case_prod_unfold)
qed (auto simp: fun_upd_idem)

lemma receive_n_ok:
  assumes "mq_lib_ok mq view" and "is_valid q" and "receive_queue q = Some n"
    and "view w n = Some (c, ms @ rest)"
  shows "fst (receive_n mq t q (length ms) w) = map Some ms \<and>
    view (snd (receive_n mq t q (length ms) w)) = (view w)(n \<mapsto> (c, rest))"
  using assms(4)
proof (induction ms arbitrary: w)
  case (Cons m ms)
  have r: "fst (receive_msg mq t q w) = Some m \<and>
      view (snd (receive_msg mq t q w)) = (view w)(n \<mapsto> (c, ms @ rest))"
    using receive_msg_ok [OF assms(1-3)] Cons.prems by simp
  show ?case
    using Cons.IH [of "snd (receive_msg mq t q w)"] r by (auto simp: Let_def case_prod_unfold)
qed (auto simp: fun_upd_idem)

lemma create_server_queue_ok:
  assumes "mq_lib_ok mq view" and "plain_name i"
  shows "fst (create_server_queue mq i w) = Inr (server_end i) \<and>
    view (snd (create_server_queue mq i w)) = (view w)(req_of i \<mapsto> (100, []), resp_of i \<mapsto> (100, []))"
proof -
  let ?w1 = "mq_remove mq (resp_of i) (mq_remove mq (req_of i) w)"
  have c: "c_str (req_of i) = req_of i" "c_str (resp_of i) = resp_of i"
    using assms(2) by (simp_all add: c_str_plain plain_queue_name)
  have v1: "view ?w1 = (view w)(req_of i := None, resp_of i := None)"
    by (simp add: mq_lib_okD(1) [OF assms(1)])
  then have v2: "fst (mq_create mq (req_of i) 100 ?w1) = Inr ()"
      "view (snd (mq_create mq (req_of i) 100 ?w1)) = (view w)(resp_of i := None, req_of i \<mapsto> (100, []))"
    using mq_lib_okD(2,3) [OF assms(1), of ?w1 "req_of i" 100] queue_name_inject(3) by (auto simp: fun_upd_twist)
  let ?w2 = "snd (mq_create mq (req_of i) 100 ?w1)"
  have "fst (mq_create mq (resp_of i) 100 ?w2) = Inr ()"
      "view (snd (mq_create mq (resp_of i) 100 ?w2)) = (view ?w2)(resp_of i \<mapsto> (100, []))"
    using mq_lib_okD(2,3) [OF assms(1), of ?w2 "resp_of i" 100] v2(2) queue_name_inject(3) [of i i] by auto
  with v2 show ?thesis
    by (auto simp: create_server_queue_def c Let_def server_end_def fun_upd_twist split: prod.split sum.split)
qed

lemma create_worker_queue_ok:
  assumes "mq_lib_ok mq view" and "plain_name i"
    and "view w (req_of i) \<noteq> None" and "view w (resp_of i) \<noteq> None"
  shows "create_worker_queue mq i w = Inr (worker_end i)"
proof -
  obtain a b where "mq_open mq (req_of i) w = Inr a" and "mq_open mq (resp_of i) w = Inr b"
    using assms(3,4) mq_lib_okD(4) [OF assms(1)] by blast
  then show ?thesis
    using assms(2) by (simp add: create_worker_queue_def Let_def c_str_plain plain_queue_name worker_end_def)
qed

section \<open>Properties\<close>

text \<open>C30: A server and a worker that open the queues of the same instrument are connected: whatever
  the shared memory held before, the server side starts with two empty queues, the worker's open
  succeeds, up to 100 messages the server sends are all accepted and received by the worker
  unchanged and in order, and the queues of every other instrument stay as they were.\<close>

theorem queue_pair_fifo:
  assumes "mq_lib_ok mq view" and "plain_name i" and "length ms \<le> 100"
    and "create_server_queue mq i w = (r, w1)"
  shows "\<exists>server worker. r = Inr server \<and> create_worker_queue mq i w1 = Inr worker \<and>
    fst (send_all mq t server ms w1) = replicate (length ms) True \<and>
    fst (receive_n mq t' worker (length ms) (snd (send_all mq t server ms w1))) = map Some ms \<and>
    (\<forall>j. j \<noteq> i \<longrightarrow>
       view (snd (send_all mq t server ms w1)) (req_of j) = view w (req_of j) \<and>
       view (snd (send_all mq t server ms w1)) (resp_of j) = view w (resp_of j))"
proof -
  have r: "r = Inr (server_end i)" and v1: "view w1 = (view w)(req_of i \<mapsto> (100, []), resp_of i \<mapsto> (100, []))"
    using create_server_queue_ok [OF assms(1,2), of w] assms(4) by auto
  have worker: "create_worker_queue mq i w1 = Inr (worker_end i)"
    using create_worker_queue_ok [OF assms(1,2)] v1 by simp
  have "view w1 (req_of i) = Some (100, [])" using v1 queue_name_inject(3) [of i i] by simp
  then have s: "fst (send_all mq t (server_end i) ms w1) = replicate (length ms) True"
      "view (snd (send_all mq t (server_end i) ms w1)) = (view w1)(req_of i \<mapsto> (100, ms))"
    using send_all_ok [OF assms(1), of "server_end i" "req_of i" w1 100 "[]" ms t] assms(3) by auto
  have "fst (receive_n mq t' (worker_end i) (length ms) (snd (send_all mq t (server_end i) ms w1))) = map Some ms"
    using receive_n_ok [OF assms(1), of "worker_end i" "req_of i"
        "snd (send_all mq t (server_end i) ms w1)" 100 ms "[]" t'] s(2) by simp
  with r worker s v1 show ?thesis
    by (auto simp: queue_name_inject queue_name_inject(3) [symmetric])
qed

section \<open>A library that satisfies the hypothesis\<close>

text \<open>Queues in a map from names to capacity and contents.\<close>

type_synonym queues = "string \<Rightarrow> (nat \<times> ipc_message list) option"

definition list_mq :: "queues mq_lib" where
  "list_mq =
     \<lparr>mq_remove = (\<lambda>n w. w(n := None)),
      mq_create = (\<lambda>n c w. if w n = None then (Inr (), w(n \<mapsto> (c, []))) else (Inl ''File exists'', w)),
      mq_open = (\<lambda>n w. if w n = None then Inl ''No such file'' else Inr ()),
      mq_timed_send = (\<lambda>n m t w. case w n of None \<Rightarrow> (Inl ''closed'', w)
        | Some (c, ms) \<Rightarrow> if length ms < c then (Inr True, w(n \<mapsto> (c, ms @ [m]))) else (Inr False, w)),
      mq_timed_receive = (\<lambda>n t w. case w n of None \<Rightarrow> (Inl ''closed'', w)
        | Some (c, []) \<Rightarrow> (Inr None, w)
        | Some (c, m # ms) \<Rightarrow> (Inr (Some (m, True)), w(n \<mapsto> (c, ms))))\<rparr>"

lemma list_mq_ok [simp]: "mq_lib_ok list_mq (\<lambda>w. w)"
  unfolding mq_lib_ok_def list_mq_def by (auto split: option.splits list.splits)

theorem queue_pair_fifo_witness:
  "\<exists>server worker. fst (create_server_queue list_mq ''dmm'' Map.empty) = Inr server \<and>
     create_worker_queue list_mq ''dmm'' (snd (create_server_queue list_mq ''dmm'' Map.empty)) = Inr worker \<and>
     fst (receive_n list_mq 100 worker 2 (snd (send_all list_mq 1000 server
       [put_payload ''a'' new_message, put_payload ''b'' new_message]
       (snd (create_server_queue list_mq ''dmm'' Map.empty))))) =
     [Some (put_payload ''a'' new_message), Some (put_payload ''b'' new_message)]"
proof -
  have "plain_name ''dmm''" by (simp add: plain_name_def)
  from queue_pair_fifo [OF list_mq_ok this, of "[put_payload ''a'' new_message, put_payload ''b'' new_message]" Map.empty
      "fst (create_server_queue list_mq ''dmm'' Map.empty)" "snd (create_server_queue list_mq ''dmm'' Map.empty)" 1000 100]
  show ?thesis by (simp add: numeral_2_eq_2) blast
qed

end
