(* ===== verification/Plugin.thy ===== *)
theory Plugin
  imports Codec
begin

text \<open>
  The C plugin interface (\<^verbatim>\<open>include/instrument-server/plugin/PluginInterface.h\<close>), the loader
  (\<^verbatim>\<open>src/plugin/PluginLoader.cpp\<close>) and the registry of loaded plugins
  (\<^verbatim>\<open>src/plugin/PluginRegistry.cpp\<close>). A plugin is foreign code: the symbols \<^verbatim>\<open>dlsym\<close> finds in a
  library are a record of optional functions over the plugin's own state, of type \<open>'p\<close>, and
  \<^verbatim>\<open>dlopen\<close> is an argument that maps a path to such a record, or to the loader's error text.
\<close>

section \<open>Interface\<close>

definition PLUGIN_MAX_STRING_LEN :: nat where "PLUGIN_MAX_STRING_LEN = 128"
definition PLUGIN_MAX_PARAMS :: nat where "PLUGIN_MAX_PARAMS = 16"
definition PLUGIN_MAX_PAYLOAD :: nat where "PLUGIN_MAX_PAYLOAD = 4096"
definition INSTRUMENT_PLUGIN_API_VERSION :: u32 where "INSTRUMENT_PLUGIN_API_VERSION = 1"

text \<open>\<^verbatim>\<open>PluginParamValue\<close>: the tag and the member of the union it selects.\<close>

datatype plugin_param_value =
    PARAM_TYPE_NONE
  | PARAM_TYPE_INT32 i32
  | PARAM_TYPE_INT64 i64
  | PARAM_TYPE_UINT32 u32
  | PARAM_TYPE_UINT64 u64
  | PARAM_TYPE_FLOAT u32
  | PARAM_TYPE_DOUBLE double
  | PARAM_TYPE_BOOL bool
  | PARAM_TYPE_STRING string
  | PARAM_TYPE_BINARY "u8 list"
  | PARAM_TYPE_ARRAY_DOUBLE "double list"
  | PARAM_TYPE_ARRAY_INT32 "i32 list"

record plugin_param =
  pp_name :: string
  pp_value :: plugin_param_value

text \<open>Character arrays hold the text up to their first NUL; \<open>pc_params\<close> are the first
  \<open>pc_param_count\<close> entries of the array.\<close>

record plugin_command =
  pc_id :: string
  pc_instrument_name :: string
  pc_verb :: string
  pc_params :: "plugin_param list"
  pc_param_count :: u32
  pc_timeout_ms :: u32
  pc_expects_response :: bool

record plugin_response =
  pr_command_id :: string
  pr_instrument_name :: string
  pr_success :: bool
  pr_return_value :: plugin_param_value
  pr_text_response :: string
  pr_binary_response :: "u8 list"
  pr_binary_response_size :: u32
  pr_error_code :: i32
  pr_error_message :: string
  pr_has_large_data :: bool
  pr_data_buffer_id :: string
  pr_data_element_count :: u64
  pr_data_type :: u8

definition zero_response :: plugin_response where
  "zero_response = \<lparr>pr_command_id = [], pr_instrument_name = [], pr_success = False,
     pr_return_value = PARAM_TYPE_NONE, pr_text_response = [], pr_binary_response = [],
     pr_binary_response_size = 0, pr_error_code = 0, pr_error_message = [],
     pr_has_large_data = False, pr_data_buffer_id = [], pr_data_element_count = 0, pr_data_type = 0\<rparr>"

record plugin_config =
  pf_instrument_name :: string
  pf_connection_json :: string
  pf_api_definition_json :: string

record plugin_metadata =
  pm_api_version :: u32
  pm_name :: string
  pm_version :: string
  pm_protocol_type :: string
  pm_description :: string

section \<open>Loader\<close>

record 'p plugin_symbols =
  ps_get_metadata :: "plugin_metadata option"
  ps_initialize :: "(plugin_config \<Rightarrow> 'p \<Rightarrow> i32 \<times> 'p) option"
  ps_execute_command :: "(plugin_command \<Rightarrow> plugin_response \<Rightarrow> 'p \<Rightarrow> i32 \<times> plugin_response \<times> 'p) option"
  ps_shutdown :: "('p \<Rightarrow> 'p) option"

definition no_symbols :: "'p plugin_symbols" where
  "no_symbols = \<lparr>ps_get_metadata = None, ps_initialize = None, ps_execute_command = None, ps_shutdown = None\<rparr>"

type_synonym 'p dl = "string \<Rightarrow> 'p plugin_symbols result"

record 'p plugin_loader =
  ld_handle :: bool  \<comment> \<open>not \<^verbatim>\<open>nullptr\<close>\<close>
  ld_plugin_path :: string
  ld_error_message :: string
  ld_symbols :: "'p plugin_symbols"

definition symbols_complete :: "'p plugin_symbols \<Rightarrow> bool" where
  "symbols_complete s \<longleftrightarrow> ps_get_metadata s \<noteq> None \<and> ps_initialize s \<noteq> None \<and>
     ps_execute_command s \<noteq> None \<and> ps_shutdown s \<noteq> None"

definition new_plugin_loader :: "'p dl \<Rightarrow> string \<Rightarrow> 'p plugin_loader result" where
  "new_plugin_loader dlopen path =
     (case dlopen (c_str path) of
        Inl e \<Rightarrow> Inl (''Failed to load library: '' @ e)
      | Inr syms \<Rightarrow>
          if \<not> symbols_complete syms then Inl ''Failed to load required plugin symbols''
          else Inr \<lparr>ld_handle = True, ld_plugin_path = path, ld_error_message = [], ld_symbols = syms\<rparr>)"

definition is_loaded :: "'p plugin_loader \<Rightarrow> bool" where
  "is_loaded l = ld_handle l"

definition unload :: "'p plugin_loader \<Rightarrow> 'p plugin_loader" where
  "unload l = (if ld_handle l then l\<lparr>ld_handle := False\<rparr> else l)"

definition loader_get_metadata :: "'p plugin_loader \<Rightarrow> plugin_metadata result" where
  "loader_get_metadata l =
     (case ps_get_metadata (ld_symbols l) of None \<Rightarrow> Inl ''Plugin not loaded'' | Some m \<Rightarrow> Inr m)"

definition loader_initialize :: "plugin_config \<Rightarrow> 'p plugin_loader \<Rightarrow> 'p \<Rightarrow> i32 \<times> 'p" where
  "loader_initialize config l p =
     (case ps_initialize (ld_symbols l) of None \<Rightarrow> (-1, p) | Some f \<Rightarrow> f config p)"

definition loader_execute_command ::
  "plugin_command \<Rightarrow> plugin_response \<Rightarrow> 'p plugin_loader \<Rightarrow> 'p \<Rightarrow> i32 \<times> plugin_response \<times> 'p"
where
  "loader_execute_command command response l p =
     (case ps_execute_command (ld_symbols l) of None \<Rightarrow> (-1, response, p) | Some f \<Rightarrow> f command response p)"

definition loader_shutdown :: "'p plugin_loader \<Rightarrow> 'p \<Rightarrow> 'p" where
  "loader_shutdown l p = (case ps_shutdown (ld_symbols l) of None \<Rightarrow> p | Some f \<Rightarrow> f p)"

text \<open>The destructor: what it leaves of the plugin's state and of the loader.\<close>

definition destroy_loader :: "'p plugin_loader \<Rightarrow> 'p \<Rightarrow> 'p \<times> 'p plugin_loader" where
  "destroy_loader l p =
     ((if ps_shutdown (ld_symbols l) \<noteq> None \<and> ld_handle l then loader_shutdown l p else p), unload l)"

text \<open>Moving: the new loader and what is left of the old one (whose strings are unspecified:
  arguments here).\<close>

definition move_loader :: "string \<Rightarrow> string \<Rightarrow> 'p plugin_loader \<Rightarrow> 'p plugin_loader \<times> 'p plugin_loader" where
  "move_loader path_left error_left other =
     (other, \<lparr>ld_handle = False, ld_plugin_path = path_left, ld_error_message = error_left, ld_symbols = no_symbols\<rparr>)"

section \<open>Registry\<close>

text \<open>The file system as \<^verbatim>\<open>std::filesystem\<close> shows it: what exists, which paths are directories, and
  the entries of a directory with path, file name and whether it is a regular file.\<close>

record file_system =
  fs_exists :: "string \<Rightarrow> bool"
  fs_is_directory :: "string \<Rightarrow> bool"
  fs_entries :: "string \<Rightarrow> (string \<times> string \<times> bool) list"

record 'p plugin_registry =
  rg_plugins :: "(string, 'p plugin_loader) umap"
  rg_plugin_paths :: "(string, string) umap"

definition new_registry :: "'p plugin_registry" where
  "new_registry = \<lparr>rg_plugins = [], rg_plugin_paths = []\<rparr>"

definition has_plugin :: "string \<Rightarrow> 'p plugin_registry \<Rightarrow> bool" where
  "has_plugin protocol_type r \<longleftrightarrow> map_of (rg_plugins r) protocol_type \<noteq> None"

definition load_plugin :: "'p dl \<Rightarrow> string \<Rightarrow> string \<Rightarrow> 'p plugin_registry \<Rightarrow> bool \<times> 'p plugin_registry" where
  "load_plugin dlopen protocol_type plugin_path r =
     (if map_of (rg_plugins r) protocol_type \<noteq> None then (False, r)
      else case new_plugin_loader dlopen plugin_path of
          Inl e \<Rightarrow> (False, r)
        | Inr loader \<Rightarrow>
            if \<not> is_loaded loader then (False, r)
            else case loader_get_metadata loader of
                Inl e \<Rightarrow> (False, r)
              | Inr metadata \<Rightarrow>
                  if pm_api_version metadata \<noteq> INSTRUMENT_PLUGIN_API_VERSION then (False, r)
                  else (True, r\<lparr>rg_plugins := umap_put protocol_type loader (rg_plugins r),
                                rg_plugin_paths := umap_put protocol_type plugin_path (rg_plugin_paths r)\<rparr>))"

text \<open>The loop over the candidate paths of one built-in protocol, and the loop over the protocols. The
  third path is written in the source with a space.\<close>

fun try_paths ::
  "(string \<Rightarrow> bool) \<Rightarrow> 'p dl \<Rightarrow> string \<Rightarrow> string list \<Rightarrow> 'p plugin_registry \<Rightarrow> bool \<times> 'p plugin_registry"
where
  "try_paths ex dlopen protocol [] r = (False, r)"
| "try_paths ex dlopen protocol (path # paths) r =
     (if ex path
      then case load_plugin dlopen protocol path r of
          (True, r') \<Rightarrow> (True, r')
        | (False, r') \<Rightarrow> try_paths ex dlopen protocol paths r'
      else try_paths ex dlopen protocol paths r)"

definition builtins :: "(string \<times> string list) list" where
  "builtins =
     [(''VISA'',
       [''/usr/local/lib/instrument-plugins/visa_plugin.so'',
        ''/usr/lib/instrument-plugins/visa_plugin.so'',
        ''./plugins/visa/visa_plugin. so'',
        ''./build/plugins/visa/visa_plugin.so''])]"

definition load_builtin_plugins :: "file_system \<Rightarrow> 'p dl \<Rightarrow> 'p plugin_registry \<Rightarrow> 'p plugin_registry" where
  "load_builtin_plugins fs dlopen r =
     fold (\<lambda>(protocol, paths) r. if has_plugin protocol r then r
             else snd (try_paths (fs_exists fs) dlopen protocol paths r)) builtins r"

definition get_plugin :: "string \<Rightarrow> 'p plugin_registry \<Rightarrow> 'p plugin_loader option" where
  "get_plugin protocol_type r = map_of (rg_plugins r) protocol_type"

definition unload_plugin :: "string \<Rightarrow> 'p plugin_registry \<Rightarrow> 'p plugin_registry" where
  "unload_plugin protocol_type r =
     r\<lparr>rg_plugins := umap_del protocol_type (rg_plugins r),
       rg_plugin_paths := umap_del protocol_type (rg_plugin_paths r)\<rparr>"

definition list_protocols :: "'p plugin_registry \<Rightarrow> string list" where
  "list_protocols r = umap_keys (rg_plugins r)"

definition get_plugin_path :: "string \<Rightarrow> 'p plugin_registry \<Rightarrow> string" where
  "get_plugin_path protocol_type r =
     (case map_of (rg_plugin_paths r) protocol_type of None \<Rightarrow> [] | Some p \<Rightarrow> p)"

text \<open>\<^verbatim>\<open>filename.compare(length - 3, 3, ".so")\<close> after the length check.\<close>

definition ends_with_so :: "string \<Rightarrow> bool" where
  "ends_with_so filename \<longleftrightarrow> 3 \<le> length filename \<and> drop (length filename - 3) filename = ''.so''"

definition discover_entry :: "'p dl \<Rightarrow> string \<times> string \<times> bool \<Rightarrow> 'p plugin_registry \<Rightarrow> 'p plugin_registry" where
  "discover_entry dlopen e r =
     (case e of (plugin_path, filename, regular) \<Rightarrow>
        if \<not> regular \<or> \<not> ends_with_so filename then r
        else case new_plugin_loader dlopen plugin_path of
            Inl err \<Rightarrow> r
          | Inr temp_loader \<Rightarrow>
              if \<not> is_loaded temp_loader then r
              else case loader_get_metadata temp_loader of
                  Inl err \<Rightarrow> r
                | Inr metadata \<Rightarrow>
                    let protocol = pm_protocol_type metadata in
                    if has_plugin protocol r then r else snd (load_plugin dlopen protocol plugin_path r))"

definition discover_plugins :: "file_system \<Rightarrow> 'p dl \<Rightarrow> string list \<Rightarrow> 'p plugin_registry \<Rightarrow> 'p plugin_registry" where
  "discover_plugins fs dlopen search_paths r =
     fold (\<lambda>path r. if \<not> fs_exists fs path \<or> \<not> fs_is_directory fs path then r
             else fold (discover_entry dlopen) (fs_entries fs path) r) search_paths r"

section \<open>Invariant\<close>

text \<open>What a library must be for the registry to accept it.\<close>

definition good_plugin :: "'p dl \<Rightarrow> string \<Rightarrow> 'p plugin_symbols \<Rightarrow> plugin_metadata \<Rightarrow> bool" where
  "good_plugin dlopen path syms md \<longleftrightarrow> dlopen (c_str path) = Inr syms \<and> symbols_complete syms \<and>
     ps_get_metadata syms = Some md \<and> pm_api_version md = INSTRUMENT_PLUGIN_API_VERSION"

definition registry_inv :: "'p dl \<Rightarrow> 'p plugin_registry \<Rightarrow> bool" where
  "registry_inv dlopen r \<longleftrightarrow> umap_ok (rg_plugins r) \<and>
     (\<forall>protocol. map_of (rg_plugins r) protocol = None \<longleftrightarrow> map_of (rg_plugin_paths r) protocol = None) \<and>
     (\<forall>protocol l. map_of (rg_plugins r) protocol = Some l \<longrightarrow>
        (\<exists>md. good_plugin dlopen (get_plugin_path protocol r) (ld_symbols l) md \<and> ld_handle l))"

lemma load_plugin_True:
  "fst (load_plugin dlopen protocol path r) \<longleftrightarrow>
     map_of (rg_plugins r) protocol = None \<and> (\<exists>syms md. good_plugin dlopen path syms md)"
  by (auto simp: load_plugin_def new_plugin_loader_def is_loaded_def loader_get_metadata_def good_plugin_def
      symbols_complete_def split: sum.splits option.splits)

lemma load_plugin_state:
  "snd (load_plugin dlopen protocol path r) =
     (if fst (load_plugin dlopen protocol path r)
      then (case dlopen (c_str path) of Inr syms \<Rightarrow>
        r\<lparr>rg_plugins := umap_put protocol \<lparr>ld_handle = True, ld_plugin_path = path, ld_error_message = [],
             ld_symbols = syms\<rparr> (rg_plugins r),
          rg_plugin_paths := umap_put protocol path (rg_plugin_paths r)\<rparr>
        | Inl _ \<Rightarrow> r)
      else r)"
  by (auto simp: load_plugin_def new_plugin_loader_def is_loaded_def loader_get_metadata_def
      split: sum.splits option.splits)

lemma registry_inv_load [invs]:
  assumes "registry_inv dlopen r"
  shows "registry_inv dlopen (snd (load_plugin dlopen protocol path r))"
proof (cases "fst (load_plugin dlopen protocol path r)")
  case True
  then obtain syms md where g: "good_plugin dlopen path syms md" and new: "map_of (rg_plugins r) protocol = None"
    using load_plugin_True by metis
  then show ?thesis
    using assms True
    by (auto simp: load_plugin_state registry_inv_def get_plugin_path_def good_plugin_def um.ok_put)
qed (use assms load_plugin_state [of dlopen protocol path r] in simp)

lemma registry_inv_unload [invs]: "registry_inv dlopen r \<Longrightarrow> registry_inv dlopen (unload_plugin protocol r)"
  by (auto simp: registry_inv_def unload_plugin_def get_plugin_path_def um.ok_del)

text \<open>Loading never removes or replaces a plugin.\<close>

lemma load_plugin_keeps:
  "map_of (rg_plugins r) protocol = Some l \<Longrightarrow>
   map_of (rg_plugins (snd (load_plugin dlopen protocol' path r))) protocol = Some l \<and>
   get_plugin_path protocol (snd (load_plugin dlopen protocol' path r)) = get_plugin_path protocol r"
  using load_plugin_True [of dlopen protocol' path r]
  by (auto simp: load_plugin_state get_plugin_path_def split: sum.split)

lemma discover_entry_cases:
  "discover_entry dlopen e r = r \<or>
   (\<exists>protocol. \<not> has_plugin protocol r \<and> discover_entry dlopen e r = snd (load_plugin dlopen protocol (fst e) r))"
  by (auto simp: discover_entry_def Let_def split: prod.splits sum.splits)

lemma discover_entry_keeps:
  "map_of (rg_plugins r) protocol = Some l \<Longrightarrow>
   map_of (rg_plugins (discover_entry dlopen e r)) protocol = Some l"
  using discover_entry_cases [of dlopen e r] load_plugin_keeps by metis

lemma registry_inv_discover_entry: "registry_inv dlopen r \<Longrightarrow> registry_inv dlopen (discover_entry dlopen e r)"
  using discover_entry_cases [of dlopen e r] registry_inv_load by metis

lemma fold_invariant_on:
  assumes "P s" and "\<And>x s. x \<in> set xs \<Longrightarrow> P s \<Longrightarrow> P (f x s)"
  shows "P (fold f xs s)"
  using assms by (induction xs arbitrary: s) auto

lemma registry_inv_discover [invs]:
  "registry_inv dlopen r \<Longrightarrow> registry_inv dlopen (discover_plugins fs dlopen paths r)"
  unfolding discover_plugins_def
  by (rule fold_invariant_on; simp) (auto intro!: fold_invariant_on registry_inv_discover_entry)

lemma registry_inv_try_paths: "registry_inv dlopen r \<Longrightarrow> registry_inv dlopen (snd (try_paths ex dlopen protocol paths r))"
proof (induction paths arbitrary: r)
  case (Cons path paths)
  have "registry_inv dlopen (snd (load_plugin dlopen protocol path r))"
    using Cons.prems by (rule registry_inv_load)
  with Cons show ?case
    by (auto split: prod.split bool.split)
qed simp

lemma registry_inv_builtin [invs]:
  "registry_inv dlopen r \<Longrightarrow> registry_inv dlopen (load_builtin_plugins fs dlopen r)"
  unfolding load_builtin_plugins_def
  by (rule fold_invariant_on [where P = "registry_inv dlopen"])
    (auto intro: registry_inv_try_paths split: prod.splits)

section \<open>Properties\<close>

datatype registry_event =
    Load string string
  | LoadBuiltin
  | Discover "string list"
  | Unload string

fun registry_step :: "file_system \<Rightarrow> 'p dl \<Rightarrow> registry_event \<Rightarrow> 'p plugin_registry \<Rightarrow> 'p plugin_registry" where
  "registry_step fs dlopen (Load protocol path) r = snd (load_plugin dlopen protocol path r)"
| "registry_step fs dlopen LoadBuiltin r = load_builtin_plugins fs dlopen r"
| "registry_step fs dlopen (Discover paths) r = discover_plugins fs dlopen paths r"
| "registry_step fs dlopen (Unload protocol) r = unload_plugin protocol r"

lemma registry_inv_run: "registry_inv dlopen (fold (registry_step fs dlopen) es new_registry)"
proof (rule fold_invariant_on)
  show "registry_inv dlopen new_registry"
    by (simp add: registry_inv_def new_registry_def)
  show "registry_inv dlopen (registry_step fs dlopen e r)" if "registry_inv dlopen r" for e r
    using that by (cases e) (simp_all add: invs)
qed

text \<open>C32: After any sequence of loads, discoveries and unloads, every plugin the registry holds came from
  a library at the path it reports, with all four symbols and the supported interface version, and
  the registry reports a path for exactly the protocols it holds, each listed once.\<close>

theorem registry_sound:
  assumes "r = fold (registry_step fs dlopen) es new_registry"
  shows "distinct (list_protocols r) \<and>
    (\<forall>protocol. has_plugin protocol r \<longleftrightarrow> protocol \<in> set (list_protocols r)) \<and>
    (\<forall>protocol l. get_plugin protocol r = Some l \<longrightarrow>
       (\<exists>syms md. dlopen (c_str (get_plugin_path protocol r)) = Inr syms \<and> symbols_complete syms \<and>
          ps_get_metadata syms = Some md \<and> pm_api_version md = INSTRUMENT_PLUGIN_API_VERSION \<and>
          loader_get_metadata l = Inr md)) \<and>
    (\<forall>protocol. \<not> has_plugin protocol r \<longrightarrow> get_plugin_path protocol r = [])"
proof -
  have inv: "registry_inv dlopen r" using registry_inv_run assms by blast
  have "dlopen (c_str (get_plugin_path protocol r)) = Inr (ld_symbols l) \<and> symbols_complete (ld_symbols l) \<and>
      (\<exists>md. ps_get_metadata (ld_symbols l) = Some md \<and> pm_api_version md = INSTRUMENT_PLUGIN_API_VERSION \<and>
        loader_get_metadata l = Inr md)" if held: "get_plugin protocol r = Some l" for protocol l
  proof -
    obtain md where "good_plugin dlopen (get_plugin_path protocol r) (ld_symbols l) md"
      using inv held unfolding registry_inv_def get_plugin_def by blast
    then show ?thesis by (simp add: good_plugin_def loader_get_metadata_def)
  qed
  note held = this
  have "distinct (list_protocols r)"
    using inv by (simp add: registry_inv_def list_protocols_def um.distinct_keys)
  moreover have "has_plugin protocol r \<longleftrightarrow> protocol \<in> set (list_protocols r)" for protocol
    by (simp add: has_plugin_def list_protocols_def um.set_keys domIff)
  moreover have "get_plugin_path protocol r = []" if "\<not> has_plugin protocol r" for protocol
    using inv that by (simp add: registry_inv_def has_plugin_def get_plugin_path_def)
  ultimately show ?thesis using held by blast
qed

lemma discover_entry_has_keeps:
  "has_plugin protocol r \<Longrightarrow> has_plugin protocol (discover_entry dlopen e r)"
  using discover_entry_keeps [of r protocol _ dlopen e] by (auto simp: has_plugin_def)

lemma discover_entry_has:
  assumes "good_plugin dlopen path syms md" and "ends_with_so filename"
  shows "has_plugin (pm_protocol_type md) (discover_entry dlopen (path, filename, True) r)"
proof (cases "has_plugin (pm_protocol_type md) r")
  case False
  have "fst (load_plugin dlopen (pm_protocol_type md) path r)"
    using assms(1) False load_plugin_True by (metis has_plugin_def)
  then have "has_plugin (pm_protocol_type md) (snd (load_plugin dlopen (pm_protocol_type md) path r))"
    using assms(1) by (auto simp: load_plugin_state has_plugin_def good_plugin_def)
  then show ?thesis
    using assms False
    by (simp add: discover_entry_def good_plugin_def new_plugin_loader_def is_loaded_def loader_get_metadata_def)
next
  case True
  then show ?thesis by (rule discover_entry_has_keeps)
qed

lemma fold_eventually:
  assumes "x \<in> set xs" and "\<And>s. P (f x s)" and "\<And>y s. P s \<Longrightarrow> P (f y s)"
  shows "P (fold f xs s)"
proof -
  obtain as bs where xs: "xs = as @ x # bs" using assms(1) by (meson split_list)
  have "P (fold f bs (f x (fold f as s)))"
    by (rule fold_invariant_on) (auto intro: assms(2,3))
  then show ?thesis by (simp add: xs)
qed

text \<open>Discovery is complete: a loadable library with a current interface version, named \<^verbatim>\<open>*.so\<close>, in
  one of the directories searched, leaves the registry with a plugin for its protocol, whatever else
  the directories hold; and discovery never drops or replaces a plugin that was there.\<close>

theorem discover_complete:
  assumes "path \<in> set search_paths" and "fs_exists fs path" and "fs_is_directory fs path"
    and "(plugin_path, filename, True) \<in> set (fs_entries fs path)" and "ends_with_so filename"
    and "dlopen (c_str plugin_path) = Inr syms" and "symbols_complete syms"
    and "ps_get_metadata syms = Some md" and "pm_api_version md = INSTRUMENT_PLUGIN_API_VERSION"
  shows "has_plugin (pm_protocol_type md) (discover_plugins fs dlopen search_paths r) \<and>
    (\<forall>protocol l. get_plugin protocol r = Some l \<longrightarrow>
       get_plugin protocol (discover_plugins fs dlopen search_paths r) = Some l)"
proof -
  have g: "good_plugin dlopen plugin_path syms md" using assms(6-9) by (simp add: good_plugin_def)
  have "has_plugin (pm_protocol_type md) (discover_plugins fs dlopen search_paths r)"
    unfolding discover_plugins_def
  proof (rule fold_eventually [OF assms(1)])
    fix s :: "'a plugin_registry"
    have "has_plugin (pm_protocol_type md) (fold (discover_entry dlopen) (fs_entries fs path) s)"
      by (rule fold_eventually [OF assms(4)]) (auto intro: discover_entry_has [OF g assms(5)] discover_entry_has_keeps)
    then show "has_plugin (pm_protocol_type md) (if \<not> fs_exists fs path \<or> \<not> fs_is_directory fs path then s
        else fold (discover_entry dlopen) (fs_entries fs path) s)"
      using assms(2,3) by simp
  next
    fix y and s :: "'a plugin_registry"
    assume "has_plugin (pm_protocol_type md) s"
    then show "has_plugin (pm_protocol_type md) (if \<not> fs_exists fs y \<or> \<not> fs_is_directory fs y then s
        else fold (discover_entry dlopen) (fs_entries fs y) s)"
      by (auto intro!: fold_invariant_on [where P = "has_plugin (pm_protocol_type md)"] intro: discover_entry_has_keeps)
  qed
  moreover have "get_plugin protocol (discover_plugins fs dlopen search_paths r) = Some l"
    if "get_plugin protocol r = Some l" for protocol l
    using that unfolding discover_plugins_def get_plugin_def
    by (intro fold_invariant_on [where P = "\<lambda>s. map_of (rg_plugins s) protocol = Some l"])
      (auto intro!: fold_invariant_on [where P = "\<lambda>s. map_of (rg_plugins s) protocol = Some l"]
        intro: discover_entry_keeps)
  ultimately show ?thesis by blast
qed

section \<open>Witnesses\<close>

definition demo_metadata :: plugin_metadata where
  "demo_metadata = \<lparr>pm_api_version = 1, pm_name = ''demo'', pm_version = ''1.0'',
     pm_protocol_type = ''Serial'', pm_description = []\<rparr>"

definition demo_symbols :: "unit plugin_symbols" where
  "demo_symbols = \<lparr>ps_get_metadata = Some demo_metadata, ps_initialize = Some (\<lambda>_ p. (0, p)),
     ps_execute_command = Some (\<lambda>_ r p. (0, r\<lparr>pr_success := True\<rparr>, p)), ps_shutdown = Some (\<lambda>p. p)\<rparr>"

definition demo_dlopen :: "unit dl" where
  "demo_dlopen path = (if path = ''/p/serial.so'' then Inr demo_symbols else Inl ''not found'')"

definition demo_fs :: file_system where
  "demo_fs = \<lparr>fs_exists = (\<lambda>p. p = ''/p''), fs_is_directory = (\<lambda>p. p = ''/p''),
     fs_entries = (\<lambda>p. [(''/p/readme'', ''readme'', True), (''/p/serial.so'', ''serial.so'', True)])\<rparr>"

lemma demo_symbols_complete [simp]: "symbols_complete demo_symbols"
  by (simp add: symbols_complete_def demo_symbols_def)

lemma demo_c_str [simp]: "c_str ''/p/serial.so'' = ''/p/serial.so''"
  by (simp add: c_str_def)

theorem discover_complete_witness:
  "has_plugin ''Serial'' (discover_plugins demo_fs demo_dlopen [''/q'', ''/p''] new_registry)"
  using discover_complete [of "''/p''" "[''/q'', ''/p'']" demo_fs "''/p/serial.so''" "''serial.so''" demo_dlopen
      demo_symbols demo_metadata new_registry]
  by (simp add: demo_fs_def ends_with_so_def demo_dlopen_def)
    (simp add: demo_symbols_def demo_metadata_def INSTRUMENT_PLUGIN_API_VERSION_def)

theorem registry_sound_witness:
  "distinct (list_protocols (fold (registry_step demo_fs demo_dlopen) [Discover [''/p''], Unload ''VISA''] new_registry))"
  using registry_sound [OF refl, of demo_fs demo_dlopen "[Discover [''/p''], Unload ''VISA'']"] by blast

end
