(* ===== verification/Worker.thy ===== *)
theory Worker
  imports Plugin Ipc
begin

text \<open>
  The worker process (\<^verbatim>\<open>src/workers/generic_worker_main.cpp\<close>): it receives commands from its request
  queue, runs them in its plugin and sends responses, acknowledgements and heartbeats. The class
  \<^verbatim>\<open>Instrument\<close> is the record \<open>worker\<close>, with the plugin's own state and the shared memory of the
  queues beside it; \<^verbatim>\<open>g_running\<close> is one of its fields. A handler that may throw returns a \<open>result\<close>;
  an exception leaves \<^verbatim>\<open>run\<close> and ends the process with code 1.
\<close>

section \<open>Conversions\<close>

fun to_plugin_value :: "param_value \<Rightarrow> plugin_param_value" where
  "to_plugin_value (PDouble d) = PARAM_TYPE_DOUBLE d"
| "to_plugin_value (PInt64 i) = PARAM_TYPE_INT64 i"
| "to_plugin_value (PString s) = PARAM_TYPE_STRING (strncpy0 PLUGIN_MAX_STRING_LEN s)"
| "to_plugin_value (PBool b) = PARAM_TYPE_BOOL b"
| "to_plugin_value (PArray ds) = PARAM_TYPE_NONE"  \<comment> \<open>no branch: the zeroed entry\<close>

definition to_plugin_params :: "(string, param_value) umap \<Rightarrow> plugin_param list" where
  "to_plugin_params ps =
     map (\<lambda>(k, v). \<lparr>pp_name = strncpy0 PLUGIN_MAX_STRING_LEN k, pp_value = to_plugin_value v\<rparr>)
       (take PLUGIN_MAX_PARAMS ps)"

definition to_plugin_command :: "serialized_command \<Rightarrow> plugin_command" where
  "to_plugin_command cmd =
     \<lparr>pc_id = strncpy0 PLUGIN_MAX_STRING_LEN (sc_id cmd),
      pc_instrument_name = strncpy0 PLUGIN_MAX_STRING_LEN (sc_instrument_name cmd),
      pc_verb = strncpy0 PLUGIN_MAX_STRING_LEN (sc_verb cmd),
      pc_params = to_plugin_params (sc_params cmd),
      pc_param_count = of_nat (length (to_plugin_params (sc_params cmd))),
      pc_timeout_ms = 0,
      pc_expects_response = sc_expects_response cmd\<rparr>"

fun from_plugin_value :: "plugin_param_value \<Rightarrow> param_value option" where
  "from_plugin_value (PARAM_TYPE_DOUBLE d) = Some (PDouble d)"
| "from_plugin_value (PARAM_TYPE_INT64 i) = Some (PInt64 i)"
| "from_plugin_value (PARAM_TYPE_STRING s) = Some (PString (c_str s))"
| "from_plugin_value (PARAM_TYPE_BOOL b) = Some (PBool b)"
| "from_plugin_value _ = None"

definition response_data_type :: "u8 \<Rightarrow> string" where
  "response_data_type b =
     (if b = 0 then ''float32'' else if b = 1 then ''float64'' else if b = 2 then ''int32''
      else if b = 3 then ''int64'' else ''unknown'')"

definition from_plugin_response :: "plugin_response \<Rightarrow> command_response" where
  "from_plugin_response presp =
     (let resp = default_response\<lparr>cr_command_id := c_str (pr_command_id presp),
            cr_instrument_name := c_str (pr_instrument_name presp),
            cr_success := pr_success presp,
            cr_error_code := pr_error_code presp,
            cr_error_message := c_str (pr_error_message presp),
            cr_text_response := c_str (pr_text_response presp),
            cr_return_value := (if pr_success presp then from_plugin_value (pr_return_value presp) else None),
            cr_has_large_data := pr_has_large_data presp\<rparr>
      in if pr_has_large_data presp
         then resp\<lparr>cr_buffer_id := c_str (pr_data_buffer_id presp),
                   cr_element_count := pr_data_element_count presp,
                   cr_data_type := response_data_type (pr_data_type presp)\<rparr>
         else resp)"

section \<open>State\<close>

record ('p, 'w) worker =
  wk_instrument_name :: string
  wk_plugin :: "'p plugin_loader"
  wk_plugin_state :: 'p
  wk_ipc_queue :: "shared_queue option"
  wk_waiting_sync_token :: "u64 option"
  wk_last_heartbeat :: int
  wk_running :: bool
  wk_shm :: 'w

text \<open>\<^verbatim>\<open>ipc_queue_->send(msg, timeout)\<close>; its answer is not looked at.\<close>

definition worker_send :: "'w mq_lib \<Rightarrow> ipc_message \<Rightarrow> int \<Rightarrow> ('p, 'w) worker \<Rightarrow> ('p, 'w) worker" where
  "worker_send mq msg timeout s =
     (case wk_ipc_queue s of
        None \<Rightarrow> s
      | Some q \<Rightarrow> s\<lparr>wk_shm := snd (send_msg mq msg timeout q (wk_shm s))\<rparr>)"

section \<open>Handlers\<close>

definition send_heartbeat_if_needed :: "'w mq_lib \<Rightarrow> int \<Rightarrow> ('p, 'w) worker \<Rightarrow> ('p, 'w) worker" where
  "send_heartbeat_if_needed mq now s =
     (if now - wk_last_heartbeat s \<ge> 500
      then (worker_send mq (new_message\<lparr>im_type := HEARTBEAT, im_id := 0, im_payload_size := 0\<rparr>) 100 s)
             \<lparr>wk_last_heartbeat := now\<rparr>
      else s)"

definition handle_shutdown :: "('p, 'w) worker \<Rightarrow> ('p, 'w) worker" where
  "handle_shutdown s = s\<lparr>wk_running := False\<rparr>"

definition handle_sync_continue :: "ipc_message \<Rightarrow> ('p, 'w) worker \<Rightarrow> ('p, 'w) worker" where
  "handle_sync_continue msg s =
     (if wk_waiting_sync_token s = Some (im_sync_token msg) then s\<lparr>wk_waiting_sync_token := None\<rparr> else s)"

definition response_message :: "ipc_message \<Rightarrow> serialized_command \<Rightarrow> string \<Rightarrow> ipc_message" where
  "response_message msg cmd resp_payload =
     put_payload resp_payload
       (new_message\<lparr>im_type := RESPONSE, im_id := im_id msg,
          im_sync_token := (case sc_sync_token cmd of None \<Rightarrow> 0 | Some t \<Rightarrow> t)\<rparr>)"

definition send_command_response ::
  "json_lib \<Rightarrow> 'w mq_lib \<Rightarrow> ipc_message \<Rightarrow> serialized_command \<Rightarrow> plugin_response \<Rightarrow> ('p, 'w) worker \<Rightarrow>
   ('p, 'w) worker result"
where
  "send_command_response L mq msg cmd plugin_resp s =
     bind_result (serialize_response L (from_plugin_response plugin_resp))
       (\<lambda>resp_payload. Inr (worker_send mq (response_message msg cmd resp_payload) 1000 s))"

definition sync_ack_message :: "ipc_message \<Rightarrow> u64 \<Rightarrow> ipc_message" where
  "sync_ack_message msg sync_token =
     new_message\<lparr>im_type := SYNC_ACK, im_id := im_id msg, im_sync_token := sync_token, im_payload_size := 0\<rparr>"

definition send_sync_ack :: "'w mq_lib \<Rightarrow> ipc_message \<Rightarrow> u64 \<Rightarrow> ('p, 'w) worker \<Rightarrow> ('p, 'w) worker" where
  "send_sync_ack mq msg sync_token s = worker_send mq (sync_ack_message msg sync_token) 1000 s"

text \<open>Reading beyond the payload array, which no sender of the program asks for, is an error here.\<close>

definition deserialize_command_from_msg :: "json_lib \<Rightarrow> nat \<Rightarrow> ipc_message \<Rightarrow> serialized_command result" where
  "deserialize_command_from_msg L now msg =
     (case read_payload msg of
        None \<Rightarrow> Inl ''payload out of bounds''
      | Some payload \<Rightarrow> deserialize_command L now payload)"

definition barrier_nop_response :: "serialized_command \<Rightarrow> plugin_response" where
  "barrier_nop_response cmd =
     zero_response\<lparr>pr_success := True,
       pr_command_id := strncpy0 PLUGIN_MAX_STRING_LEN (sc_id cmd),
       pr_instrument_name := strncpy0 PLUGIN_MAX_STRING_LEN (sc_instrument_name cmd),
       pr_text_response := strncpy0 PLUGIN_MAX_PAYLOAD ''BARRIER_NOP''\<rparr>"

text \<open>The plugin's part of \<^verbatim>\<open>handle_command\<close>: the response it leaves and the plugin's new state.\<close>

definition execute_in_plugin :: "serialized_command \<Rightarrow> ('p, 'w) worker \<Rightarrow> plugin_response \<times> 'p" where
  "execute_in_plugin cmd s =
     (if sc_verb cmd = ''__BARRIER_NOP__'' then (barrier_nop_response cmd, wk_plugin_state s)
      else case loader_execute_command (to_plugin_command cmd) zero_response (wk_plugin s) (wk_plugin_state s) of
          (exec_result, plugin_resp, p') \<Rightarrow> (plugin_resp, p'))"

definition handle_command ::
  "json_lib \<Rightarrow> 'w mq_lib \<Rightarrow> nat \<Rightarrow> ipc_message \<Rightarrow> ('p, 'w) worker \<Rightarrow> ('p, 'w) worker result"
where
  "handle_command L mq now msg s =
     bind_result (deserialize_command_from_msg L now msg) (\<lambda>cmd.
       let (plugin_resp, p') = execute_in_plugin cmd s;
           s1 = s\<lparr>wk_plugin_state := p'\<rparr>
       in bind_result (send_command_response L mq msg cmd plugin_resp s1) (\<lambda>s2.
          Inr (case sc_sync_token cmd of
                 None \<Rightarrow> s2
               | Some t \<Rightarrow>
                   let s3 = send_sync_ack mq msg t s2 in
                   if sc_is_sync_barrier cmd then s3\<lparr>wk_waiting_sync_token := Some t\<rparr> else s3)))"

definition process_message ::
  "json_lib \<Rightarrow> 'w mq_lib \<Rightarrow> nat \<Rightarrow> ipc_message \<Rightarrow> ('p, 'w) worker \<Rightarrow> ('p, 'w) worker result"
where
  "process_message L mq now msg s =
     (case im_type msg of
        SHUTDOWN \<Rightarrow> Inr (handle_shutdown s)
      | SYNC_CONTINUE \<Rightarrow> Inr (handle_sync_continue msg s)
      | COMMAND \<Rightarrow> if wk_waiting_sync_token s = None then handle_command L mq now msg s else Inr s
      | _ \<Rightarrow> Inr s)"

section \<open>The process\<close>

definition load_and_init_plugin :: "('p, 'w) worker \<Rightarrow> bool \<times> ('p, 'w) worker" where
  "load_and_init_plugin s =
     (if \<not> is_loaded (wk_plugin s) then (False, s)
      else
        let config = \<lparr>pf_instrument_name = strncpy0 PLUGIN_MAX_STRING_LEN (wk_instrument_name s),
                      pf_connection_json = strncpy0 PLUGIN_MAX_STRING_LEN ''{}'', pf_api_definition_json = []\<rparr>;
            (init_result, p') = loader_initialize config (wk_plugin s) (wk_plugin_state s)
        in (init_result = 0, s\<lparr>wk_plugin_state := p'\<rparr>))"

definition connect_ipc_queue :: "'w mq_lib \<Rightarrow> ('p, 'w) worker \<Rightarrow> bool result \<times> ('p, 'w) worker" where
  "connect_ipc_queue mq s =
     (case create_worker_queue mq (wk_instrument_name s) (wk_shm s) of
        Inl e \<Rightarrow> (Inl e, s)
      | Inr q \<Rightarrow>
          if \<not> is_valid q
          then (Inr False, s\<lparr>wk_ipc_queue := Some q,
                             wk_plugin_state := loader_shutdown (wk_plugin s) (wk_plugin_state s)\<rparr>)
          else (Inr True, s\<lparr>wk_ipc_queue := Some q\<rparr>))"

text \<open>One round of \<^verbatim>\<open>main_loop\<close>, at a clock reading; and the loop, for the readings of its rounds.\<close>

definition main_round :: "json_lib \<Rightarrow> 'w mq_lib \<Rightarrow> nat \<Rightarrow> ('p, 'w) worker \<Rightarrow> ('p, 'w) worker result" where
  "main_round L mq now s =
     (let s1 = send_heartbeat_if_needed mq (int now) s in
      case wk_ipc_queue s1 of
        None \<Rightarrow> Inr s1
      | Some q \<Rightarrow>
          (case receive_msg mq 100 q (wk_shm s1) of
             (None, w) \<Rightarrow> Inr (s1\<lparr>wk_shm := w\<rparr>)
           | (Some msg, w) \<Rightarrow> process_message L mq now msg (s1\<lparr>wk_shm := w\<rparr>)))"

fun main_loop :: "json_lib \<Rightarrow> 'w mq_lib \<Rightarrow> nat list \<Rightarrow> ('p, 'w) worker \<Rightarrow> ('p, 'w) worker result" where
  "main_loop L mq [] s = Inr s"
| "main_loop L mq (now # nows) s =
     (if wk_running s then bind_result (main_round L mq now s) (main_loop L mq nows) else Inr s)"

text \<open>What the worker has done when an exception leaves a round or the loop: the message is taken, and its command has run if it could be
  decoded.\<close>

definition round_left :: "json_lib \<Rightarrow> 'w mq_lib \<Rightarrow> nat \<Rightarrow> ('p, 'w) worker \<Rightarrow> ('p, 'w) worker" where
  "round_left L mq now s =
     (let s1 = send_heartbeat_if_needed mq (int now) s in
      case wk_ipc_queue s1 of
        None \<Rightarrow> s1
      | Some q \<Rightarrow>
          (case receive_msg mq 100 q (wk_shm s1) of
             (None, w) \<Rightarrow> s1\<lparr>wk_shm := w\<rparr>
           | (Some msg, w) \<Rightarrow>
               let s2 = s1\<lparr>wk_shm := w\<rparr> in
               case deserialize_command_from_msg L now msg of
                 Inl e \<Rightarrow> s2
               | Inr cmd \<Rightarrow> s2\<lparr>wk_plugin_state := snd (execute_in_plugin cmd s2)\<rparr>))"

fun loop_left :: "json_lib \<Rightarrow> 'w mq_lib \<Rightarrow> nat list \<Rightarrow> ('p, 'w) worker \<Rightarrow> ('p, 'w) worker" where
  "loop_left L mq [] s = s"
| "loop_left L mq (now # nows) s =
     (case main_round L mq now s of Inl e \<Rightarrow> round_left L mq now s | Inr s' \<Rightarrow> loop_left L mq nows s')"

definition worker_cleanup :: "('p, 'w) worker \<Rightarrow> ('p, 'w) worker" where
  "worker_cleanup s =
     s\<lparr>wk_plugin_state := loader_shutdown (wk_plugin s) (wk_plugin_state s), wk_ipc_queue := None\<rparr>"

text \<open>
  \<^verbatim>\<open>Instrument::run\<close> and the \<^verbatim>\<open>try\<close> block of \<^verbatim>\<open>main\<close> around it: the exit code, or
  \<^const>\<open>None\<close> while the loop is still running after the given rounds. The plugin's state is
  followed up to the end of \<^verbatim>\<open>run\<close>; the destructor of the loader shuts the plugin down once more.
\<close>

definition worker_run :: "json_lib \<Rightarrow> 'w mq_lib \<Rightarrow> nat list \<Rightarrow> ('p, 'w) worker \<Rightarrow> int option \<times> ('p, 'w) worker" where
  "worker_run L mq nows s =
     (case load_and_init_plugin s of
        (False, s1) \<Rightarrow> (Some 1, s1)
      | (True, s1) \<Rightarrow>
          (case connect_ipc_queue mq s1 of
             (Inl e, s2) \<Rightarrow> (Some 1, s2)
           | (Inr False, s2) \<Rightarrow> (Some 1, s2)
           | (Inr True, s2) \<Rightarrow>
               (case main_loop L mq nows s2 of
                  Inl e \<Rightarrow> (Some 1, loop_left L mq nows s2)
                | Inr s3 \<Rightarrow> if wk_running s3 then (None, s3) else (Some 0, worker_cleanup s3))))"

definition signal_handler :: "int \<Rightarrow> ('p, 'w) worker \<Rightarrow> ('p, 'w) worker" where
  "signal_handler sig s = s\<lparr>wk_running := False\<rparr>"

section \<open>Facts\<close>

lemma worker_send_simps [simp]:
  "wk_waiting_sync_token (worker_send mq m t s) = wk_waiting_sync_token s"
  "wk_running (worker_send mq m t s) = wk_running s"
  "wk_ipc_queue (worker_send mq m t s) = wk_ipc_queue s"
  "wk_plugin (worker_send mq m t s) = wk_plugin s"
  "wk_plugin_state (worker_send mq m t s) = wk_plugin_state s"
  "wk_instrument_name (worker_send mq m t s) = wk_instrument_name s"
  "wk_last_heartbeat (worker_send mq m t s) = wk_last_heartbeat s"
  by (simp_all add: worker_send_def split: option.split)

lemma worker_send_view:
  assumes "mq_lib_ok mq view" and "wk_ipc_queue s = Some (worker_end i)"
    and "view (wk_shm s) (resp_of i) = Some (c, ms)" and "length ms < c"
  shows "view (wk_shm (worker_send mq m t s)) = (view (wk_shm s))(resp_of i \<mapsto> (c, ms @ [m]))"
  using send_msg_ok [OF assms(1), of "worker_end i" "resp_of i" "wk_shm s" c ms m t] assms(2-4)
  by (simp add: worker_send_def)

lemma handle_command_waiting:
  assumes "handle_command L mq now msg s = Inr s'"
  shows "wk_waiting_sync_token s' = wk_waiting_sync_token s"
proof -
  from assms obtain cmd payload where cmd: "deserialize_command L now payload = Inr cmd"
      "deserialize_command_from_msg L now msg = Inr cmd"
    by (auto simp: handle_command_def bind_result_Inr_iff deserialize_command_from_msg_def split: option.splits)
  have nb: "\<not> sc_is_sync_barrier cmd"
    using deserialize_command_no_barrier [OF cmd(1)] .
  show ?thesis
    using assms cmd(2) nb
    by (auto simp: handle_command_def bind_result_Inr_iff send_command_response_def send_sync_ack_def
        Let_def case_prod_unfold split: option.splits)
qed

lemma process_message_never_waits:
  assumes "wk_waiting_sync_token s = None" and "process_message L mq now msg s = Inr s'"
  shows "wk_waiting_sync_token s' = None"
  using assms handle_command_waiting [of L mq now msg s s']
  by (auto simp: process_message_def handle_shutdown_def handle_sync_continue_def split: msg_type.splits)

lemma main_round_never_waits:
  assumes "wk_waiting_sync_token s = None" and "main_round L mq now s = Inr s'"
  shows "wk_waiting_sync_token s' = None"
proof -
  have "wk_waiting_sync_token (send_heartbeat_if_needed mq (int now) s) = None"
    using assms(1) by (simp add: send_heartbeat_if_needed_def)
  then show ?thesis
    using assms(2)
    by (auto simp: main_round_def Let_def dest: process_message_never_waits [rotated]
        split: option.splits prod.splits)
qed

section \<open>What the plugin receives\<close>

text \<open>
  The command a plugin has to be given when the proxy was asked to send \<open>verb\<close> with the parameters \<open>ps\<close> to the instrument
  \<open>inst\<close> under the identifier \<open>cid\<close>, written without the conversions of the worker: its texts are those of the command up to
  127 characters or their first NUL; the parameters are distinct ones of the command with their values, and as many as there
  are, up to sixteen; a string value is cut as well and an array arrives as an entry without a value. Doubles that are not
  finite do not survive the wire.
\<close>

definition plugin_text :: "string \<Rightarrow> string" where
  "plugin_text s = take 127 (takeWhile (\<lambda>c. c \<noteq> CHR 0x00) s)"

fun value_received :: "param_value \<Rightarrow> plugin_param_value \<Rightarrow> bool" where
  "value_received (PDouble d) v \<longleftrightarrow> v = PARAM_TYPE_DOUBLE d"
| "value_received (PInt64 n) v \<longleftrightarrow> v = PARAM_TYPE_INT64 n"
| "value_received (PString s) v \<longleftrightarrow> v = PARAM_TYPE_STRING (plugin_text s)"
| "value_received (PBool b) v \<longleftrightarrow> v = PARAM_TYPE_BOOL b"
| "value_received (PArray ds) v \<longleftrightarrow> v = PARAM_TYPE_NONE"

definition wire_params :: "(string, param_value) umap \<Rightarrow> string \<Rightarrow> param_value option" where
  "wire_params ps = (\<lambda>k. Option.bind (map_of ps k) param_on_wire)"

definition param_received :: "(string, param_value) umap \<Rightarrow> string \<Rightarrow> plugin_param \<Rightarrow> bool" where
  "param_received ps k p \<longleftrightarrow>
     (\<exists>v. wire_params ps k = Some v \<and> pp_name p = plugin_text k \<and> value_received v (pp_value p))"

definition plugin_receives ::
  "string \<Rightarrow> string \<Rightarrow> string \<Rightarrow> (string, param_value) umap \<Rightarrow> bool \<Rightarrow> plugin_command \<Rightarrow> bool"
where
  "plugin_receives cid inst verb ps expects pc \<longleftrightarrow>
     pc_id pc = plugin_text cid \<and> pc_instrument_name pc = plugin_text inst \<and> pc_verb pc = plugin_text verb \<and>
     pc_expects_response pc = expects \<and> unat (pc_param_count pc) = length (pc_params pc) \<and>
     length (pc_params pc) = min 16 (card (dom (wire_params ps))) \<and>
     (\<exists>ks. distinct ks \<and> list_all2 (param_received ps) ks (pc_params pc))"

lemma plugin_text_strncpy0: "strncpy0 PLUGIN_MAX_STRING_LEN s = plugin_text s"
  by (simp add: strncpy0_def c_str_def plugin_text_def PLUGIN_MAX_STRING_LEN_def)

lemma value_received_to_plugin [simp]: "value_received v (to_plugin_value v)"
  by (cases v) (simp_all add: plugin_text_strncpy0)

text \<open>The worker converts a decoded command to such a plugin command.\<close>

lemma to_plugin_command_received:
  assumes "umap_ok (sc_params d)" and "map_of (sc_params d) = wire_params ps"
  shows "plugin_receives (sc_id d) (sc_instrument_name d) (sc_verb d) ps (sc_expects_response d) (to_plugin_command d)"
proof -
  let ?ps = "take 16 (sc_params d)"
  have dist: "distinct (map fst (sc_params d))" using assms(1) by (simp add: umap_ok_def)
  have params: "pc_params (to_plugin_command d) = map (\<lambda>(k, v). \<lparr>pp_name = plugin_text k, pp_value = to_plugin_value v\<rparr>) ?ps"
    by (simp add: to_plugin_command_def to_plugin_params_def PLUGIN_MAX_PARAMS_def plugin_text_strncpy0)
  have "param_received ps k \<lparr>pp_name = plugin_text k, pp_value = to_plugin_value v\<rparr>" if "(k, v) \<in> set ?ps" for k v
    using that assms umap_ok_lookup [OF assms(1)] by (auto simp: param_received_def dest!: in_set_takeD)
  then have "list_all2 (param_received ps) (map fst qs) (map (\<lambda>(k, v). \<lparr>pp_name = plugin_text k, pp_value = to_plugin_value v\<rparr>) qs)"
      if "set qs \<subseteq> set ?ps" for qs
    using that by (induction qs) auto
  then have "list_all2 (param_received ps) (map fst ?ps) (pc_params (to_plugin_command d))" by (simp add: params)
  moreover have "distinct (map fst ?ps)" using dist by (metis distinct_take take_map)
  moreover have "card (dom (wire_params ps)) = length (sc_params d)"
    using distinct_card [OF dist] by (simp add: dom_map_of_conv_image_fst flip: assms(2))
  moreover have "length (pc_params (to_plugin_command d)) = min 16 (length (sc_params d))" by (simp add: params min.commute)
  moreover from this have "unat (pc_param_count (to_plugin_command d)) = length (pc_params (to_plugin_command d))"
    by (simp add: to_plugin_command_def unat_of_nat)
  ultimately show ?thesis
    unfolding plugin_receives_def by (auto simp: to_plugin_command_def plugin_text_strncpy0)
qed

text \<open>Up to sixteen parameters that survive the wire all reach the plugin.\<close>

lemma plugin_receives_all:
  assumes "plugin_receives cid inst verb ps expects pc" and "card (dom (wire_params ps)) \<le> 16" and "k \<in> dom (wire_params ps)"
  shows "\<exists>p \<in> set (pc_params pc). param_received ps k p"
proof -
  obtain ks where ks: "distinct ks" "list_all2 (param_received ps) ks (pc_params pc)"
      "length (pc_params pc) = card (dom (wire_params ps))"
    using assms(1,2) by (auto simp: plugin_receives_def)
  have "set ks \<subseteq> dom (wire_params ps)"
    using ks(2) by (fastforce simp: list_all2_conv_all_nth in_set_conv_nth param_received_def)
  moreover have "finite (dom (wire_params ps))"
    by (rule finite_subset [of _ "dom (map_of ps)"]) (auto simp: wire_params_def finite_dom_map_of bind_eq_Some_conv)
  moreover have "card (set ks) = card (dom (wire_params ps))"
    using ks distinct_card [OF ks(1)] list_all2_lengthD [OF ks(2)] by simp
  ultimately have "k \<in> set ks" using assms(3) card_subset_eq by blast
  then obtain n where "n < length ks" "k = ks ! n" by (auto simp: in_set_conv_nth)
  then show ?thesis using ks(2) by (intro bexI [of _ "pc_params pc ! n"]) (auto simp: list_all2_conv_all_nth)
qed

text \<open>What a plugin goes through: the commands it is given one after the other, with its responses, from one state to
  another.\<close>

fun plugin_trace :: "'p plugin_loader \<Rightarrow> 'p \<Rightarrow> (plugin_command \<times> plugin_response) list \<Rightarrow> 'p \<Rightarrow> bool" where
  "plugin_trace ld p [] p' \<longleftrightarrow> p' = p"
| "plugin_trace ld p ((pc, presp) # xs) p' \<longleftrightarrow>
     (\<exists>code q. loader_execute_command pc zero_response ld p = (code, presp, q) \<and> plugin_trace ld q xs p')"

lemma plugin_trace_append:
  "plugin_trace ld p (xs @ ys) p' \<longleftrightarrow> (\<exists>q. plugin_trace ld p xs q \<and> plugin_trace ld q ys p')"
  by (induction ld p xs p' rule: plugin_trace.induct) auto

lemma execute_in_plugin_trace:
  assumes "execute_in_plugin d s = (presp, p')"
  shows "if sc_verb d = ''__BARRIER_NOP__'' then presp = barrier_nop_response d \<and> p' = wk_plugin_state s
    else plugin_trace (wk_plugin s) (wk_plugin_state s) [(to_plugin_command d, presp)] p'"
  using assms by (auto simp: execute_in_plugin_def split: prod.splits)

section \<open>Properties\<close>

text \<open>C31: A defect. The protocol of the documentation (step 4 of \<^verbatim>\<open>docs/SYNCHRONIZATION.md\<close>) and the comments of \<^verbatim>\<open>handle_command\<close> have a
  worker block after the last command of a token until it gets \<^verbatim>\<open>SYNC_CONTINUE\<close>. It never does: no command that a worker
  decodes, from whatever text, carries the barrier mark, which the wire encoding leaves out; so after any number of rounds, whatever
  messages arrived, the worker is not waiting for a token and takes the next command at once.\<close>

theorem worker_never_waits:
  assumes "wk_waiting_sync_token s = None" and "main_loop L mq nows s = Inr s'"
  shows "wk_waiting_sync_token s' = None \<and>
    (\<forall>now text d. deserialize_command L now text = Inr d \<longrightarrow> \<not> sc_is_sync_barrier d) \<and>
    (\<forall>msg now. im_type msg = COMMAND \<longrightarrow> process_message L mq now msg s' = handle_command L mq now msg s')"
proof -
  have "wk_waiting_sync_token s' = None"
    using assms
  proof (induction nows arbitrary: s)
    case (Cons now nows)
    then show ?case
      by (auto simp: bind_result_Inr_iff dest: main_round_never_waits [rotated] split: if_splits)
  qed simp
  then show ?thesis using deserialize_command_no_barrier by (simp add: process_message_def)
qed

lemma process_command_answers:
  assumes "mq_lib_ok mq view" and "wk_ipc_queue s = Some (worker_end i)"
    and "view (wk_shm s) (resp_of i) = Some (c, ms)" and "length ms + 2 \<le> c"
    and "wk_waiting_sync_token s = None" and "im_type msg = COMMAND"
    and "deserialize_command_from_msg L now msg = Inr cmd"
    and "execute_in_plugin cmd s = (presp, p')"
    and "serialize_response L (from_plugin_response presp) = Inr text"
  shows "\<exists>s' resp. process_message L mq now msg s = Inr s' \<and> wk_plugin_state s' = p' \<and>
    im_type resp = RESPONSE \<and> im_id resp = im_id msg \<and>
    read_payload resp = Some (take IPC_MAX_PAYLOAD text) \<and>
    view (wk_shm s') = (view (wk_shm s))(resp_of i \<mapsto> (c, ms @ [resp] @
      (case sc_sync_token cmd of None \<Rightarrow> [] | Some t \<Rightarrow> [sync_ack_message msg t])))"
proof -
  let ?resp = "response_message msg cmd text"
  let ?s1 = "s\<lparr>wk_plugin_state := p'\<rparr>"
  let ?s2 = "worker_send mq ?resp 1000 ?s1"
  have nb: "\<not> sc_is_sync_barrier cmd"
    using assms(7) deserialize_command_no_barrier
    by (auto simp: deserialize_command_from_msg_def split: option.splits)
  have v2: "view (wk_shm ?s2) = (view (wk_shm s))(resp_of i \<mapsto> (c, ms @ [?resp]))"
    using worker_send_view [OF assms(1), of ?s1 i c ms ?resp 1000] assms(2-4) by simp
  have p: "process_message L mq now msg s =
      Inr (case sc_sync_token cmd of None \<Rightarrow> ?s2 | Some t \<Rightarrow> worker_send mq (sync_ack_message msg t) 1000 ?s2)"
    using assms(5-9) nb
    by (simp add: process_message_def handle_command_def send_command_response_def send_sync_ack_def Let_def
        split: option.split)
  have v3: "view (wk_shm (worker_send mq (sync_ack_message msg t) 1000 ?s2)) =
      (view (wk_shm s))(resp_of i \<mapsto> (c, ms @ [?resp, sync_ack_message msg t]))" for t
    using worker_send_view [OF assms(1), of ?s2 i c "ms @ [?resp]" "sync_ack_message msg t" 1000] assms(2,4) v2
    by simp
  have "im_type ?resp = RESPONSE" "im_id ?resp = im_id msg" "read_payload ?resp = Some (take IPC_MAX_PAYLOAD text)"
    by (simp_all add: response_message_def) (simp add: read_put_payload new_message_def)
  with p v2 v3 show ?thesis
    by (cases "sc_sync_token cmd") (auto intro!: exI [of _ ?resp])
qed

text \<open>A command message is answered: when it decodes, and the response queue has room, the worker
  appends to its response queue exactly one \<^verbatim>\<open>RESPONSE\<close> with the message's identifier, carrying the
  first 4096 characters of the encoded plugin response, followed by one \<^verbatim>\<open>SYNC_ACK\<close> with the token if
  the command has one; the plugin ran exactly this command (or nothing, for the synthetic barrier
  command), and no other queue changes.\<close>

theorem command_answered:
  assumes "mq_lib_ok mq view" and "wk_ipc_queue s = Some (worker_end i)"
    and "view (wk_shm s) (resp_of i) = Some (c, ms)" and "length ms + 2 \<le> c"
    and "wk_waiting_sync_token s = None" and "im_type msg = COMMAND"
    and "deserialize_command_from_msg L now msg = Inr cmd"
    and "execute_in_plugin cmd s = (presp, p')"
    and "serialize_response L (from_plugin_response presp) = Inr text"
  shows "\<exists>s' resp. process_message L mq now msg s = Inr s' \<and> wk_plugin_state s' = p' \<and>
    im_type resp = RESPONSE \<and> im_id resp = im_id msg \<and>
    read_payload resp = Some (take IPC_MAX_PAYLOAD text) \<and>
    view (wk_shm s') = (view (wk_shm s))(resp_of i \<mapsto> (c, ms @ [resp] @
      (case sc_sync_token cmd of None \<Rightarrow> [] | Some t \<Rightarrow> [sync_ack_message msg t])))"
  using assms by (rule process_command_answers)

text \<open>C34: What the worker hands to the plugin stays inside the C structure: at most 16 parameters, the
  count says how many, and every text is shorter than its 128-byte array, for any command.\<close>

theorem plugin_command_bounds:
  "length (pc_params (to_plugin_command cmd)) \<le> 16 \<and>
   unat (pc_param_count (to_plugin_command cmd)) = length (pc_params (to_plugin_command cmd)) \<and>
   length (pc_id (to_plugin_command cmd)) < 128 \<and> length (pc_verb (to_plugin_command cmd)) < 128 \<and>
   length (pc_instrument_name (to_plugin_command cmd)) < 128 \<and>
   (\<forall>p \<in> set (pc_params (to_plugin_command cmd)). length (pp_name p) < 128 \<and>
      (case pp_value p of PARAM_TYPE_STRING t \<Rightarrow> length t < 128 | _ \<Rightarrow> True))"
proof -
  have n: "length (to_plugin_params ps) \<le> 16" for ps
    by (simp add: to_plugin_params_def PLUGIN_MAX_PARAMS_def)
  have "length (pp_name p) < 128 \<and> (case pp_value p of PARAM_TYPE_STRING t \<Rightarrow> length t < 128 | _ \<Rightarrow> True)"
    if mem: "p \<in> set (to_plugin_params ps)" for p ps
  proof -
    obtain k v where "p = \<lparr>pp_name = strncpy0 PLUGIN_MAX_STRING_LEN k, pp_value = to_plugin_value v\<rparr>"
      using mem by (auto simp: to_plugin_params_def)
    then show ?thesis
      using strncpy0_length [of PLUGIN_MAX_STRING_LEN]
      by (cases v) (auto simp: PLUGIN_MAX_STRING_LEN_def)
  qed
  moreover have "unat (of_nat (length (to_plugin_params ps)) :: u32) = length (to_plugin_params ps)" for ps
    using n [of ps] by (simp add: unat_of_nat)
  ultimately show ?thesis
    using n strncpy0_length [of PLUGIN_MAX_STRING_LEN]
    by (simp add: to_plugin_command_def PLUGIN_MAX_STRING_LEN_def)
qed

section \<open>Witnesses\<close>

definition demo_nop :: serialized_command where
  "demo_nop = default_command\<lparr>sc_id := ''dmm-1'', sc_instrument_name := ''dmm'',
     sc_verb := ''__BARRIER_NOP__'', sc_sync_token := Some 3, sc_is_sync_barrier := True\<rparr>"

definition demo_lib :: json_lib where
  "demo_lib = docs_lib [command_to_json demo_nop,
     response_to_json (from_plugin_response (barrier_nop_response demo_nop))]"

definition demo_msg :: ipc_message where
  "demo_msg = put_payload ''0'' (new_message\<lparr>im_id := 1, im_sync_token := 3\<rparr>)"

definition demo_worker :: "(unit, queues) worker" where
  "demo_worker = \<lparr>wk_instrument_name = ''dmm'',
     wk_plugin = \<lparr>ld_handle = True, ld_plugin_path = ''/p/serial.so'', ld_error_message = [], ld_symbols = demo_symbols\<rparr>,
     wk_plugin_state = (), wk_ipc_queue = Some (worker_end ''dmm''), wk_waiting_sync_token = None,
     wk_last_heartbeat = 0, wk_running = True,
     wk_shm = [req_of ''dmm'' \<mapsto> (100, [demo_msg]), resp_of ''dmm'' \<mapsto> (100, [])]\<rparr>"

lemma demo_lib_simps:
  "json_lib_ok demo_lib" "serialize_command demo_lib demo_nop = Inr ''0''"
  "\<exists>t. serialize_response demo_lib (from_plugin_response (barrier_nop_response demo_nop)) = Inr t"
proof -
  have "show_nat 0 = ''0''" by code_simp
  then show "serialize_command demo_lib demo_nop = Inr ''0''"
    by (simp add: serialize_command_def demo_lib_def)
  show "\<exists>t. serialize_response demo_lib (from_plugin_response (barrier_nop_response demo_nop)) = Inr t"
    unfolding serialize_response_def demo_lib_def by (rule docs_lib_dump_in) simp
qed (simp add: demo_lib_def)

lemma demo_decodes:
  "\<exists>ps. deserialize_command_from_msg demo_lib now demo_msg =
    Inr (demo_nop\<lparr>sc_params := ps, sc_created_at := now, sc_is_sync_barrier := False\<rparr>)"
proof -
  have "umap_ok (sc_params demo_nop)" "arrays_finite (sc_params demo_nop)"
    by (simp_all add: demo_nop_def default_command_def arrays_finite_def)
  then obtain ps where "json_to_command demo_lib now (json_norm (command_to_json demo_nop)) =
      Inr (demo_nop\<lparr>sc_params := ps, sc_created_at := now, sc_is_sync_barrier := False\<rparr>)"
    using command_json_roundtrip by blast
  moreover have "jl_parse demo_lib ''0'' = Inr (json_norm (command_to_json demo_nop))"
    using demo_lib_simps(1,2) json_lib_okD by (simp add: serialize_command_def)
  moreover have "read_payload demo_msg = Some ''0''"
    unfolding demo_msg_def by (subst read_put_payload) (simp_all add: new_message_def IPC_MAX_PAYLOAD_def)
  ultimately show ?thesis
    by (auto simp: deserialize_command_from_msg_def deserialize_command_def)
qed

theorem command_answered_witness:
  "\<exists>s' resp. process_message demo_lib list_mq 9 demo_msg demo_worker = Inr s' \<and> im_type resp = RESPONSE \<and>
     wk_shm s' (resp_of ''dmm'') = Some (100, [resp, sync_ack_message demo_msg 3])"
proof -
  obtain ps where d: "deserialize_command_from_msg demo_lib 9 demo_msg =
      Inr (demo_nop\<lparr>sc_params := ps, sc_created_at := 9, sc_is_sync_barrier := False\<rparr>)"
    using demo_decodes by blast
  obtain t where t: "serialize_response demo_lib (from_plugin_response (barrier_nop_response demo_nop)) = Inr t"
    using demo_lib_simps(3) by blast
  let ?cmd = "demo_nop\<lparr>sc_params := ps, sc_created_at := 9, sc_is_sync_barrier := False\<rparr>"
  have e: "execute_in_plugin ?cmd demo_worker = (barrier_nop_response demo_nop, ())"
    by (simp add: execute_in_plugin_def demo_nop_def barrier_nop_response_def)
  have c: "im_type demo_msg = COMMAND" by (simp add: demo_msg_def new_message_def)
  show ?thesis
    using command_answered [OF list_mq_ok _ _ _ _ c d e t, of "''dmm''" 100 "[]"]
    by (auto simp: demo_worker_def demo_nop_def)
qed

text \<open>The request queue of the example worker holds a command that was sent with the barrier mark.\<close>

lemma demo_round: "\<exists>s'. main_loop demo_lib list_mq [9] demo_worker = Inr s'"
proof -
  let ?w = "[req_of ''dmm'' \<mapsto> (100, []), resp_of ''dmm'' \<mapsto> (100, [])]"
  have r: "receive_msg list_mq 100 (worker_end ''dmm'') (wk_shm demo_worker) = (Some demo_msg, ?w)"
    using queue_name_inject(3) [of "''dmm''" "''dmm''"]
    by (simp add: receive_msg_def list_mq_def demo_worker_def fun_upd_twist)
  obtain ps where d: "deserialize_command_from_msg demo_lib 9 demo_msg =
      Inr (demo_nop\<lparr>sc_params := ps, sc_created_at := 9, sc_is_sync_barrier := False\<rparr>)"
    using demo_decodes by blast
  obtain t where "serialize_response demo_lib (from_plugin_response (barrier_nop_response demo_nop)) = Inr t"
    using demo_lib_simps(3) by blast
  moreover have "execute_in_plugin (demo_nop\<lparr>sc_params := ps, sc_created_at := 9, sc_is_sync_barrier := False\<rparr>) s =
      (barrier_nop_response demo_nop, wk_plugin_state s)" for s :: "(unit, queues) worker"
    by (simp add: execute_in_plugin_def demo_nop_def barrier_nop_response_def)
  moreover have "im_type demo_msg = COMMAND" by (simp add: demo_msg_def new_message_def)
  ultimately have "\<exists>s'. process_message demo_lib list_mq 9 demo_msg (demo_worker\<lparr>wk_shm := ?w\<rparr>) = Inr s'"
    using d by (simp add: process_message_def handle_command_def send_command_response_def Let_def demo_worker_def)
  moreover have "send_heartbeat_if_needed list_mq 9 demo_worker = demo_worker" "wk_ipc_queue demo_worker = Some (worker_end ''dmm'')"
      "wk_running demo_worker"
    by (simp_all add: send_heartbeat_if_needed_def demo_worker_def)
  ultimately show ?thesis using r by (simp add: main_round_def bind_result_Inr_iff)
qed

theorem worker_never_waits_witness:
  "\<exists>s'. main_loop demo_lib list_mq [9] demo_worker = Inr s' \<and> wk_waiting_sync_token s' = None \<and>
     sc_is_sync_barrier demo_nop \<and> (\<forall>now d. deserialize_command demo_lib now ''0'' = Inr d \<longrightarrow> \<not> sc_is_sync_barrier d)"
proof -
  obtain s' where s': "main_loop demo_lib list_mq [9] demo_worker = Inr s'" using demo_round by blast
  moreover have "wk_waiting_sync_token demo_worker = None" by (simp add: demo_worker_def)
  ultimately show ?thesis
    using worker_never_waits [of demo_worker demo_lib list_mq "[9]" s'] demo_lib_simps(2) by (auto simp: demo_nop_def)
qed

theorem plugin_command_bounds_witness:
  "length (pc_params (to_plugin_command (default_command\<lparr>sc_params := replicate 40 (''k'', PBool True)\<rparr>))) \<le> 16"
  using plugin_command_bounds [of "default_command\<lparr>sc_params := replicate 40 (''k'', PBool True)\<rparr>"] by simp

end
