(* ===== verification/Process_Manager.thy ===== *)
theory Process_Manager
  imports Prelude
begin

text \<open>
  \<^verbatim>\<open>ProcessManager\<close> (\<^verbatim>\<open>src/ipc/ProcessManager.cpp\<close>, the POSIX branch): the worker processes the server
  has spawned, their heartbeats and the monitor that finds dead ones. The three system calls it uses
  act on the state of the operating system, of type \<open>'o\<close>, and are an argument of the model;
  clock readings are arguments too. What the code relies on are the named hypotheses \<open>os_lib_ok\<close> and, where
  it kills, \<open>kill_takes_effect\<close>.
\<close>

type_synonym pid = int

record 'o os_lib =
  os_spawn :: "string list \<Rightarrow> 'o \<Rightarrow> pid option \<times> 'o"  \<comment> \<open>\<^verbatim>\<open>posix_spawnp\<close>; \<^const>\<open>None\<close> for a status other than 0\<close>
  os_kill :: "pid \<Rightarrow> bool \<Rightarrow> 'o \<Rightarrow> bool \<times> 'o"  \<comment> \<open>\<^verbatim>\<open>kill\<close> with SIGKILL (true) or SIGTERM, whether it returned 0\<close>
  os_waitpid_running :: "pid \<Rightarrow> 'o \<Rightarrow> bool \<times> 'o"  \<comment> \<open>\<^verbatim>\<open>waitpid(.., WNOHANG) == 0\<close>\<close>

text \<open>
  Documented behaviour, over the set of running children, which may exit by themselves at any
  time: a spawned process has a positive process identifier that no running child has, no other call
  starts a process, and \<^verbatim>\<open>waitpid\<close> tells whether the child runs.
\<close>

definition os_lib_ok :: "'o os_lib \<Rightarrow> ('o \<Rightarrow> pid set) \<Rightarrow> bool" where
  "os_lib_ok os children \<longleftrightarrow>
     (\<forall>args w pid w'. os_spawn os args w = (Some pid, w') \<longrightarrow>
        0 < pid \<and> pid \<notin> children w \<and> children w' \<subseteq> insert pid (children w)) \<and>
     (\<forall>args w w'. os_spawn os args w = (None, w') \<longrightarrow> children w' \<subseteq> children w) \<and>
     (\<forall>pid force w. children (snd (os_kill os pid force w)) \<subseteq> children w) \<and>
     (\<forall>pid w. fst (os_waitpid_running os pid w) = (pid \<in> children (snd (os_waitpid_running os pid w)))) \<and>
     (\<forall>pid w. children (snd (os_waitpid_running os pid w)) \<subseteq> children w)"

text \<open>
  SIGKILL takes effect in its own time. The server may signal its children, so \<^verbatim>\<open>kill\<close> of a running one
  succeeds; the child may go on running after \<^verbatim>\<open>kill\<close> has returned, but the signal cannot be caught: \<open>left w pid\<close> is
  how many more polls a killed child can still be found running, at most \<open>k\<close> right after the signal and one less with each poll
  that finds it running.
\<close>

definition kill_takes_effect ::
  "'o os_lib \<Rightarrow> ('o \<Rightarrow> pid set) \<Rightarrow> ('o \<Rightarrow> pid \<Rightarrow> nat option) \<Rightarrow> nat \<Rightarrow> bool"
where
  "kill_takes_effect os children left k \<longleftrightarrow>
     (\<forall>pid w. pid \<in> children w \<longrightarrow> fst (os_kill os pid True w)) \<and>
     (\<forall>pid w w'. os_kill os pid True w = (True, w') \<longrightarrow> pid \<in> children w' \<longrightarrow> (\<exists>n \<le> k. left w' pid = Some n)) \<and>
     (\<forall>pid w r w' n. os_waitpid_running os pid w = (r, w') \<longrightarrow> left w pid = Some n \<longrightarrow> pid \<in> children w' \<longrightarrow>
        (\<exists>n' < n. left w' pid = Some n'))"

record process_info =
  pi_pid :: pid
  pi_handle :: pid
  pi_instrument_name :: string
  pi_plugin_path :: string
  pi_started_at :: u64
  pi_is_alive :: bool
  pi_last_heartbeat :: u64  \<comment> \<open>nanoseconds\<close>

record 'o process_manager =
  pm_processes :: "(pid, process_info) umap"
  pm_monitor_running :: bool
  pm_heartbeat_timeout :: int  \<comment> \<open>milliseconds\<close>
  pm_os :: 'o

definition new_process_manager :: "'o \<Rightarrow> 'o process_manager" where
  "new_process_manager w =
     \<lparr>pm_processes = [], pm_monitor_running = False, pm_heartbeat_timeout = 10000, pm_os = w\<rparr>"

section \<open>Operations\<close>

definition spawn_process_impl :: "'o os_lib \<Rightarrow> string list \<Rightarrow> 'o \<Rightarrow> pid \<times> 'o" where
  "spawn_process_impl os args w =
     (case os_spawn os args w of (None, w') \<Rightarrow> (0, w') | (Some pid, w') \<Rightarrow> (pid, w'))"

definition kill_process_impl :: "'o os_lib \<Rightarrow> pid \<Rightarrow> bool \<Rightarrow> 'o \<Rightarrow> bool \<times> 'o" where
  "kill_process_impl os handle force w = os_kill os handle force w"

definition is_alive_impl :: "'o os_lib \<Rightarrow> pid \<Rightarrow> 'o \<Rightarrow> bool \<times> 'o" where
  "is_alive_impl os handle w = os_waitpid_running os handle w"

definition spawn_worker ::
  "'o os_lib \<Rightarrow> u64 \<Rightarrow> string \<Rightarrow> string \<Rightarrow> string \<Rightarrow> 'o process_manager \<Rightarrow> pid \<times> 'o process_manager"
where
  "spawn_worker os now instrument_name plugin_path worker_executable m =
     (case spawn_process_impl os [worker_executable, instrument_name, plugin_path] (pm_os m) of
        (pid, w) \<Rightarrow>
          if pid = 0 then (0, m\<lparr>pm_os := w\<rparr>)
          else (pid, m\<lparr>pm_os := w, pm_processes := umap_put pid
            \<lparr>pi_pid = pid, pi_handle = pid, pi_instrument_name = instrument_name,
             pi_plugin_path = plugin_path, pi_started_at = now, pi_is_alive = True,
             pi_last_heartbeat = now\<rparr> (pm_processes m)\<rparr>))"

definition process_is_alive :: "'o os_lib \<Rightarrow> pid \<Rightarrow> 'o process_manager \<Rightarrow> bool \<times> 'o process_manager" where
  "process_is_alive os pid m =
     (case map_of (pm_processes m) pid of
        None \<Rightarrow> (False, m)
      | Some info \<Rightarrow>
          (case is_alive_impl os (pi_handle info) (pm_os m) of (b, w) \<Rightarrow> (b, m\<lparr>pm_os := w\<rparr>)))"

definition kill_process :: "'o os_lib \<Rightarrow> pid \<Rightarrow> bool \<Rightarrow> 'o process_manager \<Rightarrow> bool \<times> 'o process_manager" where
  "kill_process os pid force m =
     (case map_of (pm_processes m) pid of
        None \<Rightarrow> (False, m)
      | Some info \<Rightarrow>
          (case kill_process_impl os (pi_handle info) force (pm_os m) of
             (result, w) \<Rightarrow>
               (result,
                if result then m\<lparr>pm_os := w, pm_processes := umap_put pid (info\<lparr>pi_is_alive := False\<rparr>) (pm_processes m)\<rparr>
                else m\<lparr>pm_os := w\<rparr>)))"

text \<open>The polling loop: \<open>polls\<close> is how often the clock is still before the deadline.\<close>

fun wait_for_exit :: "'o os_lib \<Rightarrow> nat \<Rightarrow> pid \<Rightarrow> 'o process_manager \<Rightarrow> bool \<times> 'o process_manager" where
  "wait_for_exit os 0 pid m = (False, m)"
| "wait_for_exit os (Suc polls) pid m =
     (case process_is_alive os pid m of
        (False, m') \<Rightarrow> (True, m')
      | (True, m') \<Rightarrow> wait_for_exit os polls pid m')"

definition get_process_info :: "pid \<Rightarrow> 'o process_manager \<Rightarrow> process_info option" where
  "get_process_info pid m = map_of (pm_processes m) pid"

definition list_processes :: "'o process_manager \<Rightarrow> pid list" where
  "list_processes m = umap_keys (pm_processes m)"

definition cleanup_one :: "'o os_lib \<Rightarrow> nat \<Rightarrow> pid \<Rightarrow> 'o process_manager \<Rightarrow> 'o process_manager" where
  "cleanup_one os polls pid m = snd (wait_for_exit os polls pid (snd (kill_process os pid True m)))"

definition cleanup_all :: "'o os_lib \<Rightarrow> nat \<Rightarrow> 'o process_manager \<Rightarrow> 'o process_manager" where
  "cleanup_all os polls m = (fold (cleanup_one os polls) (list_processes m) m)\<lparr>pm_processes := []\<rparr>"

definition start_heartbeat_monitor :: "int \<Rightarrow> 'o process_manager \<Rightarrow> 'o process_manager" where
  "start_heartbeat_monitor interval m =
     (if pm_monitor_running m then m
      else m\<lparr>pm_heartbeat_timeout := interval * 2, pm_monitor_running := True\<rparr>)"

definition stop_heartbeat_monitor :: "'o process_manager \<Rightarrow> 'o process_manager" where
  "stop_heartbeat_monitor m = (if pm_monitor_running m then m\<lparr>pm_monitor_running := False\<rparr> else m)"

definition update_heartbeat :: "u64 \<Rightarrow> pid \<Rightarrow> 'o process_manager \<Rightarrow> 'o process_manager" where
  "update_heartbeat now pid m =
     (case map_of (pm_processes m) pid of
        None \<Rightarrow> m
      | Some info \<Rightarrow> m\<lparr>pm_processes := umap_put pid (info\<lparr>pi_last_heartbeat := now\<rparr>) (pm_processes m)\<rparr>)"

text \<open>
  One round of \<^verbatim>\<open>heartbeat_monitor_loop\<close>: the elapsed time is an unsigned difference read as a signed
  number of nanoseconds. The result is the list of process identifiers handed to the callback.
\<close>

definition heartbeat_overdue :: "u64 \<Rightarrow> int \<Rightarrow> process_info \<Rightarrow> bool" where
  "heartbeat_overdue now timeout info \<longleftrightarrow> sint (now - pi_last_heartbeat info) > timeout * 1000000"

fun monitor_scan ::
  "'o os_lib \<Rightarrow> u64 \<Rightarrow> int \<Rightarrow> (pid, process_info) umap \<Rightarrow> 'o \<Rightarrow> pid list \<times> (pid, process_info) umap \<times> 'o"
where
  "monitor_scan os now timeout [] w = ([], [], w)"
| "monitor_scan os now timeout ((pid, info) # ps) w =
     (if heartbeat_overdue now timeout info
      then case is_alive_impl os (pi_handle info) w of
          (alive, w1) \<Rightarrow>
            (case monitor_scan os now timeout ps w1 of (dead, ps', w2) \<Rightarrow>
               if alive then (dead, (pid, info) # ps', w2)
               else (pid # dead, (pid, info\<lparr>pi_is_alive := False\<rparr>) # ps', w2))
      else case monitor_scan os now timeout ps w of (dead, ps', w2) \<Rightarrow> (dead, (pid, info) # ps', w2))"

definition heartbeat_monitor_round :: "'o os_lib \<Rightarrow> u64 \<Rightarrow> 'o process_manager \<Rightarrow> pid list \<times> 'o process_manager" where
  "heartbeat_monitor_round os now m =
     (case monitor_scan os now (pm_heartbeat_timeout m) (pm_processes m) (pm_os m) of
        (dead, ps, w) \<Rightarrow> (dead, m\<lparr>pm_processes := ps, pm_os := w\<rparr>))"

section \<open>Facts\<close>

lemma os_lib_okD:
  assumes "os_lib_ok os children"
  shows "os_spawn os args w = (Some pid, w') \<Longrightarrow> 0 < pid \<and> pid \<notin> children w \<and> children w' \<subseteq> insert pid (children w)"
    and "os_spawn os args w = (None, w') \<Longrightarrow> children w' \<subseteq> children w"
    and "children (snd (os_kill os pid force w)) \<subseteq> children w"
    and "fst (os_waitpid_running os pid w) \<longleftrightarrow> pid \<in> children (snd (os_waitpid_running os pid w))"
    and "children (snd (os_waitpid_running os pid w)) \<subseteq> children w"
  using assms unfolding os_lib_ok_def by metis+

text \<open>Every table entry is stored under its own process identifier, which is its handle.\<close>

definition processes_inv :: "'o process_manager \<Rightarrow> bool" where
  "processes_inv m \<longleftrightarrow> umap_ok (pm_processes m) \<and>
     (\<forall>pid info. map_of (pm_processes m) pid = Some info \<longrightarrow> pi_pid info = pid \<and> pi_handle info = pid \<and> pid \<noteq> 0)"

lemma processes_inv_new [simp]: "processes_inv (new_process_manager w)"
  by (simp add: processes_inv_def new_process_manager_def)

lemma processes_inv_os [simp]: "processes_inv (m\<lparr>pm_os := w\<rparr>) = processes_inv m"
  by (simp add: processes_inv_def)

lemma processes_inv_spawn [invs]:
  "processes_inv m \<Longrightarrow> processes_inv (snd (spawn_worker os now i p e m))"
  by (auto simp: spawn_worker_def processes_inv_def um.ok_put split: prod.split)

lemma processes_inv_is_alive [invs]: "processes_inv m \<Longrightarrow> processes_inv (snd (process_is_alive os pid m))"
  by (auto simp: process_is_alive_def split: option.split prod.split)

lemma processes_inv_kill [invs]: "processes_inv m \<Longrightarrow> processes_inv (snd (kill_process os pid force m))"
  by (auto simp: kill_process_def processes_inv_def um.ok_put split: option.split prod.split)

lemma processes_inv_heartbeat [invs]: "processes_inv m \<Longrightarrow> processes_inv (update_heartbeat now pid m)"
  by (auto simp: update_heartbeat_def processes_inv_def um.ok_put split: option.split)

lemma processes_inv_wait [invs]: "processes_inv m \<Longrightarrow> processes_inv (snd (wait_for_exit os n pid m))"
proof (induction n arbitrary: m)
  case (Suc n)
  then show ?case
    using processes_inv_is_alive [OF Suc.prems, of os pid] by (auto split: prod.split bool.split)
qed simp

lemma process_is_alive_os:
  assumes "os_lib_ok os children"
  shows "children (pm_os (snd (process_is_alive os pid m))) \<subseteq> children (pm_os m)"
    and "pm_processes (snd (process_is_alive os pid m)) = pm_processes m"
  using os_lib_okD(5) [OF assms]
  by (auto simp: process_is_alive_def is_alive_impl_def split: option.split prod.split)
    (metis snd_conv subsetD)+

lemma wait_for_exit_os:
  assumes "os_lib_ok os children"
  shows "children (pm_os (snd (wait_for_exit os n pid m))) \<subseteq> children (pm_os m) \<and>
    pm_processes (snd (wait_for_exit os n pid m)) = pm_processes m"
proof (induction n arbitrary: m)
  case (Suc n)
  have "children (pm_os (snd (process_is_alive os pid m))) \<subseteq> children (pm_os m)"
      "pm_processes (snd (process_is_alive os pid m)) = pm_processes m"
    using process_is_alive_os [OF assms] by auto
  then show ?case
    using Suc.IH [of "snd (process_is_alive os pid m)"]
    by (auto split: prod.split bool.split)
qed simp

lemma kill_process_os:
  assumes "os_lib_ok os children"
  shows "children (pm_os (snd (kill_process os pid force m))) \<subseteq> children (pm_os m)"
    and "dom (map_of (pm_processes (snd (kill_process os pid force m)))) = dom (map_of (pm_processes m))"
  using os_lib_okD(3) [OF assms]
  by (auto simp: kill_process_def kill_process_impl_def split: option.split prod.split) (metis snd_conv subsetD)+

lemma kill_process_left:
  assumes "os_lib_ok os children" and "kill_takes_effect os children left k" and "processes_inv m"
    and "map_of (pm_processes m) pid \<noteq> None" and "pid \<in> children (pm_os (snd (kill_process os pid True m)))"
  shows "\<exists>n \<le> k. left (pm_os (snd (kill_process os pid True m))) pid = Some n"
proof -
  obtain info where i: "map_of (pm_processes m) pid = Some info" "pi_handle info = pid"
    using assms(3,4) by (auto simp: processes_inv_def)
  obtain r w where w: "os_kill os pid True (pm_os m) = (r, w)" by force
  have eq: "pm_os (snd (kill_process os pid True m)) = w"
    by (simp add: kill_process_def kill_process_impl_def i w)
  then have "pid \<in> children (pm_os m)" using assms(5) os_lib_okD(3) [OF assms(1), of pid True "pm_os m"] w by auto
  then have "fst (os_kill os pid True (pm_os m))" using assms(2) unfolding kill_takes_effect_def by blast
  then have "os_kill os pid True (pm_os m) = (True, w)" using w by simp
  then show ?thesis using assms(2,5) unfolding eq kill_takes_effect_def by blast
qed

text \<open>The wait: a killed process is gone once it was polled more often than it could still be found running.\<close>

lemma wait_for_exit_gone:
  assumes "os_lib_ok os children" and "kill_takes_effect os children left k"
  shows "processes_inv m \<Longrightarrow> map_of (pm_processes m) pid \<noteq> None \<Longrightarrow>
    pid \<in> children (pm_os m) \<longrightarrow> (\<exists>n < polls. left (pm_os m) pid = Some n) \<Longrightarrow>
    pid \<notin> children (pm_os (snd (wait_for_exit os polls pid m)))"
proof (induction polls arbitrary: m)
  case (Suc polls)
  define m' where "m' = snd (process_is_alive os pid m)"
  obtain info where i: "map_of (pm_processes m) pid = Some info" "pi_handle info = pid"
    using Suc.prems(1,2) by (auto simp: processes_inv_def)
  obtain r w where w: "os_waitpid_running os pid (pm_os m) = (r, w)" by force
  have eq: "process_is_alive os pid m = (r, m\<lparr>pm_os := w\<rparr>)"
    by (simp add: process_is_alive_def is_alive_impl_def i w)
  have r: "r \<longleftrightarrow> pid \<in> children w" "children w \<subseteq> children (pm_os m)"
    using os_lib_okD(4,5) [OF assms(1), of pid "pm_os m"] w by simp_all
  have "\<exists>n < polls. left w pid = Some n" if run: "pid \<in> children w"
  proof -
    have "pid \<in> children (pm_os m)" using run r(2) by blast
    then obtain n where n: "left (pm_os m) pid = Some n" "n < Suc polls" using Suc.prems(3) by blast
    then obtain n' where "n' < n" "left w pid = Some n'"
      using assms(2) w run unfolding kill_takes_effect_def by blast
    then show ?thesis using n(2) by (intro exI [of _ n']) simp
  qed
  then show ?case using Suc.IH [of "m\<lparr>pm_os := w\<rparr>"] Suc.prems(1,2) r(1) by (cases r) (simp_all add: eq)
qed auto

lemma cleanup_one_gone:
  assumes "os_lib_ok os children" and "kill_takes_effect os children left k" and "k < polls"
    and "processes_inv m" and "map_of (pm_processes m) pid \<noteq> None"
  shows "pid \<notin> children (pm_os (cleanup_one os polls pid m))"
proof -
  define m' where "m' = snd (kill_process os pid True m)"
  have "processes_inv m'" "map_of (pm_processes m') pid \<noteq> None"
    using assms(4,5) kill_process_os(2) [OF assms(1), of pid True m] by (auto simp: m'_def invs domIff)
  then show ?thesis
    using wait_for_exit_gone [OF assms(1,2), of m' pid polls] kill_process_left [OF assms(1,2,4,5)] assms(3)
    unfolding cleanup_one_def m'_def [symmetric] by (meson le_less_trans)
qed

section \<open>Properties\<close>

text \<open>\<^verbatim>\<open>is_alive\<close> says yes exactly for a process the manager spawned that is still running when it
  answers.\<close>

theorem is_alive_iff_running:
  assumes "os_lib_ok os children" and "processes_inv m" and "process_is_alive os pid m = (b, m')"
  shows "b \<longleftrightarrow> pid \<in> set (list_processes m) \<and> pid \<in> children (pm_os m')"
  using os_lib_okD(4) [OF assms(1), of pid "pm_os m"] assms(2,3)
  by (auto simp: process_is_alive_def is_alive_impl_def processes_inv_def list_processes_def um.set_keys
      split: option.splits prod.splits)

lemma cleanup_fold:
  assumes "os_lib_ok os children" and "kill_takes_effect os children left k" and "k < polls"
  shows "processes_inv m \<Longrightarrow> set pids \<subseteq> dom (map_of (pm_processes m)) \<Longrightarrow>
    set pids \<inter> children (pm_os (fold (cleanup_one os polls) pids m)) = {} \<and> children (pm_os (fold (cleanup_one os polls) pids m)) \<subseteq> children (pm_os m)"
proof (induction pids arbitrary: m)
  case (Cons pid pids)
  have inv: "processes_inv (cleanup_one os polls pid m)"
    unfolding cleanup_one_def using Cons.prems(1) by (simp add: invs)
  have "children (pm_os (cleanup_one os polls pid m)) \<subseteq> children (pm_os m)"
    using wait_for_exit_os [OF assms(1)] kill_process_os(1) [OF assms(1)]
    unfolding cleanup_one_def by (meson order_trans)
  moreover have "pid \<notin> children (pm_os (cleanup_one os polls pid m))"
    using cleanup_one_gone [OF assms Cons.prems(1), of pid] Cons.prems(2) by (simp add: domIff)
  moreover have "dom (map_of (pm_processes (cleanup_one os polls pid m))) = dom (map_of (pm_processes m))"
    using wait_for_exit_os [OF assms(1)] kill_process_os(2) [OF assms(1)] by (simp add: cleanup_one_def)
  moreover from this have "set pids \<inter> children (pm_os (fold (cleanup_one os polls) pids (cleanup_one os polls pid m))) = {} \<and>
      children (pm_os (fold (cleanup_one os polls) pids (cleanup_one os polls pid m))) \<subseteq> children (pm_os (cleanup_one os polls pid m))"
    using Cons.IH [OF inv] Cons.prems(2) by auto
  ultimately show ?case by auto
qed simp

text \<open>C33: \<^verbatim>\<open>cleanup_all\<close> kills each process and waits for it. When SIGKILL ends a child before it is polled
  more than \<open>k\<close> times, and the wait polls more often than that, then afterwards no process the manager had spawned
  is running, it has started none, and its table is empty.\<close>

theorem cleanup_all_kills:
  assumes "os_lib_ok os children" and "kill_takes_effect os children left k" and "k < polls" and "processes_inv m"
  shows "set (list_processes m) \<inter> children (pm_os (cleanup_all os polls m)) = {} \<and>
    children (pm_os (cleanup_all os polls m)) \<subseteq> children (pm_os m) \<and>
    list_processes (cleanup_all os polls m) = []"
proof -
  have "set (list_processes m) \<subseteq> dom (map_of (pm_processes m))"
    by (simp add: list_processes_def um.set_keys)
  then show ?thesis
    using cleanup_fold [OF assms, of "list_processes m"]
    by (simp add: cleanup_all_def list_processes_def umap_keys_def)
qed

lemma monitor_scan_spec:
  assumes "os_lib_ok os children"
  shows "monitor_scan os now timeout ps w = (dead, ps', w') \<Longrightarrow>
    \<forall>(pid, info) \<in> set ps. pi_handle info = pid \<Longrightarrow>
    children w' \<subseteq> children w \<and>
    (\<forall>pid \<in> set dead. pid \<notin> children w' \<and> (\<exists>info. (pid, info) \<in> set ps \<and> heartbeat_overdue now timeout info)) \<and>
    (\<forall>(pid, info) \<in> set ps. heartbeat_overdue now timeout info \<longrightarrow> pid \<notin> children w \<longrightarrow> pid \<in> set dead)"
proof (induction ps arbitrary: w dead ps' w')
  case (Cons p ps)
  obtain pid info where p: "p = (pid, info)" by (cases p)
  have h: "pi_handle info = pid" using Cons.prems(2) p by simp
  define w1 where "w1 = (if heartbeat_overdue now timeout info then snd (is_alive_impl os pid w) else w)"
  have w1: "children w1 \<subseteq> children w"
    using os_lib_okD(5) [OF assms] by (simp add: w1_def is_alive_impl_def)
  obtain d q v where rest: "monitor_scan os now timeout ps w1 = (d, q, v)" by (cases "monitor_scan os now timeout ps w1")
  have IH: "children v \<subseteq> children w1 \<and>
      (\<forall>pid \<in> set d. pid \<notin> children v \<and> (\<exists>info. (pid, info) \<in> set ps \<and> heartbeat_overdue now timeout info)) \<and>
      (\<forall>(pid, info) \<in> set ps. heartbeat_overdue now timeout info \<longrightarrow> pid \<notin> children w1 \<longrightarrow> pid \<in> set d)"
    using Cons.IH [OF rest] Cons.prems(2) by simp
  have alive: "fst (is_alive_impl os pid w) \<longleftrightarrow> pid \<in> children w1" if "heartbeat_overdue now timeout info"
    using that os_lib_okD(4) [OF assms] by (simp add: w1_def is_alive_impl_def)
  have "w' = v \<and> dead = (if heartbeat_overdue now timeout info \<and> pid \<notin> children w1 then pid # d else d)"
    using Cons.prems(1) rest alive h
    by (auto simp: p w1_def split: if_splits prod.splits)
  then show ?case
    using IH w1 by (auto simp: p)
qed simp

text \<open>One round of the heartbeat monitor reports only spawned processes whose last heartbeat is older
  than the timeout and that no longer run, and it reports every overdue process that was
  already dead when the round began.\<close>

theorem monitor_round_reports_dead:
  assumes "os_lib_ok os children" and "processes_inv m"
    and "heartbeat_monitor_round os now m = (dead, m')"
  shows "(\<forall>pid \<in> set dead. pid \<notin> children (pm_os m') \<and>
       (\<exists>info. get_process_info pid m = Some info \<and> heartbeat_overdue now (pm_heartbeat_timeout m) info)) \<and>
    (\<forall>pid info. get_process_info pid m = Some info \<longrightarrow> heartbeat_overdue now (pm_heartbeat_timeout m) info \<longrightarrow>
       pid \<notin> children (pm_os m) \<longrightarrow> pid \<in> set dead)"
proof -
  obtain ps w where scan: "monitor_scan os now (pm_heartbeat_timeout m) (pm_processes m) (pm_os m) = (dead, ps, w)"
      and m': "m' = m\<lparr>pm_processes := ps, pm_os := w\<rparr>"
    using assms(3) by (auto simp: heartbeat_monitor_round_def split: prod.splits)
  have look: "map_of (pm_processes m) pid = Some info \<longleftrightarrow> (pid, info) \<in> set (pm_processes m)" for pid info
    using assms(2) umap_ok_lookup by (metis processes_inv_def)
  have "\<forall>(pid, info) \<in> set (pm_processes m). pi_handle info = pid"
    using assms(2) look unfolding processes_inv_def by fast
  from monitor_scan_spec [OF assms(1) scan this] show ?thesis
    by (auto simp: get_process_info_def look m')
qed

section \<open>Witnesses\<close>

text \<open>A process table that satisfies the hypotheses: the next identifier, the running children and, for a
  child that was sent a signal, how many more polls find it running.\<close>

type_synonym process_table = "pid \<times> pid set \<times> (pid \<rightharpoonup> nat)"

definition table_os :: "process_table os_lib" where
  "table_os =
     \<lparr>os_spawn = (\<lambda>args (n, cs, left).
        if 0 < n \<and> n \<notin> cs then (Some n, (n + 1, insert n cs, left)) else (None, (n, cs, left))),
      os_kill = (\<lambda>pid force (n, cs, left). (pid \<in> cs, (n, cs, left(pid \<mapsto> 3)))),
      os_waitpid_running = (\<lambda>pid (n, cs, left).
        case left pid of
          None \<Rightarrow> (pid \<in> cs, (n, cs, left))
        | Some 0 \<Rightarrow> (False, (n, cs - {pid}, left))
        | Some (Suc l) \<Rightarrow> (pid \<in> cs, (n, cs, left(pid \<mapsto> l))))\<rparr>"

lemma table_os_ok [simp]: "os_lib_ok table_os (fst \<circ> snd)"
  unfolding os_lib_ok_def table_os_def by (auto split: option.split nat.split)

lemma table_os_kill [simp]: "kill_takes_effect table_os (fst \<circ> snd) (snd \<circ> snd) 3"
  unfolding kill_takes_effect_def table_os_def by (auto split: option.splits nat.splits)

definition demo_processes :: "process_table process_manager" where
  "demo_processes = snd (spawn_worker table_os 5 ''dmm'' ''/p/serial.so'' ''instrument-worker''
     (new_process_manager (7, {}, Map.empty)))"

lemma demo_processes_inv [simp]: "processes_inv demo_processes"
  by (simp add: demo_processes_def invs)

lemma demo_processes_eq:
  "list_processes demo_processes = [7]" "pm_os demo_processes = (8, {7}, Map.empty)"
  "pm_heartbeat_timeout demo_processes = 10000"
  "get_process_info 7 demo_processes = Some \<lparr>pi_pid = 7, pi_handle = 7, pi_instrument_name = ''dmm'',
     pi_plugin_path = ''/p/serial.so'', pi_started_at = 5, pi_is_alive = True, pi_last_heartbeat = 5\<rparr>"
  by (simp_all add: demo_processes_def spawn_worker_def spawn_process_impl_def table_os_def new_process_manager_def
      list_processes_def umap_keys_def get_process_info_def)

theorem is_alive_iff_running_witness: "fst (process_is_alive table_os 7 demo_processes)"
proof -
  have "pm_os (snd (process_is_alive table_os 7 demo_processes)) = (8, {7}, Map.empty)"
    using demo_processes_eq(2,4)
    by (simp add: process_is_alive_def is_alive_impl_def table_os_def get_process_info_def)
  then show ?thesis
    using is_alive_iff_running [OF table_os_ok demo_processes_inv prod.collapse [symmetric], of 7]
    by (simp add: demo_processes_eq)
qed

text \<open>A killed child of this table outlives three polls; the wait polls up to twenty times (2000 ms, every 100 ms).
  Without the wait the child is still running.\<close>

lemma cleanup_without_wait: "7 \<in> fst (snd (pm_os (cleanup_all table_os 0 demo_processes)))"
proof -
  have "map_of (pm_processes demo_processes) 7 \<noteq> None" using demo_processes_eq(4) by (simp add: get_process_info_def)
  then show ?thesis
    by (auto simp: cleanup_all_def demo_processes_eq cleanup_one_def kill_process_def kill_process_impl_def table_os_def
        split: option.split)
qed

theorem cleanup_all_kills_witness: "fst (snd (pm_os (cleanup_all table_os 20 demo_processes))) = {}"
  using cleanup_all_kills [OF table_os_ok table_os_kill _ demo_processes_inv, of 20] by (auto simp: demo_processes_eq)

theorem monitor_round_reports_dead_witness:
  "7 \<in> set (fst (heartbeat_monitor_round table_os 20000000006 (demo_processes\<lparr>pm_os := (8, {}, Map.empty)\<rparr>)))"
proof -
  have "get_process_info 7 (demo_processes\<lparr>pm_os := (8, {}, Map.empty)\<rparr>) = get_process_info 7 demo_processes"
    by (simp add: get_process_info_def)
  then show ?thesis
    using monitor_round_reports_dead [OF table_os_ok _ prod.collapse [symmetric],
        of "demo_processes\<lparr>pm_os := (8, {}, Map.empty)\<rparr>" 20000000006]
    by (simp add: demo_processes_eq heartbeat_overdue_def)
qed

end
