(* ===== verification/Process_Manager_Win.thy ===== *)
theory Process_Manager_Win
  imports Process_Manager Cxx_Strings
begin

text \<open>
  \<^verbatim>\<open>ProcessManager\<close> as it is compiled for Windows (\<^verbatim>\<open>src/ipc/ProcessManager.cpp\<close>, the \<^verbatim>\<open>_WIN32\<close> branches). A process has an
  identifier and a handle that must be closed: \<^verbatim>\<open>spawn_process_impl\<close> makes the table entry itself, and
  \<^verbatim>\<open>cleanup_all\<close> closes the handles. What the two branches share is the code of \<^verbatim>\<open>Process_Manager\<close> over the system calls
  of \<open>win_os\<close>.
\<close>

section \<open>System calls\<close>

type_synonym handle = int

record 'o win_lib =
  wn_create_process :: "string \<Rightarrow> 'o \<Rightarrow> (pid \<times> handle \<times> handle) option \<times> 'o"
    \<comment> \<open>\<^verbatim>\<open>CreateProcessA\<close> of a command line: identifier, handle of the process, handle of its thread\<close>
  wn_terminate_process :: "handle \<Rightarrow> u32 \<Rightarrow> 'o \<Rightarrow> bool \<times> 'o"
  wn_exit_code :: "handle \<Rightarrow> 'o \<Rightarrow> u32 option \<times> 'o"  \<comment> \<open>\<^verbatim>\<open>GetExitCodeProcess\<close>, \<^const>\<open>None\<close> if it fails\<close>
  wn_close_handle :: "handle \<Rightarrow> 'o \<Rightarrow> 'o"

definition STILL_ACTIVE :: u32 where
  "STILL_ACTIVE = 259"

text \<open>
  Documented behaviour, over the open handles with the process each belongs to: a new process has a nonzero identifier that no
  process with an open handle has, and handles that were not open; only closing a handle closes it.
\<close>

definition win_lib_ok :: "'o win_lib \<Rightarrow> ('o \<Rightarrow> handle \<Rightarrow> pid option) \<Rightarrow> bool" where
  "win_lib_ok W opened \<longleftrightarrow>
     (\<forall>cmd w pid h th w'. wn_create_process W cmd w = (Some (pid, h, th), w') \<longrightarrow>
        pid \<noteq> 0 \<and> h \<noteq> 0 \<and> th \<noteq> h \<and> opened w h = None \<and> opened w th = None \<and> pid \<notin> ran (opened w) \<and>
        opened w' = (opened w)(h \<mapsto> pid)) \<and>
     (\<forall>cmd w w'. wn_create_process W cmd w = (None, w') \<longrightarrow> opened w' = opened w) \<and>
     (\<forall>h c w. opened (snd (wn_terminate_process W h c w)) = opened w) \<and>
     (\<forall>h w. opened (snd (wn_exit_code W h w)) = opened w) \<and>
     (\<forall>h w. opened (wn_close_handle W h w) = (opened w)(h := None))"

section \<open>Operations\<close>

text \<open>The arguments in quotes, separated by blanks; nothing inside them is escaped.\<close>

definition quote_arg :: "string \<Rightarrow> string" where
  "quote_arg a = CHR 0x22 # a @ [CHR 0x22]"

fun command_line :: "string list \<Rightarrow> string" where
  "command_line [] = []"
| "command_line [a] = quote_arg a"
| "command_line (a # as) = quote_arg a @ '' '' @ command_line as"

definition win_kill_process_impl :: "'o win_lib \<Rightarrow> handle \<Rightarrow> bool \<Rightarrow> 'o \<Rightarrow> bool \<times> 'o" where
  "win_kill_process_impl W handle force w = wn_terminate_process W handle (if force then 1 else 0) w"

definition win_is_alive_impl :: "'o win_lib \<Rightarrow> handle \<Rightarrow> 'o \<Rightarrow> bool \<times> 'o" where
  "win_is_alive_impl W handle w =
     (case wn_exit_code W handle w of
        (None, w') \<Rightarrow> (False, w')
      | (Some exit_code, w') \<Rightarrow> (exit_code = STILL_ACTIVE, w'))"

text \<open>The calls of the shared code: \<^verbatim>\<open>kill_process_impl\<close> and \<^verbatim>\<open>is_alive_impl\<close>. Nothing spawns through it.\<close>

definition win_os :: "'o win_lib \<Rightarrow> 'o os_lib" where
  "win_os W = \<lparr>os_spawn = (\<lambda>args w. (None, w)), os_kill = win_kill_process_impl W,
     os_waitpid_running = win_is_alive_impl W\<rparr>"

definition win_spawn_process_impl ::
  "'o win_lib \<Rightarrow> u64 \<Rightarrow> string list \<Rightarrow> 'o process_manager \<Rightarrow> pid \<times> 'o process_manager"
where
  "win_spawn_process_impl W now args m =
     (case wn_create_process W (c_str (command_line args)) (pm_os m) of
        (None, w) \<Rightarrow> (0, m\<lparr>pm_os := w\<rparr>)
      | (Some (pid, h, th), w) \<Rightarrow>
          (pid, m\<lparr>pm_os := wn_close_handle W th w,
                  pm_processes := umap_put pid
                    \<lparr>pi_pid = pid, pi_handle = h, pi_instrument_name = [], pi_plugin_path = [], pi_started_at = 0,
                     pi_is_alive = True, pi_last_heartbeat = now\<rparr> (pm_processes m)\<rparr>))"

definition win_spawn_worker ::
  "'o win_lib \<Rightarrow> u64 \<Rightarrow> string \<Rightarrow> string \<Rightarrow> string \<Rightarrow> 'o process_manager \<Rightarrow> pid \<times> 'o process_manager"
where
  "win_spawn_worker W now instrument_name plugin_path worker_executable m =
     (case win_spawn_process_impl W now [worker_executable, instrument_name, plugin_path] m of
        (pid, m1) \<Rightarrow>
          if pid = 0 then (0, m1)
          else
            (pid,
             case map_of (pm_processes m1) pid of
               None \<Rightarrow> m1
             | Some info \<Rightarrow>
                 m1\<lparr>pm_processes := umap_put pid
                   (info\<lparr>pi_instrument_name := instrument_name, pi_plugin_path := plugin_path, pi_started_at := now\<rparr>)
                   (pm_processes m1)\<rparr>))"

definition close_entry :: "'o win_lib \<Rightarrow> pid \<times> process_info \<Rightarrow> 'o \<Rightarrow> 'o" where
  "close_entry W e w = (if pi_handle (snd e) \<noteq> 0 then wn_close_handle W (pi_handle (snd e)) w else w)"

definition win_cleanup_all :: "'o win_lib \<Rightarrow> nat \<Rightarrow> 'o process_manager \<Rightarrow> 'o process_manager" where
  "win_cleanup_all W polls m =
     (let m1 = fold (cleanup_one (win_os W) polls) (list_processes m) m
      in m1\<lparr>pm_os := fold (close_entry W) (pm_processes m1) (pm_os m1), pm_processes := []\<rparr>)"

text \<open>What the threads of the server do with the manager between its construction and its end.\<close>

inductive win_step :: "'o win_lib \<Rightarrow> 'o process_manager \<Rightarrow> 'o process_manager \<Rightarrow> bool" for W where
  spawn: "win_step W m (snd (win_spawn_worker W now i p e m))"
| alive: "win_step W m (snd (process_is_alive (win_os W) pid m))"
| kill: "win_step W m (snd (kill_process (win_os W) pid force m))"
| wait: "win_step W m (snd (wait_for_exit (win_os W) polls pid m))"
| heartbeat: "win_step W m (update_heartbeat now pid m)"
| monitor: "win_step W m (snd (heartbeat_monitor_round (win_os W) now m))"

section \<open>The command line\<close>

lemma quoted_prefix_unique:
  "a @ q # r = b @ q # r' \<Longrightarrow> q \<notin> set a \<Longrightarrow> q \<notin> set b \<Longrightarrow> a = b \<and> r = r'"
proof (induction a arbitrary: b)
  case Nil
  then show ?case by (cases b) auto
next
  case (Cons x a)
  then show ?case by (cases b) auto
qed

lemma command_line_Cons: "command_line (a # as) = quote_arg a @ (if as = [] then [] else '' '' @ command_line as)"
  by (cases as) simp_all

text \<open>The command line determines arguments that have no quotes. A quote in an instrument's name or in a path can make it read as other arguments.\<close>

theorem command_line_inject:
  "\<forall>a \<in> set as \<union> set bs. CHR 0x22 \<notin> set a \<Longrightarrow> command_line as = command_line bs \<Longrightarrow> as = bs"
proof (induction as arbitrary: bs)
  case Nil
  then show ?case by (cases bs) (auto simp: command_line_Cons quote_arg_def simp del: command_line.simps(2,3))
next
  case (Cons a as)
  obtain b bs' where b: "bs = b # bs'"
    using Cons.prems(2) by (cases bs) (auto simp: command_line_Cons quote_arg_def simp del: command_line.simps(2,3))
  let ?r = "\<lambda>as. if as = [] then [] else '' '' @ command_line as"
  have "a @ CHR 0x22 # ?r as = b @ CHR 0x22 # ?r bs'"
    using Cons.prems(2) unfolding b command_line_Cons quote_arg_def by simp
  with Cons.prems(1) b have ab: "a = b" "?r as = ?r bs'" using quoted_prefix_unique [of a "CHR 0x22" "?r as" b "?r bs'"] by auto
  then have "as = [] \<longleftrightarrow> bs' = []" by (auto split: if_splits)
  then show ?case using Cons.IH [of bs'] Cons.prems(1) ab b by (auto split: if_splits)
qed

lemma command_line_ambiguous:
  "command_line [w, ''a'' @ [CHR 0x22, CHR '' '', CHR 0x22] @ ''b'', p] = command_line [w, ''a'', ''b'', p]"
  by (simp add: quote_arg_def)

section \<open>The handles\<close>

lemma win_lib_okD:
  assumes "win_lib_ok W opened"
  shows "wn_create_process W cmd w = (Some (pid, h, th), w') \<Longrightarrow>
      pid \<noteq> 0 \<and> h \<noteq> 0 \<and> th \<noteq> h \<and> opened w h = None \<and> opened w th = None \<and> pid \<notin> ran (opened w) \<and>
      opened w' = (opened w)(h \<mapsto> pid)"
    and "wn_create_process W cmd w = (None, w') \<Longrightarrow> opened w' = opened w"
    and "opened (snd (wn_terminate_process W h c w)) = opened w"
    and "opened (snd (wn_exit_code W h w)) = opened w"
    and "opened (wn_close_handle W h w) = (opened w)(h := None)"
  using assms unfolding win_lib_ok_def by blast+

text \<open>The open handles are exactly those of the table, each in the entry of its process.\<close>

definition handle_of :: "'o process_manager \<Rightarrow> pid \<Rightarrow> handle option" where
  "handle_of m pid = map_option pi_handle (map_of (pm_processes m) pid)"

definition handles_inv :: "('o \<Rightarrow> handle \<Rightarrow> pid option) \<Rightarrow> 'o process_manager \<Rightarrow> bool" where
  "handles_inv opened m \<longleftrightarrow> umap_ok (pm_processes m) \<and>
     (\<forall>pid h. handle_of m pid = Some h \<longleftrightarrow> opened (pm_os m) h = Some pid) \<and> opened (pm_os m) 0 = None"

text \<open>Every operation but spawning leaves both sides alone.\<close>

definition same_handles :: "('o \<Rightarrow> handle \<Rightarrow> pid option) \<Rightarrow> 'o process_manager \<Rightarrow> 'o process_manager \<Rightarrow> bool" where
  "same_handles opened m m' \<longleftrightarrow> handle_of m' = handle_of m \<and> opened (pm_os m') = opened (pm_os m) \<and>
     (umap_ok (pm_processes m) \<longrightarrow> umap_ok (pm_processes m'))"

lemma same_handles_refl [simp]: "same_handles opened m m"
  by (simp add: same_handles_def)

lemma same_handles_trans: "same_handles opened m m' \<Longrightarrow> same_handles opened m' m'' \<Longrightarrow> same_handles opened m m''"
  by (simp add: same_handles_def)

lemma handles_inv_same: "same_handles opened m m' \<Longrightarrow> handles_inv opened m \<Longrightarrow> handles_inv opened m'"
  by (simp add: same_handles_def handles_inv_def)

lemma same_handles_os: "opened w = opened (pm_os m) \<Longrightarrow> same_handles opened m (m\<lparr>pm_os := w\<rparr>)"
  by (simp add: same_handles_def handle_of_def fun_eq_iff)

lemma same_handles_put:
  assumes "map_of (pm_processes m) pid = Some info" and "pi_handle info' = pi_handle info" and "opened w = opened (pm_os m)"
  shows "same_handles opened m (m\<lparr>pm_os := w, pm_processes := umap_put pid info' (pm_processes m)\<rparr>)"
  using assms by (auto simp: same_handles_def handle_of_def fun_eq_iff um.ok_put)

lemma is_alive_opened:
  assumes "win_lib_ok W opened"
  shows "opened (snd (is_alive_impl (win_os W) h w)) = opened w"
  using win_lib_okD(4) [OF assms, of h w]
  by (auto simp: is_alive_impl_def win_os_def win_is_alive_impl_def split: prod.split option.split)

lemma process_is_alive_same:
  assumes "win_lib_ok W opened"
  shows "same_handles opened m (snd (process_is_alive (win_os W) pid m))"
  using is_alive_opened [OF assms]
  by (auto simp: process_is_alive_def intro!: same_handles_os split: option.split prod.split) (metis snd_conv)

lemma kill_process_same:
  assumes "win_lib_ok W opened"
  shows "same_handles opened m (snd (kill_process (win_os W) pid force m))"
proof -
  have "opened w' = opened (pm_os m)" if "kill_process_impl (win_os W) h force (pm_os m) = (r, w')" for h r w'
    using that win_lib_okD(3) [OF assms, of h "if force then 1 else 0" "pm_os m"]
    by (simp add: kill_process_impl_def win_os_def win_kill_process_impl_def)
  then show ?thesis
    by (auto simp: kill_process_def intro: same_handles_os same_handles_put split: option.split prod.split)
qed

lemma wait_for_exit_same:
  assumes "win_lib_ok W opened"
  shows "same_handles opened m (snd (wait_for_exit (win_os W) n pid m))"
proof (induction n arbitrary: m)
  case (Suc n)
  then show ?case
    using process_is_alive_same [OF assms, of m pid] by (auto split: prod.split bool.split intro: same_handles_trans)
qed simp

lemma update_heartbeat_same: "same_handles opened m (update_heartbeat now pid m)"
  using same_handles_put [of m pid _ _ opened "pm_os m"] by (auto simp: update_heartbeat_def split: option.split)

lemma monitor_scan_same:
  assumes "win_lib_ok W opened"
  shows "monitor_scan (win_os W) now t ps w = (dead, ps', w') \<Longrightarrow>
    opened w' = opened w \<and> map fst ps' = map fst ps \<and> (\<forall>pid. map_option pi_handle (map_of ps' pid) = map_option pi_handle (map_of ps pid))"
proof (induction ps arbitrary: w dead ps' w')
  case (Cons e ps)
  obtain pid info where e: "e = (pid, info)" by (cases e)
  define w1 where "w1 = (if heartbeat_overdue now t info then snd (is_alive_impl (win_os W) (pi_handle info) w) else w)"
  have w1: "opened w1 = opened w" using is_alive_opened [OF assms] by (simp add: w1_def)
  obtain d q v where rest: "monitor_scan (win_os W) now t ps w1 = (d, q, v)" by (metis prod.exhaust)
  have "w' = v \<and> (ps' = (pid, info) # q \<or> ps' = (pid, info\<lparr>pi_is_alive := False\<rparr>) # q)"
    using Cons.prems rest by (auto simp: e w1_def split: if_splits prod.splits)
  then show ?case using Cons.IH [OF rest] w1 by (auto simp: e)
qed simp

lemma monitor_round_same:
  assumes "win_lib_ok W opened"
  shows "same_handles opened m (snd (heartbeat_monitor_round (win_os W) now m))"
  using monitor_scan_same [OF assms]
  by (auto simp: heartbeat_monitor_round_def same_handles_def handle_of_def umap_ok_def fun_eq_iff split: prod.split)

lemma spawn_impl_handles:
  assumes "win_lib_ok W opened" and "handles_inv opened m"
  shows "handles_inv opened (snd (win_spawn_process_impl W now args m))"
proof (cases "wn_create_process W (c_str (command_line args)) (pm_os m)")
  case (Pair r w)
  show ?thesis
  proof (cases r)
    case None
    then show ?thesis
      using Pair win_lib_okD(2) [OF assms(1), of _ "pm_os m" w] assms(2)
      by (auto simp: win_spawn_process_impl_def intro: handles_inv_same same_handles_os)
  next
    case (Some x)
    obtain pid h th where x: "x = (pid, h, th)" by (metis prod.exhaust)
    note new = win_lib_okD(1) [OF assms(1) Pair [unfolded Some x]]
    have o: "opened (wn_close_handle W th w) = (opened (pm_os m))(h \<mapsto> pid)"
      using new win_lib_okD(5) [OF assms(1), of th w] by (auto simp: fun_eq_iff)
    have free: "handle_of m q \<noteq> Some h" "handle_of m pid = None" for q
      using assms(2) new by (simp_all add: handles_inv_def ran_def) (metis not_Some_eq)+
    show ?thesis
      using assms(2) new o free Pair Some x
      by (auto simp: win_spawn_process_impl_def handles_inv_def handle_of_def um.ok_put ran_def)
  qed
qed

lemma spawn_worker_handles:
  assumes "win_lib_ok W opened" and "handles_inv opened m"
  shows "handles_inv opened (snd (win_spawn_worker W now i p e m))"
proof -
  obtain pid m1 where s: "win_spawn_process_impl W now [e, i, p] m = (pid, m1)" by fastforce
  have inv: "handles_inv opened m1" using spawn_impl_handles [OF assms, of now "[e, i, p]"] s by simp
  have "handles_inv opened (m1\<lparr>pm_processes := umap_put pid info' (pm_processes m1)\<rparr>)"
    if "map_of (pm_processes m1) pid = Some info" "pi_handle info' = pi_handle info" for info info'
    using handles_inv_same [OF same_handles_put [OF that, of opened "pm_os m1"] inv] by simp
  then show ?thesis using s inv by (auto simp: win_spawn_worker_def split: option.split)
qed

lemma win_step_handles:
  assumes "win_lib_ok W opened" and "win_step W m m'" and "handles_inv opened m"
  shows "handles_inv opened m'"
  using assms(2,3)
  by (cases rule: win_step.cases)
    (auto intro: handles_inv_same spawn_worker_handles [OF assms(1)] process_is_alive_same [OF assms(1)] kill_process_same [OF assms(1)]
      wait_for_exit_same [OF assms(1)] update_heartbeat_same monitor_round_same [OF assms(1)])

section \<open>No handle is lost\<close>

lemma close_entries:
  assumes "win_lib_ok W opened"
  shows "opened (fold (close_entry W) es w) h =
    (if h \<noteq> 0 \<and> h \<in> (pi_handle \<circ> snd) ` set es then None else opened w h)"
  using win_lib_okD(5) [OF assms] by (induction es arbitrary: w) (auto simp: close_entry_def)

lemma cleanup_one_same:
  assumes "win_lib_ok W opened"
  shows "same_handles opened m (cleanup_one (win_os W) polls pid m)"
  unfolding cleanup_one_def
  by (rule same_handles_trans [OF kill_process_same [OF assms] wait_for_exit_same [OF assms]])

lemma cleanup_fold_same:
  assumes "win_lib_ok W opened"
  shows "same_handles opened m (fold (cleanup_one (win_os W) polls) pids m)"
proof (induction pids arbitrary: m)
  case (Cons pid pids)
  show ?case using same_handles_trans [OF cleanup_one_same [OF assms, of m polls pid] Cons] by simp
qed simp

text \<open>In a server on Windows no handle of a worker process is lost: in every state the manager can reach, the open handles are those of its
  table, and \<^verbatim>\<open>cleanup_all\<close> closes every one of them and empties the table, whether or not the processes
  could be terminated.\<close>

theorem win_handles_closed:
  assumes "win_lib_ok W opened" and "(win_step W)\<^sup>*\<^sup>* (new_process_manager w) m" and "opened w = Map.empty"
  shows "handles_inv opened m \<and> opened (pm_os (win_cleanup_all W polls m)) = Map.empty \<and>
    list_processes (win_cleanup_all W polls m) = []"
proof -
  have "handles_inv opened (new_process_manager w)"
    using assms(3) by (simp add: handles_inv_def new_process_manager_def handle_of_def)
  with assms(2) have inv: "handles_inv opened m"
    by (induction rule: rtranclp_induct) (auto intro: win_step_handles [OF assms(1)])
  define m1 where "m1 = fold (cleanup_one (win_os W) polls) (list_processes m) m"
  have inv1: "handles_inv opened m1"
    unfolding m1_def using handles_inv_same [OF cleanup_fold_same [OF assms(1)] inv] .
  have "opened (fold (close_entry W) (pm_processes m1) (pm_os m1)) h = None" for h
  proof (cases "opened (pm_os m1) h")
    case (Some pid)
    then obtain info where "map_of (pm_processes m1) pid = Some info" "pi_handle info = h"
      using inv1 unfolding handles_inv_def handle_of_def by auto
    then have "h \<in> (pi_handle \<circ> snd) ` set (pm_processes m1)" by (force dest: map_of_SomeD)
    moreover have "h \<noteq> 0" using Some inv1 by (auto simp: handles_inv_def)
    ultimately show ?thesis using close_entries [OF assms(1)] by simp
  qed (simp add: close_entries [OF assms(1)])
  then have "opened (pm_os (win_cleanup_all W polls m)) = Map.empty"
    by (simp add: win_cleanup_all_def Let_def fun_eq_iff flip: m1_def)
  moreover have "list_processes (win_cleanup_all W polls m) = []"
    by (simp add: win_cleanup_all_def list_processes_def umap_keys_def Let_def)
  ultimately show ?thesis using inv by blast
qed

section \<open>Witness\<close>

text \<open>A system that numbers identifiers and handles; the state is the next number and the open handles.\<close>

definition table_win :: "(int \<times> (handle \<rightharpoonup> pid)) win_lib" where
  "table_win =
     \<lparr>wn_create_process = (\<lambda>cmd (n, t). if 0 < n \<and> t n = None \<and> t (- n) = None \<and> n \<notin> ran t
        then (Some (n, n, - n), (n + 1, t(n \<mapsto> n))) else (None, (n, t))),
      wn_terminate_process = (\<lambda>h c s. (True, s)), wn_exit_code = (\<lambda>h s. (Some 1, s)),
      wn_close_handle = (\<lambda>h (n, t). (n, t(h := None)))\<rparr>"

lemma table_win_ok: "win_lib_ok table_win snd"
  by (auto simp: win_lib_ok_def table_win_def split: if_splits)

theorem win_handles_closed_witness:
  "snd (pm_os (snd (win_spawn_worker table_win 5 ''dmm'' ''p.dll'' ''instrument-worker'' (new_process_manager (7, Map.empty))))) 7 = Some 7 \<and>
   snd (pm_os (win_cleanup_all table_win 20
     (snd (win_spawn_worker table_win 5 ''dmm'' ''p.dll'' ''instrument-worker'' (new_process_manager (7, Map.empty)))))) = Map.empty"
proof -
  let ?m = "snd (win_spawn_worker table_win 5 ''dmm'' ''p.dll'' ''instrument-worker'' (new_process_manager (7, Map.empty)))"
  have "(win_step table_win)\<^sup>*\<^sup>* (new_process_manager (7, Map.empty)) ?m" by (rule r_into_rtranclp) (rule win_step.spawn)
  from win_handles_closed [OF table_win_ok this, of 20]
  have "snd (pm_os (win_cleanup_all table_win 20 ?m)) = Map.empty" by simp
  moreover have "snd (pm_os ?m) 7 = Some 7"
    by (simp add: win_spawn_worker_def win_spawn_process_impl_def table_win_def new_process_manager_def)
  ultimately show ?thesis by blast
qed

end
