(* ===== verification/Worker_Proxy.thy ===== *)
theory Worker_Proxy
  imports Codec Ipc Sync_Coordinator Process_Manager
begin

text \<open>
  \<^verbatim>\<open>InstrumentWorkerProxy\<close> (\<^verbatim>\<open>src/server/InstrumentWorkerProxy.cpp\<close>): the server's end of one worker. It
  numbers commands, keeps a promise for each until the response arrives, and passes acknowledgements
  to the synchronisation coordinator. The proxy's own fields are the record \<open>proxy\<close>; what it shares
  with the rest of the server (the coordinator it holds by reference, the process manager, the
  shared memory) is the record \<open>shared\<close>.

  A future is named by the message identifier it belongs to. \<open>px_pending\<close> holds the identifiers whose
  promise is in \<^verbatim>\<open>pending_responses_\<close>, \<open>px_ready\<close> the values that promises were given.
\<close>

section \<open>State\<close>

record proxy_stats =
  st_commands_sent :: u64
  st_commands_completed :: u64
  st_commands_failed :: u64
  st_commands_timeout :: u64

record proxy =
  px_instrument_name :: string
  px_plugin_path :: string
  px_config_json :: string
  px_api_def_json :: string
  px_ipc_queue :: "shared_queue option"
  px_worker_pid :: pid
  px_pending :: "u64 list"
  px_ready :: "(u64, command_response) umap"
  px_listening :: bool  \<comment> \<open>the response thread runs\<close>
  px_running :: bool
  px_stats :: proxy_stats
  px_next_message_id :: u64

record ('w, 'o) shared =
  sh_shm :: 'w
  sh_processes :: "'o process_manager"
  sh_sync :: sync_coordinator

definition new_proxy :: "string \<Rightarrow> string \<Rightarrow> string \<Rightarrow> string \<Rightarrow> proxy" where
  "new_proxy instrument_name plugin_path config_json api_def_json =
     \<lparr>px_instrument_name = instrument_name, px_plugin_path = plugin_path, px_config_json = config_json,
      px_api_def_json = api_def_json, px_ipc_queue = None, px_worker_pid = 0, px_pending = [],
      px_ready = [], px_listening = False, px_running = False,
      px_stats = \<lparr>st_commands_sent = 0, st_commands_completed = 0, st_commands_failed = 0, st_commands_timeout = 0\<rparr>,
      px_next_message_id = 1\<rparr>"

text \<open>\<^verbatim>\<open>promise.set_value\<close> followed by erasing the promise.\<close>

definition fulfil :: "u64 \<Rightarrow> command_response \<Rightarrow> proxy \<Rightarrow> proxy" where
  "fulfil msg_id resp px =
     px\<lparr>px_ready := umap_put msg_id resp (px_ready px), px_pending := removeAll msg_id (px_pending px)\<rparr>"

definition error_response :: "proxy \<Rightarrow> string \<Rightarrow> command_response" where
  "error_response px message =
     default_response\<lparr>cr_instrument_name := px_instrument_name px, cr_success := False, cr_error_message := message\<rparr>"

section \<open>Starting and stopping\<close>

definition proxy_send :: "'w mq_lib \<Rightarrow> ipc_message \<Rightarrow> int \<Rightarrow> shared_queue \<Rightarrow> ('w, 'o) shared \<Rightarrow> bool \<times> ('w, 'o) shared" where
  "proxy_send mq msg timeout q sh =
     (case send_msg mq msg timeout q (sh_shm sh) of (sent, w) \<Rightarrow> (sent, sh\<lparr>sh_shm := w\<rparr>))"

definition proxy_is_alive :: "'o os_lib \<Rightarrow> proxy \<Rightarrow> ('w, 'o) shared \<Rightarrow> bool \<times> ('w, 'o) shared" where
  "proxy_is_alive os px sh =
     (if px_worker_pid px = 0 then (False, sh)
      else case process_is_alive os (px_worker_pid px) (sh_processes sh) of (b, m) \<Rightarrow> (b, sh\<lparr>sh_processes := m\<rparr>))"

definition send_shutdown_message :: "'w mq_lib \<Rightarrow> proxy \<Rightarrow> ('w, 'o) shared \<Rightarrow> ('w, 'o) shared" where
  "send_shutdown_message mq px sh =
     (case px_ipc_queue px of
        Some q \<Rightarrow>
          if is_valid q
          then snd (proxy_send mq (new_message\<lparr>im_type := SHUTDOWN, im_id := 0, im_sync_token := 0, im_payload_size := 0\<rparr>)
                      100 q sh)
          else sh
      | None \<Rightarrow> sh)"

definition stop_worker_process :: "'o os_lib \<Rightarrow> nat \<Rightarrow> proxy \<Rightarrow> ('w, 'o) shared \<Rightarrow> ('w, 'o) shared" where
  "stop_worker_process os polls px sh =
     (if px_worker_pid px \<noteq> 0
      then case wait_for_exit os polls (px_worker_pid px) (sh_processes sh) of
          (True, m) \<Rightarrow> sh\<lparr>sh_processes := m\<rparr>
        | (False, m) \<Rightarrow> sh\<lparr>sh_processes := snd (kill_process os (px_worker_pid px) True m)\<rparr>
      else sh)"

text \<open>The thread is joined, or detached after the timeout: in both cases the proxy is done with it.\<close>

definition join_response_thread_with_timeout :: "proxy \<Rightarrow> proxy" where
  "join_response_thread_with_timeout px =
     (if px_listening px then px\<lparr>px_running := False, px_listening := False\<rparr> else px)"

text \<open>The loop over the pending promises, which two functions share.\<close>

definition fail_pending :: "string \<Rightarrow> proxy \<Rightarrow> proxy" where
  "fail_pending message px =
     px\<lparr>px_ready := fold (\<lambda>msg_id. umap_put msg_id (error_response px message)) (px_pending px) (px_ready px),
        px_pending := []\<rparr>"

definition cleanup_pending_promises :: "proxy \<Rightarrow> proxy" where
  "cleanup_pending_promises px = fail_pending ''Worker stopped'' px"

definition cleanup_ipc :: "'w mq_lib \<Rightarrow> proxy \<times> ('w, 'o) shared \<Rightarrow> proxy \<times> ('w, 'o) shared" where
  "cleanup_ipc mq s =
     ((fst s)\<lparr>px_ipc_queue := None\<rparr>,
      (snd s)\<lparr>sh_shm := cleanup_queues mq (px_instrument_name (fst s)) (sh_shm (snd s))\<rparr>)"

definition proxy_stop :: "'w mq_lib \<Rightarrow> 'o os_lib \<Rightarrow> nat \<Rightarrow> proxy \<times> ('w, 'o) shared \<Rightarrow> proxy \<times> ('w, 'o) shared" where
  "proxy_stop mq os polls s =
     (case s of (px, sh) \<Rightarrow>
        if \<not> px_running px then (px, sh)
        else
          let px1 = px\<lparr>px_running := False\<rparr>;
              sh1 = send_shutdown_message mq px1 sh;
              sh2 = stop_worker_process os polls px1 sh1;
              px2 = join_response_thread_with_timeout px1;
              px3 = cleanup_pending_promises px2
          in cleanup_ipc mq (px3, sh2))"

text \<open>\<^verbatim>\<open>start\<close>, with the clock reading of the spawn. (Starting again while the response thread still runs
  would end the process; the code does not check.)\<close>

definition proxy_start ::
  "'w mq_lib \<Rightarrow> 'o os_lib \<Rightarrow> u64 \<Rightarrow> nat \<Rightarrow> proxy \<times> ('w, 'o) shared \<Rightarrow> bool \<times> proxy \<times> ('w, 'o) shared"
where
  "proxy_start mq os now polls s =
     (case s of (px, sh) \<Rightarrow>
        case create_server_queue mq (px_instrument_name px) (sh_shm sh) of
          (Inl e, w) \<Rightarrow> (False, px, sh\<lparr>sh_shm := w\<rparr>)
        | (Inr q, w) \<Rightarrow>
            (case spawn_worker os now (px_instrument_name px) (px_plugin_path px) ''instrument-worker'' (sh_processes sh) of
               (pid, m) \<Rightarrow>
                 let px1 = px\<lparr>px_ipc_queue := Some q, px_worker_pid := pid\<rparr>;
                     sh1 = sh\<lparr>sh_shm := w, sh_processes := m\<rparr>
                 in if pid = 0 then (False, px1, sh1)
                    else
                      let px2 = px1\<lparr>px_running := True, px_listening := True\<rparr> in
                      case proxy_is_alive os px2 sh1 of
                        (False, sh2) \<Rightarrow> (False, proxy_stop mq os polls (px2, sh2))
                      | (True, sh2) \<Rightarrow> (True, px2, sh2)))"

section \<open>Commands\<close>

definition command_id_string :: "string \<Rightarrow> u64 \<Rightarrow> string" where
  "command_id_string instrument_name msg_id = instrument_name @ ''-'' @ show_nat (unat msg_id)"

definition command_message :: "u64 \<Rightarrow> serialized_command \<Rightarrow> string \<Rightarrow> ipc_message" where
  "command_message msg_id cmd payload =
     put_payload payload (new_message\<lparr>im_type := COMMAND, im_id := msg_id,
       im_sync_token := (case sc_sync_token cmd of None \<Rightarrow> 0 | Some t \<Rightarrow> t)\<rparr>)"

text \<open>
  \<^verbatim>\<open>execute\<close>: the identifier of the future it returns. A throw of the serialisation leaves the promise in the
  table; sending through a queue that was never created dereferences a null pointer.
\<close>

definition proxy_execute ::
  "json_lib \<Rightarrow> 'w mq_lib \<Rightarrow> serialized_command \<Rightarrow> proxy \<times> ('w, 'o) shared \<Rightarrow>
   u64 result \<times> proxy \<times> ('w, 'o) shared"
where
  "proxy_execute L mq cmd0 s =
     (case s of (px, sh) \<Rightarrow>
        let msg_id = px_next_message_id px;
            cmd = cmd0\<lparr>sc_id := command_id_string (px_instrument_name px) msg_id\<rparr>;
            px1 = px\<lparr>px_next_message_id := msg_id + 1, px_pending := List.insert msg_id (px_pending px)\<rparr>
        in case serialize_command L cmd of
             Inl e \<Rightarrow> (Inl e, px1, sh)
           | Inr payload \<Rightarrow>
               (case px_ipc_queue px of
                  None \<Rightarrow> (Inl ''null pointer: ipc_queue_'', px1, sh)
                | Some q \<Rightarrow>
                    (case proxy_send mq (command_message msg_id cmd payload) (sint (sc_timeout cmd)) q sh of
                       (True, sh1) \<Rightarrow>
                         (Inr msg_id, px1\<lparr>px_stats := (px_stats px1)\<lparr>st_commands_sent := st_commands_sent (px_stats px1) + 1\<rparr>\<rparr>, sh1)
                     | (False, sh1) \<Rightarrow>
                         (Inr msg_id, fulfil msg_id ((error_response px ''IPC send timeout'')\<lparr>cr_command_id := sc_id cmd\<rparr>) px1, sh1))))"

text \<open>The end of \<^verbatim>\<open>execute_sync\<close>, after the wait: the future's value if it has one, and else a timeout
  response with the moved-from identifier, whatever that is.\<close>

definition sync_timeout :: "string \<Rightarrow> proxy \<Rightarrow> command_response \<times> proxy" where
  "sync_timeout moved_id px =
     ((error_response px ''Command timeout'')\<lparr>cr_command_id := moved_id\<rparr>,
      px\<lparr>px_stats := (px_stats px)\<lparr>st_commands_timeout := st_commands_timeout (px_stats px) + 1\<rparr>\<rparr>)"

definition execute_sync_result :: "string \<Rightarrow> u64 \<Rightarrow> proxy \<Rightarrow> command_response \<times> proxy" where
  "execute_sync_result moved_id msg_id px =
     (case map_of (px_ready px) msg_id of
        Some r \<Rightarrow> (r, px)
      | None \<Rightarrow> sync_timeout moved_id px)"

section \<open>The response thread\<close>

definition handle_response_message :: "json_lib \<Rightarrow> ipc_message \<Rightarrow> proxy \<Rightarrow> proxy result" where
  "handle_response_message L msg px =
     (case read_payload msg of
        None \<Rightarrow> Inl ''payload out of bounds''
      | Some payload \<Rightarrow>
          bind_result (deserialize_response L payload) (\<lambda>resp.
            Inr (if im_id msg \<in> set (px_pending px)
                 then
                   let px1 = fulfil (im_id msg) resp px; st = px_stats px in
                   px1\<lparr>px_stats := (if cr_success resp
                     then st\<lparr>st_commands_completed := st_commands_completed st + 1\<rparr>
                     else st\<lparr>st_commands_failed := st_commands_failed st + 1\<rparr>)\<rparr>
                 else px)))"

definition send_sync_continue :: "'w mq_lib \<Rightarrow> u64 \<Rightarrow> proxy \<Rightarrow> ('w, 'o) shared \<Rightarrow> ('w, 'o) shared" where
  "send_sync_continue mq sync_token px sh =
     (case px_ipc_queue px of
        None \<Rightarrow> sh
      | Some q \<Rightarrow>
          if \<not> is_valid q then sh
          else snd (proxy_send mq
            (new_message\<lparr>im_type := SYNC_CONTINUE, im_id := 0, im_sync_token := sync_token, im_payload_size := 0\<rparr>) 1000 q sh))"

definition handle_sync_ack_message :: "'w mq_lib \<Rightarrow> ipc_message \<Rightarrow> proxy \<Rightarrow> ('w, 'o) shared \<Rightarrow> ('w, 'o) shared" where
  "handle_sync_ack_message mq msg px sh =
     (case handle_ack (im_sync_token msg) (px_instrument_name px) (sh_sync sh) of
        (barrier_complete, c) \<Rightarrow>
          let sh1 = sh\<lparr>sh_sync := c\<rparr> in
          if barrier_complete then send_sync_continue mq (im_sync_token msg) px sh1 else sh1)"

definition handle_ipc_message ::
  "json_lib \<Rightarrow> 'w mq_lib \<Rightarrow> u64 \<Rightarrow> ipc_message \<Rightarrow> proxy \<times> ('w, 'o) shared \<Rightarrow> (proxy \<times> ('w, 'o) shared) result"
where
  "handle_ipc_message L mq now msg s =
     (case s of (px, sh) \<Rightarrow>
        case im_type msg of
          HEARTBEAT \<Rightarrow> Inr (px, sh\<lparr>sh_processes := update_heartbeat now (px_worker_pid px) (sh_processes sh)\<rparr>)
        | RESPONSE \<Rightarrow> bind_result (handle_response_message L msg px) (\<lambda>px'. Inr (px', sh))
        | SYNC_ACK \<Rightarrow> Inr (px, handle_sync_ack_message mq msg px sh)
        | _ \<Rightarrow> Inr (px, sh))"

text \<open>One round of \<^verbatim>\<open>response_listener_loop\<close>.\<close>

definition listener_round ::
  "json_lib \<Rightarrow> 'w mq_lib \<Rightarrow> u64 \<Rightarrow> proxy \<times> ('w, 'o) shared \<Rightarrow> (proxy \<times> ('w, 'o) shared) result"
where
  "listener_round L mq now s =
     (case s of (px, sh) \<Rightarrow>
        case px_ipc_queue px of
          None \<Rightarrow> Inr (px\<lparr>px_listening := False\<rparr>, sh)
        | Some q \<Rightarrow>
            if \<not> is_valid q then Inr (px\<lparr>px_listening := False\<rparr>, sh)
            else case receive_msg mq 100 q (sh_shm sh) of
                (None, w) \<Rightarrow> Inr (px, sh\<lparr>sh_shm := w\<rparr>)
              | (Some msg, w) \<Rightarrow> handle_ipc_message L mq now msg (px, sh\<lparr>sh_shm := w\<rparr>))"

definition handle_worker_death :: "proxy \<Rightarrow> proxy" where
  "handle_worker_death px = fail_pending ''Worker process died'' px"

section \<open>Histories\<close>

text \<open>
  What can happen to a proxy; \<open>k\<close> counts the commands of the step. The shared state is arbitrary at every
  step, for other threads, other proxies and the worker processes act on it at any time. A throw
  in the response thread ends the server, so it has no successor.
\<close>

inductive proxy_step :: "json_lib \<Rightarrow> 'w mq_lib \<Rightarrow> 'o os_lib \<Rightarrow> nat \<Rightarrow> proxy \<Rightarrow> proxy \<Rightarrow> bool" for L mq os where
  execute: "proxy_execute L mq cmd (px, sh :: ('w, 'o) shared) = (r, px', sh') \<Longrightarrow> proxy_step L mq os 1 px px'"
| listen: "listener_round L mq now (px, sh :: ('w, 'o) shared) = Inr (px', sh') \<Longrightarrow> proxy_step L mq os 0 px px'"
| start: "proxy_start mq os now polls (px, sh) = (b, px', sh') \<Longrightarrow> proxy_step L mq os 0 px px'"
| stop: "proxy_stop mq os polls (px, sh) = (px', sh') \<Longrightarrow> proxy_step L mq os 0 px px'"
| death: "proxy_step L mq os 0 px (handle_worker_death px)"

inductive proxy_reachable :: "json_lib \<Rightarrow> 'w mq_lib \<Rightarrow> 'o os_lib \<Rightarrow> nat \<Rightarrow> proxy \<Rightarrow> bool" for L mq os where
  new: "proxy_reachable L mq os 0 (new_proxy a b c d)"
| step: "proxy_reachable L mq os n px \<Longrightarrow> proxy_step L mq os k px px' \<Longrightarrow> proxy_reachable L mq os (n + k) px'"

inductive_cases proxy_step_cases: "proxy_step L mq os k px px'"

section \<open>Invariant\<close>

definition issued_ids :: "proxy \<Rightarrow> u64 set" where
  "issued_ids px = {c. 1 \<le> c \<and> c < px_next_message_id px}"

definition proxy_inv :: "nat \<Rightarrow> proxy \<Rightarrow> bool" where
  "proxy_inv n px \<longleftrightarrow> unat (px_next_message_id px) = Suc n \<and> distinct (px_pending px) \<and>
     set (px_pending px) \<union> dom (map_of (px_ready px)) = issued_ids px \<and>
     set (px_pending px) \<inter> dom (map_of (px_ready px)) = {}"

lemma map_of_fold_same:
  "map_of (fold (\<lambda>k. umap_put k v) ks m) k = (if k \<in> set ks then Some v else map_of m k)"
  by (induction ks arbitrary: m) auto

lemma fail_pending_simps [simp]:
  "px_pending (fail_pending t px) = []"
  "map_of (px_ready (fail_pending t px)) k =
     (if k \<in> set (px_pending px) then Some (error_response px t) else map_of (px_ready px) k)"
  "px_next_message_id (fail_pending t px) = px_next_message_id px"
  "px_instrument_name (fail_pending t px) = px_instrument_name px"
  by (simp_all add: fail_pending_def map_of_fold_same)

lemma dom_fail_pending:
  "dom (map_of (px_ready (fail_pending t px))) = set (px_pending px) \<union> dom (map_of (px_ready px))"
  by (auto simp: dom_def split: if_splits)

lemma proxy_inv_fail [invs]: "proxy_inv n px \<Longrightarrow> proxy_inv n (fail_pending t px)"
  by (simp add: proxy_inv_def dom_fail_pending issued_ids_def)

lemma proxy_inv_same:
  "proxy_inv n px \<Longrightarrow> px_pending px' = px_pending px \<Longrightarrow> px_ready px' = px_ready px \<Longrightarrow>
   px_next_message_id px' = px_next_message_id px \<Longrightarrow> proxy_inv n px'"
  by (simp add: proxy_inv_def issued_ids_def)

lemma proxy_stop_alt:
  "fst (proxy_stop mq os polls (px, sh)) =
     (if px_running px
      then (fail_pending ''Worker stopped'' (join_response_thread_with_timeout (px\<lparr>px_running := False\<rparr>)))\<lparr>px_ipc_queue := None\<rparr>
      else px)"
  by (simp add: proxy_stop_def cleanup_ipc_def cleanup_pending_promises_def Let_def)

lemma proxy_inv_stop [invs]: "proxy_inv n px \<Longrightarrow> proxy_inv n (fst (proxy_stop mq os polls (px, sh)))"
proof -
  assume "proxy_inv n px"
  then have "proxy_inv n (join_response_thread_with_timeout (px\<lparr>px_running := False\<rparr>))"
    by (rule proxy_inv_same) (simp_all add: join_response_thread_with_timeout_def)
  then have "proxy_inv n ((fail_pending ''Worker stopped'' (join_response_thread_with_timeout (px\<lparr>px_running := False\<rparr>)))\<lparr>px_ipc_queue := None\<rparr>)"
    by - (rule proxy_inv_same [OF proxy_inv_fail]; simp)
  with \<open>proxy_inv n px\<close> show ?thesis by (simp add: proxy_stop_alt)
qed

lemma proxy_inv_start [invs]:
  assumes "proxy_inv n px"
  shows "proxy_inv n (fst (snd (proxy_start mq os now polls (px, sh))))"
proof -
  have "proxy_inv n (px\<lparr>px_ipc_queue := q, px_worker_pid := p\<rparr>)" for q p
    using assms by (rule proxy_inv_same) simp_all
  moreover have "proxy_inv n (px\<lparr>px_ipc_queue := q, px_worker_pid := p, px_running := True, px_listening := True\<rparr>)" for q p
    using assms by (rule proxy_inv_same) simp_all
  ultimately show ?thesis
    using assms
    by (auto simp: proxy_start_def Let_def invs split: prod.split sum.split bool.split)
qed

lemma proxy_inv_fulfil:
  assumes "proxy_inv n px" and "c \<in> set (px_pending px)"
  shows "proxy_inv n (fulfil c r px)"
  using assms by (auto simp: proxy_inv_def fulfil_def issued_ids_def distinct_removeAll)

lemma handle_response_cases:
  assumes "handle_response_message L msg px = Inr q"
  shows "q = px \<or> (\<exists>r st. im_id msg \<in> set (px_pending px) \<and> q = (fulfil (im_id msg) r px)\<lparr>px_stats := st\<rparr>)"
  using assms
  by (auto simp: handle_response_message_def bind_result_Inr_iff Let_def split: option.splits if_splits)

lemma listener_cases:
  assumes "listener_round L mq now (px, sh) = Inr (px', sh')"
  shows "px' = px \<or> px' = px\<lparr>px_listening := False\<rparr> \<or> (\<exists>msg. handle_response_message L msg px = Inr px')"
  using assms
  by (auto simp: listener_round_def handle_ipc_message_def bind_result_Inr_iff
      split: option.splits if_splits prod.splits msg_type.splits)

lemma proxy_inv_stats [simp]: "proxy_inv n (px\<lparr>px_stats := st\<rparr>) = proxy_inv n px"
  by (simp add: proxy_inv_def issued_ids_def)

lemma proxy_inv_listen:
  assumes "proxy_inv n px" and "listener_round L mq now (px, sh) = Inr (px', sh')"
  shows "proxy_inv n px'"
proof -
  have "proxy_inv n (px\<lparr>px_listening := False\<rparr>)" using assms(1) by (rule proxy_inv_same) simp_all
  moreover have "proxy_inv n q" if "handle_response_message L msg px = Inr q" for msg q
    using handle_response_cases [OF that] assms(1) proxy_inv_fulfil [OF assms(1)] by auto
  ultimately show ?thesis
    using listener_cases [OF assms(2)] assms(1) by auto
qed

definition numbered :: "proxy \<Rightarrow> proxy" where
  "numbered px = px\<lparr>px_next_message_id := px_next_message_id px + 1,
     px_pending := List.insert (px_next_message_id px) (px_pending px)\<rparr>"

lemma proxy_execute_cases:
  assumes "proxy_execute L mq cmd (px, sh) = (r, px', sh')"
  shows "px' = numbered px \<or> (\<exists>st. px' = (numbered px)\<lparr>px_stats := st\<rparr>) \<or>
    (\<exists>resp. px' = fulfil (px_next_message_id px) resp (numbered px))"
proof -
  let ?c = "px_next_message_id px"
  let ?cmd = "cmd\<lparr>sc_id := command_id_string (px_instrument_name px) ?c\<rparr>"
  show ?thesis
  proof (cases "serialize_command L ?cmd")
    case (Inl e)
    then show ?thesis using assms by (simp add: proxy_execute_def Let_def numbered_def)
  next
    case (Inr payload)
    show ?thesis
    proof (cases "px_ipc_queue px")
      case None
      then show ?thesis using assms Inr by (simp add: proxy_execute_def Let_def numbered_def)
    next
      case (Some q)
      obtain sent sh1 where "proxy_send mq (command_message ?c ?cmd payload) (sint (sc_timeout cmd)) q sh = (sent, sh1)"
        by fastforce
      then have "px' = (if sent
          then (numbered px)\<lparr>px_stats := (px_stats px)\<lparr>st_commands_sent := st_commands_sent (px_stats px) + 1\<rparr>\<rparr>
          else fulfil ?c ((error_response px ''IPC send timeout'')\<lparr>cr_command_id := sc_id ?cmd\<rparr>) (numbered px))"
        using assms Inr Some by (cases sent) (simp_all add: proxy_execute_def Let_def numbered_def)
      then show ?thesis by (cases sent) auto
    qed
  qed
qed

lemma proxy_start_cases:
  assumes "proxy_start mq os now polls (px, sh) = (b, px', sh')"
  shows "px' = px \<or> (\<exists>q p. px' = px\<lparr>px_ipc_queue := q, px_worker_pid := p\<rparr>) \<or>
    (\<exists>q p. px' = px\<lparr>px_ipc_queue := q, px_worker_pid := p, px_running := True, px_listening := True\<rparr>) \<or>
    (\<exists>q p sh''. (px', sh') = proxy_stop mq os polls
       (px\<lparr>px_ipc_queue := q, px_worker_pid := p, px_running := True, px_listening := True\<rparr>, sh''))"
proof -
  obtain r w where q: "create_server_queue mq (px_instrument_name px) (sh_shm sh) = (r, w)" by fastforce
  obtain pid m where sp: "spawn_worker os now (px_instrument_name px) (px_plugin_path px) ''instrument-worker''
      (sh_processes sh) = (pid, m)" by fastforce
  show ?thesis
  proof (cases r)
    case (Inl e)
    then show ?thesis using assms q by (simp add: proxy_start_def)
  next
    case (Inr queue)
    let ?px2 = "px\<lparr>px_ipc_queue := Some queue, px_worker_pid := pid, px_running := True, px_listening := True\<rparr>"
    obtain al sh2 where al: "proxy_is_alive os ?px2 (sh\<lparr>sh_shm := w, sh_processes := m\<rparr>) = (al, sh2)" by fastforce
    show ?thesis
    proof (cases "pid = 0")
      case True
      then have "px' = px\<lparr>px_ipc_queue := Some queue, px_worker_pid := pid\<rparr>"
        using assms q sp Inr by (simp add: proxy_start_def Let_def)
      then show ?thesis by blast
    next
      case False
      then have "(px', sh') = (if al then (?px2, sh2) else proxy_stop mq os polls (?px2, sh2))"
        using assms q sp Inr al by (cases al) (simp_all add: proxy_start_def Let_def)
      then show ?thesis by (cases al) (simp_all only: if_True if_False Pair_inject, blast+)
    qed
  qed
qed

lemma issued_ids_next:
  assumes "Suc (unat (px_next_message_id px)) < 2 ^ 64" and "px_next_message_id px' = px_next_message_id px + 1"
    and "1 \<le> px_next_message_id px"
  shows "issued_ids px' = insert (px_next_message_id px) (issued_ids px)"
proof -
  have "c < px_next_message_id px + 1 \<longleftrightarrow> c \<le> px_next_message_id px" for c
    using unat_inc [of "px_next_message_id px"] assms(1)
    by (simp add: word_less_nat_alt word_le_nat_alt less_Suc_eq_le)
  then have "issued_ids px' = {c. 1 \<le> c \<and> c \<le> px_next_message_id px}"
    by (simp add: issued_ids_def assms(2))
  also have "\<dots> = insert (px_next_message_id px) (issued_ids px)"
    unfolding issued_ids_def using assms(3) by (force simp: order.order_iff_strict)
  finally show ?thesis .
qed

lemma proxy_inv_execute:
  assumes "proxy_inv n px" and "proxy_execute L mq cmd (px, sh) = (r, px', sh')" and "n + 1 < 2 ^ 64 - 1"
  shows "proxy_inv (Suc n) px'"
proof -
  let ?c = "px_next_message_id px"
  have c: "unat ?c = Suc n" "Suc (unat ?c) < 2 ^ 64" using assms(1,3) by (auto simp: proxy_inv_def)
  then have c1: "1 \<le> ?c" by (simp add: word_le_nat_alt)
  have fresh: "?c \<notin> set (px_pending px)" "?c \<notin> dom (map_of (px_ready px))"
    using assms(1) by (auto simp: proxy_inv_def issued_ids_def)
  have nxt: "px_next_message_id px' = ?c + 1"
    using proxy_execute_cases [OF assms(2)] by (auto simp: numbered_def fulfil_def)
  note ids = issued_ids_next [OF c(2) nxt c1]
  show ?thesis
    using assms(1) fresh proxy_execute_cases [OF assms(2)] c unat_inc [of ?c] nxt
    unfolding proxy_inv_def ids
    by (elim disjE exE) (auto simp: numbered_def fulfil_def distinct_removeAll dom_def)
qed

lemma proxy_inv_step:
  assumes "proxy_inv n px" and "proxy_step L mq os k px px'" and "n + k < 2 ^ 64 - 1"
  shows "proxy_inv (n + k) px'"
  using assms(2)
proof (cases rule: proxy_step.cases)
  case (execute cmd sh r sh')
  then show ?thesis using proxy_inv_execute [OF assms(1)] assms(3) by simp
next
  case (listen now sh sh')
  then show ?thesis using proxy_inv_listen [OF assms(1)] by simp
next
  case (start now polls sh b sh')
  then show ?thesis using proxy_inv_start [OF assms(1), of mq os now polls sh] by simp
next
  case (stop polls sh sh')
  then show ?thesis using proxy_inv_stop [OF assms(1), of mq os polls sh] by simp
next
  case death
  then show ?thesis using proxy_inv_fail [OF assms(1)] by (simp add: handle_worker_death_def)
qed

lemma proxy_reachable_inv: "proxy_reachable L mq os n px \<Longrightarrow> n < 2 ^ 64 - 1 \<Longrightarrow> proxy_inv n px"
proof (induction rule: proxy_reachable.induct)
  case (new a b c d)
  have "{c :: u64. 1 \<le> c \<and> c < 1} = {}" by auto
  then show ?case by (simp add: proxy_inv_def new_proxy_def issued_ids_def)
next
  case (step n px k px')
  then show ?case by (intro proxy_inv_step) auto
qed

section \<open>Properties\<close>

text \<open>C5: No future is lost or answered twice: in every state a history of fewer than \<open>2 ^ 64 - 1\<close> commands
  can reach, each command sent so far is either pending or has its value, never both, and nothing
  else is pending or answered.\<close>

theorem futures_accounted:
  assumes "proxy_reachable L mq os n px" and "n < 2 ^ 64 - 1"
  shows "distinct (px_pending px) \<and>
    (\<forall>c. (1 \<le> unat c \<and> unat c \<le> n) = (c \<in> set (px_pending px) \<or> map_of (px_ready px) c \<noteq> None)) \<and>
    (\<forall>c. \<not> (c \<in> set (px_pending px) \<and> map_of (px_ready px) c \<noteq> None))"
proof -
  have inv: "proxy_inv n px" using proxy_reachable_inv assms by blast
  have "c \<in> issued_ids px \<longleftrightarrow> 1 \<le> unat c \<and> unat c \<le> n" for c
    using inv by (auto simp: proxy_inv_def issued_ids_def word_less_nat_alt word_le_nat_alt)
  then have "(1 \<le> unat c \<and> unat c \<le> n) = (c \<in> set (px_pending px) \<or> map_of (px_ready px) c \<noteq> None)" for c
    using inv by (auto simp: proxy_inv_def domIff)
  then show ?thesis using inv by (auto simp: proxy_inv_def)
qed

text \<open>A future's value is set once: no later command, response, restart, stop or death of the worker
  changes it.\<close>

theorem future_value_final:
  assumes "proxy_reachable L mq os n px" and "n + k < 2 ^ 64 - 1" and "proxy_step L mq os k px px'"
    and "map_of (px_ready px) c = Some r"
  shows "map_of (px_ready px') c = Some r"
proof -
  have inv: "proxy_inv n px" using proxy_reachable_inv assms(1,2) by fastforce
  have np: "c \<notin> set (px_pending px)" and old: "c < px_next_message_id px"
    using inv assms(4) by (auto simp: proxy_inv_def issued_ids_def)
  have stopped: "map_of (px_ready (fst (proxy_stop mq os polls (q, sh)))) c = Some r"
    if "px_pending q = px_pending px" "px_ready q = px_ready px" for polls q sh
    using that np assms(4)
    by (auto simp: proxy_stop_alt join_response_thread_with_timeout_def)
  show ?thesis
    using assms(3)
  proof (cases rule: proxy_step.cases)
    case (execute cmd sh r' sh')
    then show ?thesis
      using proxy_execute_cases [OF execute(2)] assms(4) old by (auto simp: numbered_def fulfil_def)
  next
    case (listen now sh sh')
    then show ?thesis
      using assms(4) np listener_cases [OF listen(2)]
      by (auto simp: fulfil_def dest!: handle_response_cases)
  next
    case (start now polls sh b sh')
    from proxy_start_cases [OF start(2)] show ?thesis
    proof (elim disjE exE)
      fix q p sh''
      assume "(px', sh') = proxy_stop mq os polls
        (px\<lparr>px_ipc_queue := q, px_worker_pid := p, px_running := True, px_listening := True\<rparr>, sh'')"
      then have "px' = fst (proxy_stop mq os polls
        (px\<lparr>px_ipc_queue := q, px_worker_pid := p, px_running := True, px_listening := True\<rparr>, sh''))"
        by (metis fst_conv)
      then show ?thesis using stopped by simp
    qed (use assms(4) in simp_all)
  next
    case (stop polls sh sh')
    then show ?thesis using stopped [of px polls sh] by simp
  next
    case death
    then show ?thesis using np assms(4) by (simp add: handle_worker_death_def)
  qed
qed

text \<open>C7: Stopping a running proxy answers every command it ever took: those still pending get the error
  response \<^verbatim>\<open>Worker stopped\<close>, the others keep their value, nothing stays pending, and both of the
  instrument's queues are gone, however the worker process behaves.\<close>

theorem stop_fulfils_all:
  assumes "proxy_reachable L mq os n px" and "n < 2 ^ 64 - 1" and "px_running px"
    and "mq_lib_ok mq view" and "plain_name (px_instrument_name px)"
    and "proxy_stop mq os polls (px, sh) = (px', sh')"
  shows "(\<forall>c. 1 \<le> unat c \<and> unat c \<le> n \<longrightarrow> map_of (px_ready px') c =
       (case map_of (px_ready px) c of Some r \<Rightarrow> Some r | None \<Rightarrow> Some (error_response px ''Worker stopped''))) \<and>
    px_pending px' = [] \<and> \<not> px_running px' \<and>
    view (sh_shm sh') (req_of (px_instrument_name px)) = None \<and>
    view (sh_shm sh') (resp_of (px_instrument_name px)) = None"
proof -
  have inv: "proxy_inv n px" using proxy_reachable_inv assms(1,2) by blast
  have px': "px' = (fail_pending ''Worker stopped'' (join_response_thread_with_timeout (px\<lparr>px_running := False\<rparr>)))\<lparr>px_ipc_queue := None\<rparr>"
    using proxy_stop_alt [of mq os polls px sh] assms(3,6) by simp
  have i: "px_instrument_name (join_response_thread_with_timeout (px\<lparr>px_running := False\<rparr>)) = px_instrument_name px"
    by (simp add: join_response_thread_with_timeout_def)
  have "\<exists>w. sh_shm sh' = cleanup_queues mq (px_instrument_name px) w"
    using assms(3,6) i
    by (auto simp: proxy_stop_def cleanup_ipc_def cleanup_pending_promises_def Let_def)
  then have gone: "view (sh_shm sh') (req_of (px_instrument_name px)) = None"
      "view (sh_shm sh') (resp_of (px_instrument_name px)) = None"
    using mq_lib_okD(1) [OF assms(4)] assms(5)
    by (auto simp: cleanup_queues_def c_str_plain plain_queue_name)
  have known: "c \<in> set (px_pending px) \<or> map_of (px_ready px) c \<noteq> None" if "1 \<le> unat c \<and> unat c \<le> n" for c
  proof -
    have "c \<in> issued_ids px"
      using inv that by (auto simp: proxy_inv_def issued_ids_def word_less_nat_alt word_le_nat_alt)
    then show ?thesis using inv by (auto simp: proxy_inv_def domIff)
  qed
  have once: "c \<notin> set (px_pending px)" if "map_of (px_ready px) c = Some r" for c r
    using inv that by (auto simp: proxy_inv_def)
  have vals: "1 \<le> unat c \<and> unat c \<le> n \<longrightarrow> map_of (px_ready px') c =
       (case map_of (px_ready px) c of Some r \<Rightarrow> Some r | None \<Rightarrow> Some (error_response px ''Worker stopped''))" for c
    using known [of c] once [of c]
    by (auto simp: px' join_response_thread_with_timeout_def error_response_def split: option.split)
  then show ?thesis
    using gone by (auto simp: px' join_response_thread_with_timeout_def fail_pending_def)
qed

lemma listener_delivers:
  assumes "mq_lib_ok mq view" and "px_ipc_queue px = Some (server_end i)"
    and "view (sh_shm sh) (resp_of i) = Some (c, msg # ms)" and "im_type msg = RESPONSE"
    and "read_payload msg = Some payload" and "deserialize_response L payload = Inr resp"
    and "im_id msg \<in> set (px_pending px)"
  shows "\<exists>px' sh'. listener_round L mq now (px, sh) = Inr (px', sh') \<and>
    map_of (px_ready px') = (map_of (px_ready px))(im_id msg \<mapsto> resp) \<and>
    set (px_pending px') = set (px_pending px) - {im_id msg} \<and>
    (if cr_success resp
     then st_commands_completed (px_stats px') = st_commands_completed (px_stats px) + 1
     else st_commands_failed (px_stats px') = st_commands_failed (px_stats px) + 1) \<and>
    view (sh_shm sh') = (view (sh_shm sh))(resp_of i \<mapsto> (c, ms))"
proof -
  have r: "fst (receive_msg mq 100 (server_end i) (sh_shm sh)) = Some msg"
      "view (snd (receive_msg mq 100 (server_end i) (sh_shm sh))) = (view (sh_shm sh))(resp_of i \<mapsto> (c, ms))"
    using receive_msg_ok [OF assms(1), of "server_end i" "resp_of i" "sh_shm sh" c msg ms 100] assms(3) by auto
  show ?thesis
    using assms(2,4-7) r
    by (cases "receive_msg mq 100 (server_end i) (sh_shm sh)")
      (simp add: listener_round_def handle_ipc_message_def handle_response_message_def fulfil_def Let_def)
qed

text \<open>A response reaches the command it answers: when the oldest message in the response queue is a
  \<^verbatim>\<open>RESPONSE\<close> whose text decodes, one round of the response thread gives the decoded value to the future
  with the message's identifier if that is pending, counts it, and touches no other future.\<close>

theorem response_delivered:
  assumes "mq_lib_ok mq view" and "px_ipc_queue px = Some (server_end i)"
    and "view (sh_shm sh) (resp_of i) = Some (c, msg # ms)" and "im_type msg = RESPONSE"
    and "read_payload msg = Some payload" and "deserialize_response L payload = Inr resp"
    and "im_id msg \<in> set (px_pending px)"
  shows "\<exists>px' sh'. listener_round L mq now (px, sh) = Inr (px', sh') \<and>
    map_of (px_ready px') = (map_of (px_ready px))(im_id msg \<mapsto> resp) \<and>
    set (px_pending px') = set (px_pending px) - {im_id msg} \<and>
    (if cr_success resp
     then st_commands_completed (px_stats px') = st_commands_completed (px_stats px) + 1
     else st_commands_failed (px_stats px') = st_commands_failed (px_stats px) + 1) \<and>
    view (sh_shm sh') = (view (sh_shm sh))(resp_of i \<mapsto> (c, ms))"
  using assms by (rule listener_delivers)

text \<open>When the acknowledgement that completes a barrier arrives, only the worker that sent it is told
  to continue: one \<^verbatim>\<open>SYNC_CONTINUE\<close> is appended to its own request queue and every other queue stays as
  it was. A barrier that is not complete sends nothing.\<close>

theorem sync_continue_to_self_only:
  assumes "mq_lib_ok mq view" and "px_ipc_queue px = Some (server_end i)"
    and "view (sh_shm sh) (req_of i) = Some (c, ms)" and "length ms < c"
    and "handle_ack (im_sync_token msg) (px_instrument_name px) (sh_sync sh) = (complete, c')"
  shows "\<exists>m. im_type m = SYNC_CONTINUE \<and> im_sync_token m = im_sync_token msg \<and>
    view (sh_shm (handle_sync_ack_message mq msg px sh)) =
      (if complete then (view (sh_shm sh))(req_of i \<mapsto> (c, ms @ [m])) else view (sh_shm sh)) \<and>
    sh_sync (handle_sync_ack_message mq msg px sh) = c'"
proof -
  let ?m = "new_message\<lparr>im_type := SYNC_CONTINUE, im_id := 0, im_sync_token := im_sync_token msg, im_payload_size := 0\<rparr>"
  have "view (snd (send_msg mq ?m 1000 (server_end i) (sh_shm sh))) = (view (sh_shm sh))(req_of i \<mapsto> (c, ms @ [?m]))"
    using send_msg_ok [OF assms(1), of "server_end i" "req_of i"] assms(3,4) by simp
  then have "view (sh_shm (handle_sync_ack_message mq msg px sh)) =
      (if complete then (view (sh_shm sh))(req_of i \<mapsto> (c, ms @ [?m])) else view (sh_shm sh)) \<and>
    sh_sync (handle_sync_ack_message mq msg px sh) = c'"
    using assms(2,5)
    by (simp add: handle_sync_ack_message_def send_sync_continue_def proxy_send_def Let_def case_prod_unfold)
  then show ?thesis by (intro exI [of _ ?m]) simp
qed

section \<open>Witnesses\<close>

text \<open>A proxy that was started and has sent one command.\<close>

definition demo_shared :: "(queues, process_table) shared" where
  "demo_shared = \<lparr>sh_shm = Map.empty, sh_processes = new_process_manager (7, {}, Map.empty), sh_sync = new_coordinator\<rparr>"

definition demo_shm :: queues where
  "demo_shm = [req_of ''dmm'' \<mapsto> (100, []), resp_of ''dmm'' \<mapsto> (100, [])]"

definition demo_px :: proxy where
  "demo_px = (new_proxy ''dmm'' ''/p/serial.so'' ''{}'' ''{}'')\<lparr>px_ipc_queue := Some (server_end ''dmm''),
     px_worker_pid := 7, px_running := True, px_listening := True\<rparr>"

definition demo_sent :: proxy where
  "demo_sent = demo_px\<lparr>px_next_message_id := 2, px_pending := [1],
     px_stats := \<lparr>st_commands_sent = 1, st_commands_completed = 0, st_commands_failed = 0, st_commands_timeout = 0\<rparr>\<rparr>"

definition px_lib :: json_lib where
  "px_lib = docs_lib [command_to_json (default_command\<lparr>sc_id := ''dmm-1''\<rparr>),
     response_to_json (default_response\<lparr>cr_success := True\<rparr>)]"

lemma demo_started: "\<exists>sh'. proxy_start list_mq table_os 5 10 (new_proxy ''dmm'' ''/p/serial.so'' ''{}'' ''{}'', demo_shared) =
  (True, demo_px, sh')"
proof -
  have "plain_name ''dmm''" by (simp add: plain_name_def)
  from create_server_queue_ok [OF list_mq_ok this, of Map.empty]
  have "create_server_queue list_mq ''dmm'' Map.empty = (Inr (server_end ''dmm''), demo_shm)"
    by (simp add: prod_eq_iff demo_shm_def)
  then show ?thesis
    by (simp add: proxy_start_def demo_shared_def new_proxy_def spawn_worker_def spawn_process_impl_def table_os_def
        new_process_manager_def Let_def proxy_is_alive_def process_is_alive_def is_alive_impl_def demo_px_def)
qed

lemma demo_px_reachable: "proxy_reachable px_lib list_mq table_os 0 demo_px"
  using demo_started proxy_reachable.step [OF proxy_reachable.new proxy_step.start] by (metis add.right_neutral)

lemma demo_executes:
  "\<exists>sh'. proxy_execute px_lib list_mq default_command (demo_px, demo_shared\<lparr>sh_shm := demo_shm\<rparr>) = (Inr 1, demo_sent, sh')"
proof -
  have one: "show_nat (Suc 0) = ''1''" by code_simp
  obtain t where "serialize_command px_lib (default_command\<lparr>sc_id := ''dmm-1''\<rparr>) = Inr t"
    using docs_lib_dump_in by (fastforce simp: serialize_command_def px_lib_def)
  then show ?thesis
    by (simp add: proxy_execute_def demo_px_def new_proxy_def command_id_string_def Let_def one proxy_send_def send_msg_def
        list_mq_def demo_shm_def queue_name_inject demo_sent_def)
qed

lemma demo_sent_reachable: "proxy_reachable px_lib list_mq table_os 1 demo_sent"
  using demo_executes proxy_reachable.step [OF demo_px_reachable proxy_step.execute] by (metis add_0)

theorem futures_accounted_witness: "distinct (px_pending demo_sent) \<and> map_of (px_ready demo_sent) 1 = None"
  using futures_accounted [OF demo_sent_reachable] by (auto simp: demo_sent_def)

theorem future_value_final_witness:
  "map_of (px_ready (handle_worker_death (handle_worker_death demo_sent))) 1 =
   Some (error_response demo_sent ''Worker process died'')"
proof -
  have r: "proxy_reachable px_lib list_mq table_os 1 (handle_worker_death demo_sent)"
    using proxy_reachable.step [OF demo_sent_reachable proxy_step.death] by simp
  have v: "map_of (px_ready (handle_worker_death demo_sent)) 1 = Some (error_response demo_sent ''Worker process died'')"
    by (simp add: handle_worker_death_def) (simp add: demo_sent_def)
  show ?thesis
    using future_value_final [OF r _ proxy_step.death v] by simp
qed

theorem stop_fulfils_all_witness:
  "map_of (px_ready (fst (proxy_stop list_mq table_os 10 (demo_sent, demo_shared)))) 1 =
   Some (error_response demo_sent ''Worker stopped'')"
proof -
  have "plain_name (px_instrument_name demo_sent)" "px_running demo_sent" "map_of (px_ready demo_sent) 1 = None"
    by (simp_all add: plain_name_def demo_sent_def demo_px_def new_proxy_def)
  then show ?thesis
    using stop_fulfils_all [OF demo_sent_reachable _ _ list_mq_ok _ prod.collapse [symmetric], of 10 demo_shared]
    by simp
qed

definition demo_answer :: "string \<Rightarrow> ipc_message" where
  "demo_answer t = put_payload t (new_message\<lparr>im_type := RESPONSE, im_id := 1\<rparr>)"

theorem response_delivered_witness:
  "\<exists>t px' sh'. listener_round px_lib list_mq 9
     (demo_sent, demo_shared\<lparr>sh_shm := demo_shm(resp_of ''dmm'' \<mapsto> (100, [demo_answer t]))\<rparr>) = Inr (px', sh') \<and>
     px_pending px' = []"
proof -
  have "show_nat 1 = ''1''" by code_simp
  moreover have "read_nat ''1'' = 1" by code_simp
  ultimately have "jl_parse px_lib ''1'' = Inr (json_norm (response_to_json (default_response\<lparr>cr_success := True\<rparr>)))"
    by (simp add: px_lib_def docs_lib_def)
  moreover have "json_to_response px_lib (json_norm (response_to_json (default_response\<lparr>cr_success := True\<rparr>))) =
      Inr (response_on_wire (default_response\<lparr>cr_success := True\<rparr>))"
    by (rule response_json_roundtrip) (simp add: return_value_finite_def default_response_def)
  ultimately have d: "deserialize_response px_lib ''1'' = Inr (response_on_wire (default_response\<lparr>cr_success := True\<rparr>))"
    by (simp add: deserialize_response_def)
  have p: "read_payload (demo_answer ''1'') = Some ''1''"
    unfolding demo_answer_def by (subst read_put_payload) (simp_all add: new_message_def IPC_MAX_PAYLOAD_def)
  have t: "im_type (demo_answer ''1'') = RESPONSE" by (simp add: demo_answer_def)
  show ?thesis
    using response_delivered [OF list_mq_ok _ _ t p d, of demo_sent "''dmm''"
        "demo_shared\<lparr>sh_shm := demo_shm(resp_of ''dmm'' \<mapsto> (100, [demo_answer ''1'']))\<rparr>" 100 "[]" 9]
    by (auto simp: demo_sent_def demo_px_def demo_answer_def intro!: exI [of _ "''1''"])
qed

theorem sync_continue_to_self_only_witness:
  "\<exists>m. im_type m = SYNC_CONTINUE \<and>
     sh_shm (handle_sync_ack_message list_mq (new_message\<lparr>im_type := SYNC_ACK, im_sync_token := 3\<rparr>) demo_sent
       (demo_shared\<lparr>sh_shm := demo_shm, sh_sync := register_barrier 0 3 [''dmm''] new_coordinator\<rparr>)) (req_of ''dmm'') =
     Some (100, [m])"
proof -
  have "fst (handle_ack 3 ''dmm'' (register_barrier 0 3 [''dmm''] new_coordinator))"
    by (simp add: handle_ack_def register_barrier_def new_coordinator_def)
  then show ?thesis
    using sync_continue_to_self_only [OF list_mq_ok, of demo_sent "''dmm''"
        "demo_shared\<lparr>sh_shm := demo_shm, sh_sync := register_barrier 0 3 [''dmm''] new_coordinator\<rparr>" 100 "[]"
        "new_message\<lparr>im_type := SYNC_ACK, im_sync_token := 3\<rparr>" True
        "snd (handle_ack 3 ''dmm'' (register_barrier 0 3 [''dmm''] new_coordinator))"]
    by (auto simp: demo_sent_def demo_px_def new_proxy_def demo_shm_def queue_name_inject prod_eq_iff)
qed

end
