(* ===== verification/Api_Ref_Resolver.thy ===== *)
theory Api_Ref_Resolver
  imports Cxx_Strings
begin

text \<open>
  \<^verbatim>\<open>src/server/ApiRefResolver.cpp\<close>: from the \<^verbatim>\<open>api_ref\<close> of a configuration to the path of the API
  definition. Paths are strings with the POSIX reading of \<^verbatim>\<open>std::filesystem::path\<close>; the state of the file
  system is an argument.
\<close>

record path_env =
  pe_exists :: "string \<Rightarrow> bool"
  pe_canonical :: "string \<Rightarrow> string result"  \<comment> \<open>throws when the file does not exist\<close>
  pe_current_path :: string

text \<open>\<^verbatim>\<open>path::is_absolute\<close>, \<^verbatim>\<open>path::parent_path\<close> and \<^verbatim>\<open>operator/\<close> on POSIX.\<close>

definition is_absolute :: "string \<Rightarrow> bool" where
  "is_absolute p \<longleftrightarrow> p \<noteq> [] \<and> hd p = CHR ''/''"

definition parent_path :: "string \<Rightarrow> string" where
  "parent_path p =
     (let d = dropWhile (\<lambda>c. c \<noteq> CHR ''/'') (rev p); q = dropWhile (\<lambda>c. c = CHR ''/'') d
      in if d \<noteq> [] \<and> q = [] then ''/'' else rev q)"

definition path_append :: "string \<Rightarrow> string \<Rightarrow> string" where
  "path_append a b =
     (if is_absolute b then b
      else if a = [] \<or> last a = CHR ''/'' then a @ b else a @ ''/'' @ b)"

definition strip_file_scheme :: "string \<Rightarrow> string" where
  "strip_file_scheme s = (if take 7 s = ''file://'' then drop 7 s else s)"

definition resolve_api_ref :: "path_env \<Rightarrow> string \<Rightarrow> string \<Rightarrow> string result" where
  "resolve_api_ref env api_ref config_path =
     (if api_ref = [] then Inl ''Empty api_ref''
      else
        let p = strip_file_scheme api_ref in
        if p = [] then Inl (''Invalid api_ref: '' @ [CHR 0x27] @ api_ref @ [CHR 0x27])
        else if is_absolute p then
          (if \<not> pe_exists env p then Inl (''API definition file not found: '' @ p) else pe_canonical env p)
        else
          let cfg_parent = (if parent_path config_path = [] then pe_current_path env else parent_path config_path);
              attempt1 = path_append cfg_parent p;
              attempt2 = path_append (pe_current_path env) p
          in if pe_exists env attempt1 then pe_canonical env attempt1
             else if pe_exists env attempt2 then pe_canonical env attempt2
             else Inl (''API definition file not found: '' @ attempt1))"

text \<open>The contract: where a definition is looked for, the most preferred place first.\<close>

definition api_candidates :: "path_env \<Rightarrow> string \<Rightarrow> string \<Rightarrow> string list" where
  "api_candidates env config_path p =
     (if is_absolute p then [p]
      else map (\<lambda>dir. path_append dir p)
        [if parent_path config_path = [] then pe_current_path env else parent_path config_path, pe_current_path env])"

text \<open>The resolver returns the canonical path of an existing file and prefers the directory of the
  configuration: the candidates, in order, are the absolute path itself, or the path relative to the
  configuration and then to the current directory; the first that exists is taken and an error names
  the preferred one when there is none.\<close>

theorem resolve_first_existing:
  assumes "api_ref \<noteq> []" and "strip_file_scheme api_ref \<noteq> []"
  shows "resolve_api_ref env api_ref config_path =
    (case filter (pe_exists env) (api_candidates env config_path (strip_file_scheme api_ref)) of
       [] \<Rightarrow> Inl (''API definition file not found: '' @ hd (api_candidates env config_path (strip_file_scheme api_ref)))
     | q # _ \<Rightarrow> pe_canonical env q)"
  using assms by (auto simp: resolve_api_ref_def api_candidates_def Let_def)

theorem resolve_first_existing_witness:
  "resolve_api_ref \<lparr>pe_exists = (\<lambda>p. p = ''/cfg/api.yml''), pe_canonical = Inr, pe_current_path = ''/home''\<rparr>
     ''api.yml'' ''/cfg/dmm.yml'' = Inr ''/cfg/api.yml''"
proof -
  have "parent_path ''/cfg/dmm.yml'' = ''/cfg''" by code_simp
  moreover have "strip_file_scheme ''api.yml'' = ''api.yml''" by code_simp
  moreover have "path_append ''/cfg'' ''api.yml'' = ''/cfg/api.yml''" "path_append ''/home'' ''api.yml'' = ''/home/api.yml''"
    by code_simp+
  moreover have "\<not> is_absolute ''api.yml''" by code_simp
  ultimately show ?thesis
    using resolve_first_existing [of "''api.yml''" "\<lparr>pe_exists = (\<lambda>p. p = ''/cfg/api.yml''), pe_canonical = Inr, pe_current_path = ''/home''\<rparr>"
        "''/cfg/dmm.yml''"] by (simp add: api_candidates_def)
qed

end
