(* ===== verification/Yaml.thy ===== *)
theory Yaml
  imports Cxx_Strings
begin

text \<open>
  YAML documents as \<^verbatim>\<open>YAML::Node\<close> gives access to them. Reading a file and the conversion of scalars to
  numbers belong to the library and are fields of \<open>yaml_lib\<close>; the accessors the sources use on the
  nodes are functions here. A document is a tree: an alias is a copy of what it refers to. The texts of
  the exceptions are abbreviated.
\<close>

section \<open>Documents\<close>

datatype yaml =
    YUndefined
  | YNull
  | YScalar string
  | YSeq "yaml list"
  | YMap "(yaml \<times> yaml) list"

record yaml_lib =
  yl_load_file :: "string \<Rightarrow> yaml result"
  yl_as_int :: "string \<Rightarrow> int option"  \<comment> \<open>\<^verbatim>\<open>as<int64_t>\<close>; \<^const>\<open>None\<close> is a throw\<close>
  yl_as_int32 :: "string \<Rightarrow> int option"  \<comment> \<open>\<^verbatim>\<open>as<int>\<close>\<close>
  yl_as_double :: "string \<Rightarrow> double option"
  yl_as_bool :: "string \<Rightarrow> bool option"

text \<open>\<^verbatim>\<open>as<std::string>\<close>: a scalar's text, \<^verbatim>\<open>null\<close> for a null node, a throw for the others.\<close>

fun yaml_as_string :: "yaml \<Rightarrow> string result" where
  "yaml_as_string (YScalar s) = Inr s"
| "yaml_as_string YNull = Inr ''null''"
| "yaml_as_string _ = Inl ''bad conversion''"

text \<open>\<^verbatim>\<open>if (node)\<close>: a null node is defined, the result of a subscript that finds nothing is not.\<close>

definition y_defined :: "yaml \<Rightarrow> bool" where
  "y_defined n \<longleftrightarrow> n \<noteq> YUndefined"

fun is_scalar :: "yaml \<Rightarrow> bool" where
  "is_scalar (YScalar s) = True"
| "is_scalar _ = False"

fun is_sequence :: "yaml \<Rightarrow> bool" where
  "is_sequence (YSeq ns) = True"
| "is_sequence _ = False"

fun is_map :: "yaml \<Rightarrow> bool" where
  "is_map (YMap kvs) = True"
| "is_map _ = False"

text \<open>The value of the first pair whose key is the scalar \<open>k\<close>; keys may repeat in a parsed document.\<close>

fun y_lookup :: "(yaml \<times> yaml) list \<Rightarrow> string \<Rightarrow> yaml" where
  "y_lookup [] k = YUndefined"
| "y_lookup ((key, v) # kvs) k = (if key = YScalar k then v else y_lookup kvs k)"

text \<open>\<^verbatim>\<open>node[k]\<close> for a name \<open>k\<close>: a throw on a scalar and on what an earlier subscript did not find.\<close>

fun y_sub :: "yaml \<Rightarrow> string \<Rightarrow> yaml result" where
  "y_sub (YMap kvs) k = Inr (y_lookup kvs k)"
| "y_sub (YSeq ns) k = Inr YUndefined"
| "y_sub YNull k = Inr YUndefined"
| "y_sub (YScalar s) k = Inl ''operator[] call on a scalar''"
| "y_sub YUndefined k = Inl ''invalid node''"

text \<open>The nodes of \<^verbatim>\<open>for (const auto &x : node)\<close>. The elements of a map are pairs, which as nodes are invalid;
  the other kinds of node are empty ranges.\<close>

fun y_elems :: "yaml \<Rightarrow> yaml list" where
  "y_elems (YSeq ns) = ns"
| "y_elems (YMap kvs) = replicate (length kvs) YUndefined"
| "y_elems _ = []"

text \<open>The pairs of an iterator from \<^verbatim>\<open>begin()\<close> to \<^verbatim>\<open>end()\<close>; for a sequence key and value are invalid.\<close>

fun y_pairs :: "yaml \<Rightarrow> (yaml \<times> yaml) list" where
  "y_pairs (YMap kvs) = kvs"
| "y_pairs (YSeq ns) = replicate (length ns) (YUndefined, YUndefined)"
| "y_pairs _ = []"

fun as_number :: "(string \<Rightarrow> 'a option) \<Rightarrow> yaml \<Rightarrow> 'a result" where
  "as_number conv (YScalar s) = (case conv s of Some x \<Rightarrow> Inr x | None \<Rightarrow> Inl ''bad conversion'')"
| "as_number conv _ = Inl ''bad conversion''"

text \<open>\<^verbatim>\<open>node[k] = v\<close>: the pair is replaced or appended; a node that holds nothing becomes a map, a sequence
  becomes a map from its indices.\<close>

fun y_put :: "string \<Rightarrow> yaml \<Rightarrow> (yaml \<times> yaml) list \<Rightarrow> (yaml \<times> yaml) list" where
  "y_put k v [] = [(YScalar k, v)]"
| "y_put k v ((key, w) # kvs) = (if key = YScalar k then (key, v) # kvs else (key, w) # y_put k v kvs)"

fun y_set :: "string \<Rightarrow> yaml \<Rightarrow> yaml \<Rightarrow> yaml result" where
  "y_set k v (YMap kvs) = Inr (YMap (y_put k v kvs))"
| "y_set k v (YSeq ns) = Inr (YMap (y_put k v (map (\<lambda>(i, n). (YScalar (show_nat i), n)) (enumerate 0 ns))))"
| "y_set k v (YScalar s) = Inl ''operator[] call on a scalar''"
| "y_set k v _ = Inr (YMap [(YScalar k, v)])"

text \<open>\<^verbatim>\<open>node.push_back(v)\<close>.\<close>

fun y_push :: "yaml \<Rightarrow> yaml \<Rightarrow> yaml result" where
  "y_push v (YSeq ns) = Inr (YSeq (ns @ [v]))"
| "y_push v YNull = Inr (YSeq [v])"
| "y_push v YUndefined = Inr (YSeq [v])"
| "y_push v _ = Inl ''appending to a non-sequence''"

lemma y_lookup_put [simp]: "y_lookup (y_put k v kvs) k' = (if k' = k then v else y_lookup kvs k')"
  by (induction k v kvs rule: y_put.induct) auto

lemma y_defined_simps [simp]:
  "\<not> y_defined YUndefined" "y_defined YNull" "y_defined (YScalar s)" "y_defined (YSeq ns)" "y_defined (YMap kvs)"
  by (simp_all add: y_defined_def)

lemma is_sequence_iff: "is_sequence n \<longleftrightarrow> (\<exists>ns. n = YSeq ns)"
  by (cases n) auto

lemma is_map_iff: "is_map n \<longleftrightarrow> (\<exists>kvs. n = YMap kvs)"
  by (cases n) auto

lemma is_scalar_iff: "is_scalar n \<longleftrightarrow> (\<exists>s. n = YScalar s)"
  by (cases n) auto

section \<open>Computations that report problems\<close>

text \<open>
  The validators add problems to a result while they run and stop at the first exception of the YAML
  library. Such a computation is the problems it reports and how it ends: with a value, with an
  exception, or with behaviour the language leaves undefined.
\<close>

datatype fault = Yaml_Exception string | Undefined_Behaviour

record validation_error =
  ve_path :: string
  ve_message :: string
  ve_line :: int
  ve_column :: int

record validation_result =
  vr_valid :: bool
  vr_errors :: "validation_error list"
  vr_warnings :: "string list"

type_synonym 'a check = "validation_error list \<times> (fault + 'a)"

definition ret :: "'a \<Rightarrow> 'a check" where
  "ret x = ([], Inr x)"

definition undefined_behaviour :: "'a check" where
  "undefined_behaviour = ([], Inl Undefined_Behaviour)"

definition attempt :: "'a result \<Rightarrow> 'a check" where
  "attempt r = ([], case r of Inl e \<Rightarrow> Inl (Yaml_Exception e) | Inr x \<Rightarrow> Inr x)"

fun bindc :: "'a check \<Rightarrow> ('a \<Rightarrow> 'b check) \<Rightarrow> 'b check" where
  "bindc (es, Inl e) f = (es, Inl e)"
| "bindc (es, Inr x) f = (case f x of (es', y) \<Rightarrow> (es @ es', y))"

fun for_each :: "('a \<Rightarrow> unit check) \<Rightarrow> 'a list \<Rightarrow> unit check" where
  "for_each f [] = ret ()"
| "for_each f (x # xs) = bindc (f x) (\<lambda>_. for_each f xs)"

fun collect :: "('a \<Rightarrow> 'b check) \<Rightarrow> 'a list \<Rightarrow> 'b list check" where
  "collect f [] = ret []"
| "collect f (x # xs) = bindc (f x) (\<lambda>y. bindc (collect f xs) (\<lambda>ys. ret (y # ys)))"

text \<open>A computation that reports nothing and ends with \<open>x\<close>.\<close>

abbreviation clean :: "'a check \<Rightarrow> 'a \<Rightarrow> bool" where
  "clean m x \<equiv> m = ([], Inr x)"

named_theorems clean_iff \<open>when a computation reports nothing\<close>

lemma clean_ret [clean_iff]: "clean (ret x) y \<longleftrightarrow> x = y"
  by (simp add: ret_def)

lemma clean_bind [clean_iff]: "clean (bindc m f) y \<longleftrightarrow> (\<exists>x. clean m x \<and> clean (f x) y)"
  by (cases m; cases "snd m") (auto split: prod.splits)

lemma clean_attempt [clean_iff]: "clean (attempt r) x \<longleftrightarrow> r = Inr x"
  by (auto simp: attempt_def split: sum.splits)

lemma clean_undefined [clean_iff]: "\<not> clean undefined_behaviour x"
  by (simp add: undefined_behaviour_def)

lemma clean_for_each [clean_iff]: "clean (for_each f xs) u \<longleftrightarrow> (\<forall>x \<in> set xs. clean (f x) ())"
  by (induction xs) (auto simp: clean_iff)

lemma clean_collect [clean_iff]: "clean (collect f xs) ys \<longleftrightarrow> list_all2 (\<lambda>x y. clean (f x) y) xs ys"
proof (induction xs arbitrary: ys)
  case (Cons x xs)
  show ?case by (cases ys) (auto simp: clean_iff Cons.IH)
qed (auto simp: clean_iff)

lemma collect_set:
  assumes "clean (collect f xs) ys"
  shows "set ys = {y. \<exists>x \<in> set xs. clean (f x) y}"
  using assms
proof (induction xs arbitrary: ys)
  case (Cons x xs)
  then obtain y zs where "ys = y # zs" "clean (f x) y" "clean (collect f xs) zs"
    by (auto simp only: collect.simps clean_bind clean_ret)
  then show ?case using Cons.IH [of zs] by auto
qed (simp add: ret_def)

lemma clean_if [clean_iff]: "clean (if b then m else m') x \<longleftrightarrow> (if b then clean m x else clean m' x)"
  by simp

end
