(* ===== verification/Instrument_Registry.thy ===== *)
theory Instrument_Registry
  imports Worker_Proxy Plugin Api_Ref_Resolver Yaml
begin

text \<open>
  \<^verbatim>\<open>InstrumentRegistry\<close> (\<^verbatim>\<open>src/server/InstrumentRegistry.cpp\<close>): the named instruments with their proxies
  and the metadata (configuration and API definition) commands are checked against. The YAML parser
  and its scalar conversions are a library: an argument of type \<open>yaml_lib\<close>. The coordinator the registry
  owns is the field \<^const>\<open>sh_sync\<close> of the shared state its proxies refer to.
\<close>

section \<open>YAML to JSON\<close>

definition scalar_to_json :: "yaml_lib \<Rightarrow> string \<Rightarrow> json" where
  "scalar_to_json Y s =
     (case yl_as_int Y s of
        Some i \<Rightarrow> JInt i
      | None \<Rightarrow>
          (case yl_as_double Y s of
             Some d \<Rightarrow> JFloat d
           | None \<Rightarrow> (case yl_as_bool Y s of Some b \<Rightarrow> JBool b | None \<Rightarrow> JStr s)))"

fun yaml_to_json :: "yaml_lib \<Rightarrow> yaml \<Rightarrow> json result"
  and yaml_seq_to_json :: "yaml_lib \<Rightarrow> yaml list \<Rightarrow> json list result"
  and yaml_map_to_json :: "yaml_lib \<Rightarrow> (yaml \<times> yaml) list \<Rightarrow> (string, json) omap \<Rightarrow> (string, json) omap result"
where
  "yaml_to_json Y YUndefined = Inr JNull"
| "yaml_to_json Y YNull = Inr JNull"
| "yaml_to_json Y (YScalar s) = Inr (scalar_to_json Y s)"
| "yaml_to_json Y (YSeq ns) = bind_result (yaml_seq_to_json Y ns) (\<lambda>js. Inr (JArr js))"
| "yaml_to_json Y (YMap kvs) = bind_result (yaml_map_to_json Y kvs []) (\<lambda>m. Inr (JObj m))"
| "yaml_seq_to_json Y [] = Inr []"
| "yaml_seq_to_json Y (n # ns) =
     bind_result (yaml_to_json Y n) (\<lambda>j. bind_result (yaml_seq_to_json Y ns) (\<lambda>js. Inr (j # js)))"
| "yaml_map_to_json Y [] m = Inr m"
| "yaml_map_to_json Y ((k, v) # kvs) m =
     bind_result (yaml_as_string k) (\<lambda>key.
     bind_result (yaml_to_json Y v) (\<lambda>j. yaml_map_to_json Y kvs (omap_put key j m)))"

section \<open>State\<close>

record instrument_metadata =
  mt_name :: string
  mt_config :: json
  mt_api_def :: json

record instrument_registry =
  ir_instruments :: "(string, proxy) omap"
  ir_metadata :: "(string, instrument_metadata) omap"

definition new_instrument_registry :: instrument_registry where
  "new_instrument_registry = \<lparr>ir_instruments = [], ir_metadata = []\<rparr>"

text \<open>What the environment supplies to an operation: the libraries, the operating system, the clock and
  how often a wait for a process polls.\<close>

record ('w, 'o) reg_env =
  re_json :: json_lib
  re_mq :: "'w mq_lib"
  re_os :: "'o os_lib"
  re_now :: u64
  re_polls :: nat

section \<open>Creating instruments\<close>

text \<open>The result is what the function returns or throws, and the state it leaves.\<close>

definition create_instrument_from_json ::
  "('w, 'o) reg_env \<Rightarrow> 'p plugin_registry \<Rightarrow> string \<Rightarrow> string \<Rightarrow> string \<Rightarrow>
   instrument_registry \<times> ('w, 'o) shared \<Rightarrow> bool result \<times> instrument_registry \<times> ('w, 'o) shared"
where
  "create_instrument_from_json E plugins name config_json api_def_json s =
     (case s of (r, sh) \<Rightarrow>
        if map_of (ir_instruments r) name \<noteq> None then (Inr False, r, sh)
        else case jl_parse (re_json E) config_json of
            Inl e \<Rightarrow> (Inl e, r, sh)
          | Inr config \<Rightarrow>
              (case jl_parse (re_json E) api_def_json of
                 Inl e \<Rightarrow> (Inl e, r, sh)
               | Inr api_def \<Rightarrow>
                   let r1 = r\<lparr>ir_metadata := omap_put name
                              \<lparr>mt_name = name, mt_config = config, mt_api_def = api_def\<rparr> (ir_metadata r)\<rparr>;
                       r0 = r1\<lparr>ir_metadata := omap_del name (ir_metadata r1)\<rparr>
                   in case bind_result (jget api_def ''protocol'')
                             (\<lambda>p. bind_result (jget p ''type'') get_string) of
                        Inl e \<Rightarrow> (Inl e, r1, sh)
                      | Inr protocol_type \<Rightarrow>
                          let plugin_path = get_plugin_path protocol_type plugins in
                          if plugin_path = [] then (Inr False, r0, sh)
                          else case proxy_start (re_mq E) (re_os E) (re_now E) (re_polls E)
                                      (new_proxy name plugin_path config_json api_def_json, sh) of
                              (False, px, sh') \<Rightarrow> (Inr False, r0, sh')
                            | (True, px, sh') \<Rightarrow>
                                (Inr True, r1\<lparr>ir_instruments := omap_put name px (ir_instruments r1)\<rparr>, sh')))"

definition create_instrument ::
  "('w, 'o) reg_env \<Rightarrow> yaml_lib \<Rightarrow> path_env \<Rightarrow> 'p plugin_registry \<Rightarrow> string \<Rightarrow>
   instrument_registry \<times> ('w, 'o) shared \<Rightarrow> bool \<times> instrument_registry \<times> ('w, 'o) shared"
where
  "create_instrument E Y P plugins config_path s =
     (let prepared =
        bind_result (yl_load_file Y config_path) (\<lambda>config_yaml.
        bind_result (yaml_to_json Y config_yaml) (\<lambda>config.
        bind_result (bind_result (jget config ''api_ref'') get_string) (\<lambda>api_ref.
        bind_result (resolve_api_ref P api_ref config_path) (\<lambda>resolved_api_path.
        bind_result (yl_load_file Y resolved_api_path) (\<lambda>api_yaml.
        bind_result (yaml_to_json Y api_yaml) (\<lambda>api_def.
        bind_result (bind_result (jget config ''name'') get_string) (\<lambda>name.
        bind_result (jl_dump (re_json E) config) (\<lambda>config_json.
        bind_result (jl_dump (re_json E) api_def) (\<lambda>api_def_json.
        Inr (name, config_json, api_def_json))))))))))
      in case prepared of
           Inl e \<Rightarrow> (False, s)
         | Inr (name, config_json, api_def_json) \<Rightarrow>
             (case create_instrument_from_json E plugins name config_json api_def_json s of
                (Inl e, s') \<Rightarrow> (False, s')
              | (Inr b, s') \<Rightarrow> (b, s')))"

section \<open>Looking up\<close>

definition get_instrument :: "string \<Rightarrow> instrument_registry \<Rightarrow> proxy option" where
  "get_instrument name r = map_of (ir_instruments r) name"

definition get_instrument_metadata :: "string \<Rightarrow> instrument_registry \<Rightarrow> instrument_metadata option" where
  "get_instrument_metadata name r = map_of (ir_metadata r) name"

definition has_instrument :: "string \<Rightarrow> instrument_registry \<Rightarrow> bool" where
  "has_instrument name r \<longleftrightarrow> map_of (ir_instruments r) name \<noteq> None"

definition list_instruments :: "instrument_registry \<Rightarrow> string list" where
  "list_instruments r = omap_keys (ir_instruments r)"

definition member :: "json \<Rightarrow> string \<Rightarrow> json option" where
  "member j k = (case j of JObj m \<Rightarrow> map_of m k | _ \<Rightarrow> None)"

definition find_command_def ::
  "(string, instrument_metadata) omap \<Rightarrow> string \<Rightarrow> string \<Rightarrow> json option"
where
  "find_command_def metadata instrument_name verb =
     (case map_of metadata instrument_name of
        None \<Rightarrow> None
      | Some md \<Rightarrow>
          (case member (mt_api_def md) ''commands'' of
             Some (JObj commands) \<Rightarrow> map_of commands verb
           | _ \<Rightarrow> None))"

definition command_expects_response :: "string \<Rightarrow> string \<Rightarrow> instrument_registry \<Rightarrow> bool" where
  "command_expects_response instrument_name verb r =
     (case find_command_def (ir_metadata r) instrument_name verb of
        None \<Rightarrow> False
      | Some cmd_def \<Rightarrow> (case member cmd_def ''outputs'' of Some (JArr outputs) \<Rightarrow> outputs \<noteq> [] | _ \<Rightarrow> False))"

text \<open>The loop over a list of entries that have the output's name under \<open>key\<close>: the type of the first
  such entry that has one. Entries are read with \<^verbatim>\<open>get<std::string>\<close>, which may throw.\<close>

fun find_type :: "string \<Rightarrow> string \<Rightarrow> json list \<Rightarrow> string option result" where
  "find_type key output_name [] = Inr None"
| "find_type key output_name (e # es) =
     (case member e key of
        None \<Rightarrow> find_type key output_name es
      | Some n \<Rightarrow>
          bind_result (get_string n) (\<lambda>name.
            if name = output_name
            then (case member e ''type'' of
                    None \<Rightarrow> find_type key output_name es
                  | Some t \<Rightarrow> bind_result (get_string t) (\<lambda>ty. Inr (Some ty)))
            else find_type key output_name es))"

fun find_group_type :: "string \<Rightarrow> json list \<Rightarrow> string option result" where
  "find_group_type output_name [] = Inr None"
| "find_group_type output_name (g # gs) =
     (case member g ''io_types'' of
        Some (JArr ts) \<Rightarrow>
          bind_result (find_type ''suffix'' output_name ts) (\<lambda>found.
            case found of Some ty \<Rightarrow> Inr (Some ty) | None \<Rightarrow> find_group_type output_name gs)
      | _ \<Rightarrow> find_group_type output_name gs)"

definition get_response_type :: "string \<Rightarrow> string \<Rightarrow> instrument_registry \<Rightarrow> string option result" where
  "get_response_type instrument_name verb r =
     (case map_of (ir_metadata r) instrument_name of
        None \<Rightarrow> Inr None
      | Some md \<Rightarrow>
          (case find_command_def (ir_metadata r) instrument_name verb of
             None \<Rightarrow> Inr None
           | Some cmd_def \<Rightarrow>
               (case member cmd_def ''outputs'' of
                  Some (JArr (output # _)) \<Rightarrow>
                    bind_result (get_string output) (\<lambda>output_name.
                    bind_result (case member (mt_api_def md) ''io'' of
                                   Some (JArr ios) \<Rightarrow> find_type ''name'' output_name ios
                                 | _ \<Rightarrow> Inr None) (\<lambda>found.
                    case found of
                      Some ty \<Rightarrow> Inr (Some ty)
                    | None \<Rightarrow>
                        (case member (mt_api_def md) ''channel_groups'' of
                           Some (JArr groups) \<Rightarrow> find_group_type output_name groups
                         | _ \<Rightarrow> Inr None)))
                | _ \<Rightarrow> Inr None)))"

section \<open>Removing, stopping and starting\<close>

definition remove_instrument ::
  "('w, 'o) reg_env \<Rightarrow> string \<Rightarrow> instrument_registry \<times> ('w, 'o) shared \<Rightarrow> instrument_registry \<times> ('w, 'o) shared"
where
  "remove_instrument E name s =
     (case s of (r, sh) \<Rightarrow>
        case map_of (ir_instruments r) name of
          None \<Rightarrow> (r, sh)
        | Some px \<Rightarrow>
            (r\<lparr>ir_instruments := omap_del name (ir_instruments r), ir_metadata := omap_del name (ir_metadata r)\<rparr>,
             snd (proxy_stop (re_mq E) (re_os E) (re_polls E) (px, sh))))"

text \<open>The shared state after stopping proxies one by one. The stopped proxies, which others may still
  hold, are the second part.\<close>

fun stop_proxies :: "('w, 'o) reg_env \<Rightarrow> proxy list \<Rightarrow> ('w, 'o) shared \<Rightarrow> ('w, 'o) shared \<times> proxy list" where
  "stop_proxies E [] sh = (sh, [])"
| "stop_proxies E (px # pxs) sh =
     (case proxy_stop (re_mq E) (re_os E) (re_polls E) (px, sh) of
        (px', sh1) \<Rightarrow> (case stop_proxies E pxs sh1 of (sh2, pxs') \<Rightarrow> (sh2, px' # pxs')))"

definition stop_all ::
  "('w, 'o) reg_env \<Rightarrow> instrument_registry \<times> ('w, 'o) shared \<Rightarrow> instrument_registry \<times> ('w, 'o) shared"
where
  "stop_all E s =
     (case s of (r, sh) \<Rightarrow>
        (r\<lparr>ir_instruments := [], ir_metadata := []\<rparr>, fst (stop_proxies E (map snd (ir_instruments r)) sh)))"

fun start_proxies ::
  "('w, 'o) reg_env \<Rightarrow> (string, proxy) omap \<Rightarrow> ('w, 'o) shared \<Rightarrow> (string, proxy) omap \<times> ('w, 'o) shared"
where
  "start_proxies E [] sh = ([], sh)"
| "start_proxies E ((name, px) # m) sh =
     (case proxy_is_alive (re_os E) px sh of
        (alive, sh1) \<Rightarrow>
          (case (if alive then (px, sh1)
                 else snd (proxy_start (re_mq E) (re_os E) (re_now E) (re_polls E) (px, sh1))) of
             (px', sh2) \<Rightarrow> (case start_proxies E m sh2 of (m', sh3) \<Rightarrow> ((name, px') # m', sh3))))"

definition start_all ::
  "('w, 'o) reg_env \<Rightarrow> instrument_registry \<times> ('w, 'o) shared \<Rightarrow> instrument_registry \<times> ('w, 'o) shared"
where
  "start_all E s =
     (case s of (r, sh) \<Rightarrow>
        case start_proxies E (ir_instruments r) sh of (m, sh') \<Rightarrow> (r\<lparr>ir_instruments := m\<rparr>, sh'))"

section \<open>Histories\<close>

text \<open>
  What can happen to a registry. Its proxies are shared with the callers of \<^verbatim>\<open>get_instrument\<close>, so they also
  change by themselves. The shared state is arbitrary at every step, and the plugin registry is one of \<open>Ps\<close>.
\<close>

inductive registry_step ::
  "('w, 'o) reg_env \<Rightarrow> 'p plugin_registry set \<Rightarrow> instrument_registry \<Rightarrow> instrument_registry \<Rightarrow> bool"
  for E :: "('w, 'o) reg_env" and Ps :: "'p plugin_registry set"
where
  create_json: "plugins \<in> Ps \<Longrightarrow>
     create_instrument_from_json E plugins name config_json api_def_json (r, sh) = (res, r', sh') \<Longrightarrow>
     registry_step E Ps r r'"
| create: "plugins \<in> Ps \<Longrightarrow> create_instrument E Y P plugins config_path (r, sh) = (b, r', sh') \<Longrightarrow>
     registry_step E Ps r r'"
| remove: "remove_instrument E name (r, sh) = (r', sh') \<Longrightarrow> registry_step E Ps r r'"
| stop: "stop_all E (r, sh) = (r', sh') \<Longrightarrow> registry_step E Ps r r'"
| start: "start_all E (r, sh) = (r', sh') \<Longrightarrow> registry_step E Ps r r'"
| use: "map_of (ir_instruments r) name = Some px \<Longrightarrow> proxy_step (re_json E) (re_mq E) (re_os E) k px px' \<Longrightarrow>
     registry_step E Ps r (r\<lparr>ir_instruments := omap_put name px' (ir_instruments r)\<rparr>)"

inductive registry_reachable ::
  "('w, 'o) reg_env \<Rightarrow> 'p plugin_registry set \<Rightarrow> instrument_registry \<Rightarrow> bool" for E Ps
where
  new: "registry_reachable E Ps new_instrument_registry"
| step: "registry_reachable E Ps r \<Longrightarrow> registry_step E Ps r r' \<Longrightarrow> registry_reachable E Ps r'"

inductive_cases registry_step_cases: "registry_step E Ps r r'"

section \<open>Invariant\<close>

text \<open>The fields of a proxy that never change.\<close>

definition proxy_identity :: "proxy \<Rightarrow> string \<times> string \<times> string \<times> string" where
  "proxy_identity px = (px_instrument_name px, px_plugin_path px, px_config_json px, px_api_def_json px)"

lemma proxy_identity_stop [simp]: "proxy_identity (fst (proxy_stop mq os polls (px, sh))) = proxy_identity px"
  by (simp add: proxy_stop_alt proxy_identity_def fail_pending_def join_response_thread_with_timeout_def)

lemma proxy_identity_start:
  assumes "proxy_start mq os now polls (px, sh) = (b, px', sh')"
  shows "proxy_identity px' = proxy_identity px"
  using proxy_start_cases [OF assms]
proof (elim disjE exE)
  fix q p sh''
  assume "(px', sh') = proxy_stop mq os polls
    (px\<lparr>px_ipc_queue := q, px_worker_pid := p, px_running := True, px_listening := True\<rparr>, sh'')"
  from arg_cong [OF this, of "\<lambda>x. proxy_identity (fst x)"] show ?thesis
    by (simp only: proxy_identity_stop) (simp add: proxy_identity_def)
qed (simp_all add: proxy_identity_def)

lemma proxy_identity_step:
  assumes "proxy_step L mq os k px px'"
  shows "proxy_identity px' = proxy_identity px"
  using assms
proof (cases rule: proxy_step.cases)
  case (execute cmd sh r sh')
  from proxy_execute_cases [OF execute(2)] show ?thesis
    by (auto simp: proxy_identity_def numbered_def fulfil_def)
next
  case (listen now sh sh')
  from listener_cases [OF listen(2)] show ?thesis
    by (auto simp: proxy_identity_def fulfil_def dest!: handle_response_cases)
next
  case (start now polls sh b sh')
  from proxy_identity_start [OF start(2)] show ?thesis .
next
  case (stop polls sh sh')
  from arg_cong [OF stop(2), of "\<lambda>x. proxy_identity (fst x)"] show ?thesis by simp
next
  case death
  then show ?thesis by (simp add: proxy_identity_def handle_worker_death_def fail_pending_def)
qed

text \<open>A proxy stands under its own name, runs a plugin, and was given the texts the metadata holds the parse of.\<close>

definition instrument_ok :: "json_lib \<Rightarrow> (string, instrument_metadata) omap \<Rightarrow> string \<Rightarrow> proxy \<Rightarrow> bool" where
  "instrument_ok L metadata name px \<longleftrightarrow> px_instrument_name px = name \<and> px_plugin_path px \<noteq> [] \<and>
     (\<exists>md. map_of metadata name = Some md \<and> mt_name md = name \<and>
        jl_parse L (px_config_json px) = Inr (mt_config md) \<and> jl_parse L (px_api_def_json px) = Inr (mt_api_def md))"

definition instruments_inv :: "json_lib \<Rightarrow> instrument_registry \<Rightarrow> bool" where
  "instruments_inv L r \<longleftrightarrow> omap_ok (ir_instruments r) \<and> omap_ok (ir_metadata r) \<and>
     (\<forall>name px. map_of (ir_instruments r) name = Some px \<longrightarrow> instrument_ok L (ir_metadata r) name px)"

lemma instrument_ok_identity:
  "proxy_identity px' = proxy_identity px \<Longrightarrow> instrument_ok L md name px' = instrument_ok L md name px"
  by (simp add: instrument_ok_def proxy_identity_def)

lemma instrument_ok_other: "map_of md' name = map_of md name \<Longrightarrow> instrument_ok L md' name px = instrument_ok L md name px"
  by (simp add: instrument_ok_def)

text \<open>The four ways a creation ends: refused or unparsable, thrown after the metadata was stored, undone, done.\<close>

definition with_metadata :: "string \<Rightarrow> json \<Rightarrow> json \<Rightarrow> instrument_registry \<Rightarrow> instrument_registry" where
  "with_metadata name config api_def r =
     r\<lparr>ir_metadata := omap_put name \<lparr>mt_name = name, mt_config = config, mt_api_def = api_def\<rparr> (ir_metadata r)\<rparr>"

definition without_metadata :: "string \<Rightarrow> instrument_registry \<Rightarrow> instrument_registry" where
  "without_metadata name r = r\<lparr>ir_metadata := omap_del name (ir_metadata r)\<rparr>"

lemma create_json_cases:
  assumes "create_instrument_from_json E plugins name config_json api_def_json (r, sh) = (res, r', sh')"
  obtains
    (refused) "r' = r" "sh' = sh" "res = Inr False" "has_instrument name r"
  | (unparsable) e where "r' = r" "sh' = sh" "res = Inl e" "\<not> has_instrument name r"
  | (thrown) config api_def e where "\<not> has_instrument name r" "jl_parse (re_json E) config_json = Inr config"
      "jl_parse (re_json E) api_def_json = Inr api_def" "res = Inl e" "r' = with_metadata name config api_def r" "sh' = sh"
  | (undone) config api_def where "\<not> has_instrument name r" "res = Inr False"
      "r' = without_metadata name (with_metadata name config api_def r)"
  | (made) config api_def path px where "\<not> has_instrument name r" "jl_parse (re_json E) config_json = Inr config"
      "jl_parse (re_json E) api_def_json = Inr api_def" "path \<noteq> []" "res = Inr True"
      "proxy_start (re_mq E) (re_os E) (re_now E) (re_polls E) (new_proxy name path config_json api_def_json, sh) = (True, px, sh')"
      "r' = (with_metadata name config api_def r)\<lparr>ir_instruments := omap_put name px (ir_instruments r)\<rparr>"
  using assms
  by (auto simp: create_instrument_from_json_def has_instrument_def with_metadata_def without_metadata_def Let_def
      split: if_splits sum.splits prod.splits bool.splits)

lemma instruments_inv_new [simp]: "instruments_inv L new_instrument_registry"
  by (simp add: instruments_inv_def new_instrument_registry_def)

lemma instruments_inv_with_metadata:
  assumes "instruments_inv L r" and "\<not> has_instrument name r"
  shows "instruments_inv L (with_metadata name config api_def r)"
proof -
  have "instrument_ok L (ir_metadata (with_metadata name config api_def r)) n px"
    if "map_of (ir_instruments r) n = Some px" for n px
  proof -
    have "n \<noteq> name" using that assms(2) by (auto simp: has_instrument_def)
    moreover have "instrument_ok L (ir_metadata r) n px" using that assms(1) by (simp add: instruments_inv_def)
    ultimately show ?thesis by (simp add: instrument_ok_def with_metadata_def)
  qed
  then show ?thesis using assms(1) by (simp add: instruments_inv_def with_metadata_def om.ok_put)
qed

lemma instruments_inv_without_metadata:
  assumes "instruments_inv L r" and "\<not> has_instrument name r"
  shows "instruments_inv L (without_metadata name r)"
proof -
  have "instrument_ok L (ir_metadata (without_metadata name r)) n px"
    if "map_of (ir_instruments r) n = Some px" for n px
  proof -
    have "n \<noteq> name" using that assms(2) by (auto simp: has_instrument_def)
    moreover have "instrument_ok L (ir_metadata r) n px" using that assms(1) by (simp add: instruments_inv_def)
    ultimately show ?thesis by (simp add: instrument_ok_def without_metadata_def om.lookup_del)
  qed
  then show ?thesis using assms(1) by (simp add: instruments_inv_def without_metadata_def om.ok_del)
qed

lemma instruments_inv_put:
  assumes "instruments_inv L r" and "instrument_ok L (ir_metadata r) name px"
  shows "instruments_inv L (r\<lparr>ir_instruments := omap_put name px (ir_instruments r)\<rparr>)"
  using assms by (auto simp: instruments_inv_def om.ok_put)

lemma instruments_inv_create_json:
  assumes "instruments_inv (re_json E) r"
    and "create_instrument_from_json E plugins name config_json api_def_json (r, sh) = (res, r', sh')"
  shows "instruments_inv (re_json E) r'"
  using assms(2)
proof (cases rule: create_json_cases)
  case (thrown config api_def e)
  then show ?thesis using instruments_inv_with_metadata [OF assms(1)] by simp
next
  case (undone config api_def)
  have "\<not> has_instrument name (with_metadata name config api_def r)"
    using undone(1) by (simp add: has_instrument_def with_metadata_def)
  then show ?thesis
    using undone instruments_inv_without_metadata instruments_inv_with_metadata [OF assms(1)] by simp
next
  case (made config api_def path px)
  let ?r = "with_metadata name config api_def r"
  have "proxy_identity px = proxy_identity (new_proxy name path config_json api_def_json)"
    by (rule proxy_identity_start [OF made(6)])
  then have "instrument_ok (re_json E) (ir_metadata ?r) name px"
    using made by (simp add: instrument_ok_def proxy_identity_def new_proxy_def with_metadata_def)
  from instruments_inv_put [OF instruments_inv_with_metadata [OF assms(1) made(1)] this]
  show ?thesis using made(7) by (simp add: with_metadata_def)
qed (use assms(1) in simp_all)

lemma instruments_inv_create:
  assumes "instruments_inv (re_json E) r"
    and "create_instrument E Y P plugins config_path (r, sh) = (b, r', sh')"
  shows "instruments_inv (re_json E) r'"
proof -
  consider "r' = r"
    | name cj aj res where "create_instrument_from_json E plugins name cj aj (r, sh) = (res, r', sh')"
    using assms(2) by (auto simp: create_instrument_def Let_def split: sum.splits prod.splits)
  then show ?thesis using assms(1) instruments_inv_create_json by cases auto
qed

lemma instruments_inv_remove:
  assumes "instruments_inv L r" and "remove_instrument E name (r, sh) = (r', sh')"
  shows "instruments_inv L r'"
proof (cases "map_of (ir_instruments r) name")
  case None
  then show ?thesis using assms by (simp add: remove_instrument_def)
next
  case (Some px)
  let ?r = "r\<lparr>ir_instruments := omap_del name (ir_instruments r)\<rparr>"
  have "instruments_inv L ?r" using assms(1) by (auto simp: instruments_inv_def om.ok_del om.lookup_del)
  moreover have "\<not> has_instrument name ?r" by (simp add: has_instrument_def om.lookup_del)
  ultimately have "instruments_inv L (without_metadata name ?r)" by (rule instruments_inv_without_metadata)
  then show ?thesis using assms(2) Some by (auto simp: remove_instrument_def without_metadata_def)
qed

lemma start_proxies_keys: "start_proxies E m sh = (m', sh') \<Longrightarrow> omap_keys m' = omap_keys m"
  by (induction E m sh arbitrary: m' sh' rule: start_proxies.induct)
    (auto split: prod.splits if_splits)

lemma start_proxies_identity:
  assumes "start_proxies E m sh = (m', sh')"
  shows "map_option proxy_identity (map_of m' name) = map_option proxy_identity (map_of m name)"
  using assms
proof (induction E m sh arbitrary: m' sh' rule: start_proxies.induct)
  case (2 E n px m sh)
  obtain alive sh1 where a: "proxy_is_alive (re_os E) px sh = (alive, sh1)" by fastforce
  obtain px' sh2 where b: "(if alive then (px, sh1)
      else snd (proxy_start (re_mq E) (re_os E) (re_now E) (re_polls E) (px, sh1))) = (px', sh2)" by fastforce
  obtain m2 sh3 where c: "start_proxies E m sh2 = (m2, sh3)" by fastforce
  have "proxy_identity px' = proxy_identity px"
    using b proxy_identity_start [of "re_mq E" "re_os E" "re_now E" "re_polls E" px sh1]
    by (cases "proxy_start (re_mq E) (re_os E) (re_now E) (re_polls E) (px, sh1)") (auto split: if_splits)
  then show ?case using 2 a b c by auto
qed simp

lemma instruments_inv_start_all:
  assumes "instruments_inv L r" and "start_all E (r, sh) = (r', sh')"
  shows "instruments_inv L r'"
proof -
  obtain m sh2 where m: "start_proxies E (ir_instruments r) sh = (m, sh2)" by fastforce
  have r': "r' = r\<lparr>ir_instruments := m\<rparr>" using assms(2) m by (simp add: start_all_def)
  have "omap_ok m" using assms(1) start_proxies_keys [OF m] by (simp add: instruments_inv_def omap_ok_def)
  moreover have "instrument_ok L (ir_metadata r) name px" if found: "map_of m name = Some px" for name px
  proof -
    obtain px0 where "map_of (ir_instruments r) name = Some px0" "proxy_identity px = proxy_identity px0"
      using start_proxies_identity [OF m, of name] found
      by (cases "map_of (ir_instruments r) name"; simp)
    then show ?thesis using assms(1) instrument_ok_identity [of px px0] by (simp add: instruments_inv_def)
  qed
  ultimately show ?thesis using assms(1) r' by (simp add: instruments_inv_def)
qed

lemma instruments_inv_step:
  assumes "registry_step E Ps r r'" and "instruments_inv (re_json E) r"
  shows "instruments_inv (re_json E) r'"
  using assms(1)
proof (cases rule: registry_step.cases)
  case (create_json plugins name config_json api_def_json sh res sh')
  then show ?thesis using instruments_inv_create_json [OF assms(2)] by blast
next
  case (create plugins Y P config_path sh b sh')
  then show ?thesis using instruments_inv_create [OF assms(2)] by blast
next
  case (remove name sh sh')
  then show ?thesis using instruments_inv_remove [OF assms(2)] by blast
next
  case (stop sh sh')
  then show ?thesis by (auto simp: stop_all_def instruments_inv_def)
next
  case (start sh sh')
  then show ?thesis using instruments_inv_start_all [OF assms(2)] by blast
next
  case (use name px k px')
  have "instrument_ok (re_json E) (ir_metadata r) name px'"
    using use assms(2) instrument_ok_identity [OF proxy_identity_step [OF use(3)]] by (simp add: instruments_inv_def)
  then show ?thesis using instruments_inv_put [OF assms(2)] use(1) by simp
qed

lemma registry_reachable_inv: "registry_reachable E Ps r \<Longrightarrow> instruments_inv (re_json E) r"
  by (induction rule: registry_reachable.induct) (auto intro: instruments_inv_step)

section \<open>Properties\<close>

text \<open>C35: In every reachable state of the registry, the names it lists are sorted and distinct; each listed
  instrument has a proxy of that name with a plugin, and metadata, whose configuration and API definition are
  the parses of the texts its proxy was created with. So commands are checked against the definition of the
  instrument that runs them, whatever was created, removed, restarted or used before.\<close>

theorem registry_consistent:
  assumes "registry_reachable E Ps r"
  shows "sorted (list_instruments r) \<and> distinct (list_instruments r) \<and>
    (\<forall>name \<in> set (list_instruments r). \<exists>px md. get_instrument name r = Some px \<and>
       px_instrument_name px = name \<and> px_plugin_path px \<noteq> [] \<and>
       get_instrument_metadata name r = Some md \<and> mt_name md = name \<and>
       jl_parse (re_json E) (px_config_json px) = Inr (mt_config md) \<and>
       jl_parse (re_json E) (px_api_def_json px) = Inr (mt_api_def md))"
proof -
  have inv: "instruments_inv (re_json E) r" by (rule registry_reachable_inv [OF assms])
  have "\<exists>px md. get_instrument name r = Some px \<and> px_instrument_name px = name \<and> px_plugin_path px \<noteq> [] \<and>
       get_instrument_metadata name r = Some md \<and> mt_name md = name \<and>
       jl_parse (re_json E) (px_config_json px) = Inr (mt_config md) \<and>
       jl_parse (re_json E) (px_api_def_json px) = Inr (mt_api_def md)" if n: "name \<in> set (list_instruments r)" for name
  proof -
    obtain px where px: "map_of (ir_instruments r) name = Some px"
      using n by (auto simp: list_instruments_def om.set_keys simp del: set_map)
    then show ?thesis
      using inv unfolding instruments_inv_def instrument_ok_def get_instrument_def get_instrument_metadata_def by blast
  qed
  then show ?thesis
    using inv by (simp add: instruments_inv_def list_instruments_def omap_ok_sorted omap_ok_distinct)
qed

lemma create_server_queue_plain:
  assumes "mq_lib_ok mq view" and "plain_name i"
  shows "fst (create_server_queue mq i w) = Inr (server_end i)"
    and "view (snd (create_server_queue mq i w)) = (view w)(req_of i \<mapsto> (100, []), resp_of i \<mapsto> (100, []))"
  using create_server_queue_ok [OF assms, of w] by auto

text \<open>A proxy that started runs: its queues are new and its process was seen alive.\<close>

lemma proxy_start_True:
  assumes "mq_lib_ok mq view" and "plain_name (px_instrument_name px)"
    and "proxy_start mq os now polls (px, sh) = (True, px', sh')"
  shows "px_running px' \<and> px_ipc_queue px' = Some (server_end (px_instrument_name px)) \<and>
    px_pending px' = px_pending px \<and>
    view (sh_shm sh') = (view (sh_shm sh))(req_of (px_instrument_name px) \<mapsto> (100, []), resp_of (px_instrument_name px) \<mapsto> (100, [])) \<and>
    (\<exists>sh1. proxy_is_alive os px' sh1 = (True, sh'))"
proof -
  let ?i = "px_instrument_name px"
  obtain w where q: "create_server_queue mq ?i (sh_shm sh) = (Inr (server_end ?i), w)"
      "view w = (view (sh_shm sh))(req_of ?i \<mapsto> (100, []), resp_of ?i \<mapsto> (100, []))"
    using create_server_queue_plain [OF assms(1,2), of "sh_shm sh"] by (metis prod.collapse)
  obtain pid m where sp: "spawn_worker os now ?i (px_plugin_path px) ''instrument-worker'' (sh_processes sh) = (pid, m)"
    by fastforce
  let ?sh1 = "sh\<lparr>sh_shm := w, sh_processes := m\<rparr>"
  let ?px2 = "px\<lparr>px_ipc_queue := Some (server_end ?i), px_worker_pid := pid, px_running := True, px_listening := True\<rparr>"
  have "pid \<noteq> 0 \<and> px' = ?px2 \<and> proxy_is_alive os ?px2 ?sh1 = (True, sh')"
    using assms(3) q sp by (auto simp: proxy_start_def Let_def split: if_splits prod.splits bool.splits)
  moreover from this have "sh_shm sh' = w"
    by (auto simp: proxy_is_alive_def split: if_splits prod.splits)
  ultimately show ?thesis using q(2) by auto
qed

text \<open>C36: Creating an instrument is all or nothing as far as the table of instruments goes. On success the
  instrument was new, its proxy runs on fresh, empty queues with a live worker and no pending command, its metadata
  is the parse of the given texts, and no other entry changed. On failure (a duplicate, unparsable or
  incomplete texts, no plugin, a worker that does not start) no instrument was added or changed, and a refusal
  by return value leaves no metadata of its own either.\<close>

theorem create_contract:
  assumes "mq_lib_ok (re_mq E) view" and "plain_name name"
    and "create_instrument_from_json E plugins name config_json api_def_json (r, sh) = (res, r', sh')"
  shows "case res of
      Inr True \<Rightarrow> \<not> has_instrument name r \<and>
        (\<exists>px. get_instrument name r' = Some px \<and> px_running px \<and> px_pending px = [] \<and>
           px_ipc_queue px = Some (server_end name) \<and> (\<exists>sh1. proxy_is_alive (re_os E) px sh1 = (True, sh'))) \<and>
        view (sh_shm sh') = (view (sh_shm sh))(req_of name \<mapsto> (100, []), resp_of name \<mapsto> (100, [])) \<and>
        (\<exists>md. get_instrument_metadata name r' = Some md \<and>
           jl_parse (re_json E) config_json = Inr (mt_config md) \<and> jl_parse (re_json E) api_def_json = Inr (mt_api_def md)) \<and>
        (\<forall>n. n \<noteq> name \<longrightarrow> get_instrument n r' = get_instrument n r \<and> get_instrument_metadata n r' = get_instrument_metadata n r)
    | Inr False \<Rightarrow> list_instruments r' = list_instruments r \<and> (\<forall>n. get_instrument n r' = get_instrument n r) \<and>
        (has_instrument name r \<and> r' = r \<or> get_instrument_metadata name r' = None)
    | Inl e \<Rightarrow> list_instruments r' = list_instruments r \<and> (\<forall>n. get_instrument n r' = get_instrument n r)"
  using assms(3)
proof (cases rule: create_json_cases)
  case (made config api_def path px)
  have new: "px_instrument_name (new_proxy name path config_json api_def_json) = name"
      "px_pending (new_proxy name path config_json api_def_json) = []"
    by (simp_all add: new_proxy_def)
  show ?thesis
    using proxy_start_True [OF assms(1) _ made(6)] new assms(2) made
    by (auto simp: get_instrument_def get_instrument_metadata_def with_metadata_def)
qed (auto simp: list_instruments_def get_instrument_def get_instrument_metadata_def with_metadata_def
      without_metadata_def om.lookup_del)

text \<open>When the API definition has no protocol type, the creation throws after the metadata was stored and
  leaves it behind: the instrument does not exist, but its commands are still looked up.\<close>

theorem failed_create_keeps_metadata:
  assumes "\<not> has_instrument name r" and "jl_parse (re_json E) config_json = Inr config"
    and "jl_parse (re_json E) api_def_json = Inr (JObj m)" and "map_of m ''protocol'' = None"
    and "map_of m ''commands'' = Some (JObj cs)" and "map_of cs verb = Some (JObj c)"
    and "map_of c ''outputs'' = Some (JArr (out # outs))"
  shows "\<exists>e r'. create_instrument_from_json E plugins name config_json api_def_json (r, sh) = (Inl e, r', sh) \<and>
    \<not> has_instrument name r' \<and> get_instrument_metadata name r' \<noteq> None \<and> command_expects_response name verb r'"
  using assms
  by (simp add: create_instrument_from_json_def has_instrument_def get_instrument_metadata_def command_expects_response_def
      find_command_def_def member_def Let_def)

section \<open>Stopping everything\<close>

lemma stop_worker_process_shm [simp]: "sh_shm (stop_worker_process os polls px sh) = sh_shm sh"
  by (auto simp: stop_worker_process_def split: prod.split bool.split)

lemma proxy_stop_view:
  assumes "mq_lib_ok mq view" and "plain_name i" and "px_running px" and "px_instrument_name px = i"
    and "px_ipc_queue px = Some (server_end i)" and "view (sh_shm sh) (req_of i) = Some (c, ms)"
  shows "view (sh_shm (snd (proxy_stop mq os polls (px, sh)))) = (view (sh_shm sh))(req_of i := None, resp_of i := None)"
proof -
  let ?m = "new_message\<lparr>im_type := SHUTDOWN, im_id := 0, im_sync_token := 0, im_payload_size := 0\<rparr>"
  have "(view (snd (send_msg mq ?m 100 (server_end i) (sh_shm sh))))(req_of i := None) = (view (sh_shm sh))(req_of i := None)"
    using send_msg_ok [OF assms(1), of "server_end i" "req_of i" "sh_shm sh" c ms ?m 100]
      send_msg_full [OF assms(1), of "server_end i" "req_of i" "sh_shm sh" c ms ?m 100] assms(6)
    by (cases "length ms < c") simp_all
  then show ?thesis
    using assms(2-5) mq_lib_okD(1) [OF assms(1)]
    by (simp add: proxy_stop_def cleanup_ipc_def cleanup_pending_promises_def join_response_thread_with_timeout_def
        Let_def send_shutdown_message_def proxy_send_def case_prod_unfold cleanup_queues_def c_str_plain plain_queue_name)
qed

definition own_queues :: "proxy \<Rightarrow> string set" where
  "own_queues px = {req_of (px_instrument_name px), resp_of (px_instrument_name px)}"

definition attached :: "('w \<Rightarrow> string \<Rightarrow> (nat \<times> ipc_message list) option) \<Rightarrow> 'w \<Rightarrow> proxy \<Rightarrow> bool" where
  "attached view w px \<longleftrightarrow> plain_name (px_instrument_name px) \<and>
     (px_running px \<longrightarrow> px_ipc_queue px = Some (server_end (px_instrument_name px)) \<and>
        view w (req_of (px_instrument_name px)) \<noteq> None)"

lemma own_queues_disjoint: "px_instrument_name px \<noteq> px_instrument_name px' \<Longrightarrow> own_queues px \<inter> own_queues px' = {}"
  by (auto simp: own_queues_def queue_name_inject queue_name_inject(3) [THEN not_sym])

lemma proxy_stop_attached:
  assumes "mq_lib_ok mq view" and "attached view (sh_shm sh) px"
  shows "view (sh_shm (snd (proxy_stop mq os polls (px, sh)))) =
    (\<lambda>q. if px_running px \<and> q \<in> own_queues px then None else view (sh_shm sh) q)"
proof (cases "px_running px")
  case True
  then obtain c ms where "view (sh_shm sh) (req_of (px_instrument_name px)) = Some (c, ms)"
    using assms(2) by (auto simp: attached_def)
  from proxy_stop_view [OF assms(1) _ True refl _ this] show ?thesis
    using True assms(2) by (auto simp: attached_def own_queues_def)
qed (simp add: proxy_stop_def)

lemma stop_proxies_view:
  assumes "mq_lib_ok (re_mq E) view" and "\<forall>px \<in> set pxs. attached view (sh_shm sh) px"
    and "distinct (map px_instrument_name pxs)"
  shows "view (sh_shm (fst (stop_proxies E pxs sh))) =
    (\<lambda>q. if \<exists>px \<in> set pxs. px_running px \<and> q \<in> own_queues px then None else view (sh_shm sh) q)"
  using assms(2,3)
proof (induction pxs arbitrary: sh)
  case (Cons px pxs)
  obtain px' sh1 where s: "proxy_stop (re_mq E) (re_os E) (re_polls E) (px, sh) = (px', sh1)" by fastforce
  have v: "view (sh_shm sh1) = (\<lambda>q. if px_running px \<and> q \<in> own_queues px then None else view (sh_shm sh) q)"
    using proxy_stop_attached [OF assms(1), of sh px] Cons.prems(1) s by (metis list.set_intros(1) snd_conv)
  have "attached view (sh_shm sh1) p" if "p \<in> set pxs" for p
  proof -
    have "px_instrument_name px \<noteq> px_instrument_name p" using Cons.prems(2) that by auto
    then have "req_of (px_instrument_name p) \<notin> own_queues px"
      using own_queues_disjoint by (auto simp: own_queues_def)
    then show ?thesis using Cons.prems(1) that v by (auto simp: attached_def)
  qed
  then have "view (sh_shm (fst (stop_proxies E pxs sh1))) =
      (\<lambda>q. if \<exists>px \<in> set pxs. px_running px \<and> q \<in> own_queues px then None else view (sh_shm sh1) q)"
    using Cons.IH [of sh1] Cons.prems(2) by auto
  then show ?case using s v by (auto simp: case_prod_unfold fun_eq_iff)
qed simp

lemma stop_proxies_each:
  "list_all2 (\<lambda>px px'. \<exists>sh. px' = fst (proxy_stop (re_mq E) (re_os E) (re_polls E) (px, sh))) pxs (snd (stop_proxies E pxs sh))"
proof (induction E pxs sh rule: stop_proxies.induct)
  case (2 E px pxs sh)
  obtain px' sh1 where s: "proxy_stop (re_mq E) (re_os E) (re_polls E) (px, sh) = (px', sh1)" by fastforce
  then have "\<exists>sh. px' = fst (proxy_stop (re_mq E) (re_os E) (re_polls E) (px, sh))" by (metis fst_conv)
  then show ?case using s 2 [OF s [symmetric]] by (simp add: case_prod_unfold)
qed simp

text \<open>C37: Shutting the registry down. It has no instrument and no metadata afterwards; every instrument that was running is
  stopped, has answered each of its pending futures with the error response and lost both of its queues; an
  instrument that was not running is left exactly as it was, with the futures it may still hold (after a failed restart
  it can have some), and no other queue is touched.\<close>

theorem stop_all_answers:
  assumes "registry_reachable E Ps r" and "mq_lib_ok (re_mq E) view"
    and "\<forall>px \<in> set (map snd (ir_instruments r)). attached view (sh_shm sh) px"
    and "stop_all E (r, sh) = (r', sh')"
  shows "list_instruments r' = [] \<and> ir_metadata r' = [] \<and>
    list_all2 (\<lambda>px px'. \<not> px_running px' \<and> (px_running px \<longrightarrow> px_pending px' = [] \<and>
        (\<forall>c \<in> set (px_pending px). map_of (px_ready px') c = Some (error_response px ''Worker stopped''))) \<and>
        (\<not> px_running px \<longrightarrow> px' = px))
      (map snd (ir_instruments r)) (snd (stop_proxies E (map snd (ir_instruments r)) sh)) \<and>
    view (sh_shm sh') = (\<lambda>q. if \<exists>px \<in> set (map snd (ir_instruments r)). px_running px \<and> q \<in> own_queues px
      then None else view (sh_shm sh) q)"
proof -
  let ?pxs = "map snd (ir_instruments r)"
  have inv: "instruments_inv (re_json E) r" by (rule registry_reachable_inv [OF assms(1)])
  have "px_instrument_name px = n" if "(n, px) \<in> set (ir_instruments r)" for n px
    using inv that omap_ok_distinct by (fastforce simp: instruments_inv_def instrument_ok_def)
  then have "map px_instrument_name ?pxs = omap_keys (ir_instruments r)" by auto
  then have d: "distinct (map px_instrument_name ?pxs)"
    using inv omap_ok_distinct [of "ir_instruments r"] by (simp only: instruments_inv_def)
  have "view (sh_shm sh') = (\<lambda>q. if \<exists>px \<in> set ?pxs. px_running px \<and> q \<in> own_queues px then None else view (sh_shm sh) q)"
    using stop_proxies_view [OF assms(2,3) d] assms(4) by (simp add: stop_all_def)
  moreover have "list_all2 (\<lambda>px px'. \<not> px_running px' \<and> (px_running px \<longrightarrow> px_pending px' = [] \<and>
        (\<forall>c \<in> set (px_pending px). map_of (px_ready px') c = Some (error_response px ''Worker stopped''))) \<and>
        (\<not> px_running px \<longrightarrow> px' = px))
      ?pxs (snd (stop_proxies E ?pxs sh))"
    by (rule list_all2_mono [OF stop_proxies_each])
      (auto simp: proxy_stop_alt join_response_thread_with_timeout_def fail_pending_def map_of_fold_same error_response_def)
  ultimately show ?thesis using assms(4) by (auto simp: stop_all_def list_instruments_def)
qed

section \<open>Witnesses\<close>

definition demo_config :: json where
  "demo_config = JObj [(''name'', JStr ''dmm'')]"

definition demo_commands :: json where
  "demo_commands = JObj [(''READ'', JObj [(''outputs'', JArr [JStr ''v''])])]"

definition demo_api :: json where
  "demo_api = JObj [(''commands'', demo_commands), (''protocol'', JObj [(''type'', JStr ''serial'')])]"

definition demo_env :: "(queues, process_table) reg_env" where
  "demo_env = \<lparr>re_json = docs_lib [demo_config, demo_api, JObj [(''commands'', demo_commands)]], re_mq = list_mq,
     re_os = table_os, re_now = 5, re_polls = 10\<rparr>"

definition demo_plugins :: "unit plugin_registry" where
  "demo_plugins = \<lparr>rg_plugins = [], rg_plugin_paths = [(''serial'', ''/p/serial.so'')]\<rparr>"

definition demo_px1 :: proxy where
  "demo_px1 = demo_px\<lparr>px_config_json := show_nat 0, px_api_def_json := show_nat 1\<rparr>"

definition demo_registry :: instrument_registry where
  "demo_registry = \<lparr>ir_instruments = [(''dmm'', demo_px1)],
     ir_metadata = [(''dmm'', \<lparr>mt_name = ''dmm'', mt_config = demo_config, mt_api_def = demo_api\<rparr>)]\<rparr>"

lemma demo_parses:
  "jl_parse (re_json demo_env) (show_nat 0) = Inr demo_config"
  "jl_parse (re_json demo_env) (show_nat 1) = Inr demo_api"
  "jl_parse (re_json demo_env) (show_nat 2) = Inr (JObj [(''commands'', demo_commands)])"
  by (simp_all add: demo_env_def docs_lib_def demo_config_def demo_api_def demo_commands_def)

lemma demo_starts:
  "\<exists>sh'. proxy_start list_mq table_os 5 10 (new_proxy ''dmm'' ''/p/serial.so'' (show_nat 0) (show_nat 1), demo_shared) =
     (True, demo_px1, sh') \<and> sh_shm sh' = demo_shm"
proof -
  have "plain_name ''dmm''" by (simp add: plain_name_def)
  from create_server_queue_ok [OF list_mq_ok this, of Map.empty]
  have "create_server_queue list_mq ''dmm'' Map.empty = (Inr (server_end ''dmm''), demo_shm)"
    by (simp add: prod_eq_iff demo_shm_def)
  then show ?thesis
    by (simp add: proxy_start_def demo_shared_def new_proxy_def spawn_worker_def spawn_process_impl_def table_os_def
        new_process_manager_def Let_def proxy_is_alive_def process_is_alive_def is_alive_impl_def demo_px1_def demo_px_def)
qed

lemma demo_created:
  "\<exists>sh'. create_instrument_from_json demo_env demo_plugins ''dmm'' (show_nat 0) (show_nat 1)
     (new_instrument_registry, demo_shared) = (Inr True, demo_registry, sh') \<and> sh_shm sh' = demo_shm"
proof -
  obtain sh' where st: "proxy_start list_mq table_os 5 10 (new_proxy ''dmm'' ''/p/serial.so'' (show_nat 0) (show_nat 1), demo_shared) =
     (True, demo_px1, sh')" "sh_shm sh' = demo_shm"
    using demo_starts by blast
  have e: "re_mq demo_env = list_mq" "re_os demo_env = table_os" "re_now demo_env = 5" "re_polls demo_env = 10"
    by (simp_all add: demo_env_def)
  have t: "bind_result (jget demo_api ''protocol'') (\<lambda>p. bind_result (jget p ''type'') get_string) = Inr ''serial''"
    by (simp add: demo_api_def)
  have p: "get_plugin_path ''serial'' demo_plugins = ''/p/serial.so''"
    by (simp add: get_plugin_path_def demo_plugins_def)
  show ?thesis
    unfolding create_instrument_from_json_def
    by (simp del: One_nat_def add: demo_parses t p e st new_instrument_registry_def Let_def demo_registry_def)
qed

lemma demo_registry_reachable: "registry_reachable demo_env {demo_plugins} demo_registry"
proof -
  obtain sh' where "create_instrument_from_json demo_env demo_plugins ''dmm'' (show_nat 0) (show_nat 1)
     (new_instrument_registry, demo_shared) = (Inr True, demo_registry, sh')"
    using demo_created by blast
  from registry_step.create_json [OF _ this, of "{demo_plugins}"] show ?thesis
    by (blast intro: registry_reachable.intros)
qed

theorem registry_consistent_witness:
  "\<exists>md. get_instrument_metadata ''dmm'' demo_registry = Some md \<and> mt_api_def md = demo_api"
  using registry_consistent [OF demo_registry_reachable] demo_parses
  by (auto simp: list_instruments_def demo_registry_def get_instrument_def demo_px1_def)

theorem create_contract_witness:
  "\<exists>r' sh' px. create_instrument_from_json demo_env demo_plugins ''dmm'' (show_nat 0) (show_nat 1)
     (new_instrument_registry, demo_shared) = (Inr True, r', sh') \<and>
     get_instrument ''dmm'' r' = Some px \<and> px_running px \<and> sh_shm sh' (req_of ''dmm'') = Some (100, [])"
proof -
  obtain sh' where c: "create_instrument_from_json demo_env demo_plugins ''dmm'' (show_nat 0) (show_nat 1)
     (new_instrument_registry, demo_shared) = (Inr True, demo_registry, sh')"
    using demo_created by blast
  have "mq_lib_ok (re_mq demo_env) (\<lambda>w. w)" "plain_name ''dmm''" by (simp_all add: demo_env_def plain_name_def)
  from create_contract [OF this c] c show ?thesis by (auto simp: queue_name_inject)
qed

theorem failed_create_keeps_metadata_witness:
  "\<exists>e r'. create_instrument_from_json demo_env demo_plugins ''dmm'' (show_nat 0) (show_nat 2)
     (new_instrument_registry, demo_shared) = (Inl e, r', demo_shared) \<and>
     \<not> has_instrument ''dmm'' r' \<and> command_expects_response ''dmm'' ''READ'' r'"
  using failed_create_keeps_metadata [OF _ demo_parses(1,3), of "''dmm''" new_instrument_registry _ "''READ''"]
  by (fastforce simp: has_instrument_def new_instrument_registry_def demo_commands_def)

theorem stop_all_answers_witness:
  "sh_shm (snd (stop_all demo_env (demo_registry, demo_shared\<lparr>sh_shm := demo_shm\<rparr>))) (req_of ''dmm'') = None"
proof -
  have "mq_lib_ok (re_mq demo_env) (\<lambda>w. w)" by (simp add: demo_env_def)
  moreover have "\<forall>px \<in> set (map snd (ir_instruments demo_registry)).
      attached (\<lambda>w. w) (sh_shm (demo_shared\<lparr>sh_shm := demo_shm\<rparr>)) px"
    by (simp add: demo_registry_def attached_def demo_px1_def demo_px_def new_proxy_def plain_name_def demo_shm_def)
  ultimately show ?thesis
    using stop_all_answers [OF demo_registry_reachable _ _ prod.collapse [symmetric],
        of "\<lambda>w. w" "demo_shared\<lparr>sh_shm := demo_shm\<rparr>"]
    by (simp add: demo_registry_def own_queues_def demo_px1_def demo_px_def new_proxy_def)
qed

end
