(* ===== verification/Runtime_Context.thy ===== *)
theory Runtime_Context
  imports Instrument_Registry
begin

text \<open>
  \<^verbatim>\<open>RuntimeContext\<close> (\<^verbatim>\<open>src/server/RuntimeContext.cpp\<close>): what a Lua script can do to the instruments. A call is
  sent at once, put in the buffer of a parallel block, or, in enqueue mode, dispatched under a
  synchronisation token and waited for later.

  A script's run is the list of its actions on the context (\<open>lua_action\<close>). The library between C++ and
  Lua answers \<^verbatim>\<open>is<T>\<close> and \<^verbatim>\<open>as<T>\<close> for a value; a value is the record of these answers. What other threads do
  while this one waits is an argument (\<open>rt_get\<close>, \<open>rt_wait_for\<close>). The coordinator the context refers to
  is a local variable of the code that creates the context, so it is a field of the context here.
\<close>

section \<open>Data\<close>

record lua_value =
  lv_double :: "double option"
  lv_int :: "i32 option"
  lv_string :: "string option"
  lv_bool :: "bool option"

datatype lua_arg = LValue lua_value | LTable "(string \<times> lua_value) list"

datatype lua_object = LNil | LObject param_value

record call_result =
  cl_command_id :: string
  cl_instrument_name :: string
  cl_verb :: string
  cl_params :: "(string, param_value) umap"
  cl_executed_at :: nat  \<comment> \<open>nanoseconds of the steady clock\<close>
  cl_return_value :: "param_value option"
  cl_return_type :: string
  cl_has_large_data :: bool
  cl_buffer_id :: string
  cl_element_count :: u64
  cl_data_type :: string
  cl_success :: bool
  cl_error_message :: string

definition default_call_result :: call_result where
  "default_call_result = \<lparr>cl_command_id = [], cl_instrument_name = [], cl_verb = [], cl_params = [],
     cl_executed_at = 0, cl_return_value = None, cl_return_type = [], cl_has_large_data = False,
     cl_buffer_id = [], cl_element_count = 0, cl_data_type = [], cl_success = False, cl_error_message = []\<rparr>"

text \<open>A future is known by the proxy and the message it belongs to; \<open>fu_command\<close>, the command that was sent, is
  there for specifications only.\<close>

record future =
  fu_instrument :: string
  fu_msg_id :: u64
  fu_command :: serialized_command

record runtime_context =
  rc_sync :: sync_coordinator
  rc_in_parallel_block :: bool
  rc_parallel_buffer :: "serialized_command list"
  rc_next_sync_token :: u64
  rc_collected_results :: "call_result list"
  rc_enqueue_mode :: bool
  rc_token_order :: "u64 list"
  rc_token_instruments :: "(u64, string set) umap"
  rc_token_futures :: "(u64, future list) umap"
  rc_token_result_indices :: "(u64, nat list) umap"

definition new_runtime_context :: "bool \<Rightarrow> runtime_context" where
  "new_runtime_context enqueue_mode =
     \<lparr>rc_sync = new_coordinator, rc_in_parallel_block = False, rc_parallel_buffer = [], rc_next_sync_token = 1,
      rc_collected_results = [], rc_enqueue_mode = enqueue_mode, rc_token_order = [], rc_token_instruments = [],
      rc_token_futures = [], rc_token_result_indices = []\<rparr>"

text \<open>The server as the context sees it: the registry with its proxies, and what the proxies share.\<close>

record ('w, 'o) server =
  sv_registry :: instrument_registry
  sv_shared :: "('w, 'o) shared"

text \<open>
  How an error inside the function given to \<^verbatim>\<open>parallel\<close> comes out of the call \<^verbatim>\<open>block()\<close>; the library decides.
\<close>

datatype block_failure =
    Throws  \<comment> \<open>as a C++ exception\<close>
  | Swallowed  \<comment> \<open>as a result nobody looks at\<close>
  | Jumps  \<comment> \<open>past the C++ frame\<close>

record ('w, 'o) run_env =
  rt_json :: json_lib
  rt_mq :: "'w mq_lib"
  rt_block_failure :: block_failure
  rt_moved_id :: string  \<comment> \<open>what a string holds after it was moved from\<close>
  rt_get :: "future \<Rightarrow> ('w, 'o) server \<Rightarrow> (command_response result \<times> nat \<times> ('w, 'o) server) option"
    \<comment> \<open>what \<^verbatim>\<open>get\<close> returns or throws, when, and the server then; \<^const>\<open>None\<close> if it waits for ever\<close>
  rt_wait_for :: "future \<Rightarrow> ('w, 'o) server \<Rightarrow> command_response option \<times> ('w, 'o) server"
    \<comment> \<open>the value within the time limit and the server then\<close>

section \<open>Results\<close>

fun param_value_type_name :: "param_value \<Rightarrow> string" where
  "param_value_type_name (PDouble _) = ''float''"
| "param_value_type_name (PInt64 _) = ''integer''"
| "param_value_type_name (PString _) = ''string''"
| "param_value_type_name (PBool _) = ''boolean''"
| "param_value_type_name (PArray _) = ''array''"

definition populate_callresult_from_response :: "call_result \<Rightarrow> command_response \<Rightarrow> call_result" where
  "populate_callresult_from_response cr resp =
     (let cr1 = cr\<lparr>cl_command_id := cr_command_id resp, cl_success := cr_success resp,
                   cl_error_message := cr_error_message resp\<rparr>
      in if cr_has_large_data resp
         then cr1\<lparr>cl_has_large_data := True, cl_buffer_id := cr_buffer_id resp,
                  cl_element_count := cr_element_count resp, cl_data_type := cr_data_type resp,
                  cl_return_type := ''buffer''\<rparr>
         else case cr_return_value resp of
             None \<Rightarrow> cr1\<lparr>cl_return_type := ''void''\<rparr>
           | Some v \<Rightarrow>
               let cr2 = cr1\<lparr>cl_return_value := Some v, cl_return_type := param_value_type_name v\<rparr>
               in case v of
                    PArray arr \<Rightarrow> cr2\<lparr>cl_element_count := of_nat (length arr), cl_data_type := ''float''\<rparr>
                  | _ \<Rightarrow> cr2)"

fun return_to_json :: "param_value \<Rightarrow> json" where
  "return_to_json (PDouble d) = json_object [(''type'', JStr ''float''), (''value'', JFloat d)]"
| "return_to_json (PInt64 i) = json_object [(''type'', JStr ''integer''), (''value'', JInt (sint i))]"
| "return_to_json (PString s) = json_object [(''type'', JStr ''string''), (''value'', JStr s)]"
| "return_to_json (PBool b) = json_object [(''type'', JStr ''boolean''), (''value'', JBool b)]"
| "return_to_json (PArray _) = json_object [(''type'', JStr ''void'')]"

definition result_to_json :: "call_result \<Rightarrow> json" where
  "result_to_json cr = json_object
     ([(''command_id'', JStr (cl_command_id cr)), (''instrument'', JStr (cl_instrument_name cr)),
       (''verb'', JStr (cl_verb cr)), (''executed_at_ms'', JInt (int (cl_executed_at cr div 1000000))),
       (''return'',
          if cl_has_large_data cr
          then json_object [(''type'', JStr ''buffer''), (''buffer_id'', JStr (cl_buffer_id cr)),
                 (''element_count'', JInt (uint (cl_element_count cr))), (''data_type'', JStr (cl_data_type cr))]
          else case cl_return_value cr of
              Some v \<Rightarrow> return_to_json v
            | None \<Rightarrow> json_object [(''type'', JStr ''void'')])]
      @ (if cl_success cr then [] else [(''error'', JStr (cl_error_message cr))]))"

definition collect_results_json :: "runtime_context \<Rightarrow> json" where
  "collect_results_json ctx = JArr (map result_to_json (rc_collected_results ctx))"

section \<open>Calls of workers\<close>

text \<open>\<^verbatim>\<open>get_instrument(name)\<close> followed by \<^verbatim>\<open>execute\<close>: nothing for an unknown instrument.\<close>

definition worker_execute ::
  "('w, 'o) run_env \<Rightarrow> string \<Rightarrow> serialized_command \<Rightarrow> ('w, 'o) server \<Rightarrow> future result option \<times> ('w, 'o) server"
where
  "worker_execute E name cmd sv =
     (case get_instrument name (sv_registry sv) of
        None \<Rightarrow> (None, sv)
      | Some px \<Rightarrow>
          (case proxy_execute (rt_json E) (rt_mq E) cmd (px, sv_shared sv) of
             (r, px', sh') \<Rightarrow>
               (Some (bind_result r (\<lambda>i. Inr \<lparr>fu_instrument = name, fu_msg_id = i, fu_command = cmd\<rparr>)),
                sv\<lparr>sv_registry := (sv_registry sv)\<lparr>ir_instruments := omap_put name px' (ir_instruments (sv_registry sv))\<rparr>,
                   sv_shared := sh'\<rparr>)))"

definition worker_sync_continue :: "('w, 'o) run_env \<Rightarrow> u64 \<Rightarrow> string \<Rightarrow> ('w, 'o) server \<Rightarrow> ('w, 'o) server" where
  "worker_sync_continue E token name sv =
     (case get_instrument name (sv_registry sv) of
        None \<Rightarrow> sv
      | Some px \<Rightarrow> sv\<lparr>sv_shared := send_sync_continue (rt_mq E) token px (sv_shared sv)\<rparr>)"

text \<open>The last part of \<^verbatim>\<open>execute_sync\<close>. A proxy that was removed from the registry during the wait is still
  held by the caller, but nothing refers to it afterwards.\<close>

definition worker_sync_result ::
  "('w, 'o) run_env \<Rightarrow> future \<Rightarrow> command_response option \<Rightarrow> ('w, 'o) server \<Rightarrow> command_response \<times> ('w, 'o) server"
where
  "worker_sync_result E f r sv =
     (case r of
        Some resp \<Rightarrow> (resp, sv)
      | None \<Rightarrow>
          (case get_instrument (fu_instrument f) (sv_registry sv) of
             None \<Rightarrow> (fst (sync_timeout (rt_moved_id E) (new_proxy (fu_instrument f) [] [] [])), sv)
           | Some px \<Rightarrow>
               (case sync_timeout (rt_moved_id E) px of
                  (resp, px') \<Rightarrow>
                    (resp, sv\<lparr>sv_registry := (sv_registry sv)\<lparr>ir_instruments :=
                       omap_put (fu_instrument f) px' (ir_instruments (sv_registry sv))\<rparr>\<rparr>))))"

definition worker_execute_sync ::
  "('w, 'o) run_env \<Rightarrow> string \<Rightarrow> serialized_command \<Rightarrow> ('w, 'o) server \<Rightarrow> command_response result option \<times> ('w, 'o) server"
where
  "worker_execute_sync E name cmd sv =
     (case worker_execute E name cmd sv of
        (None, sv1) \<Rightarrow> (None, sv1)
      | (Some (Inl e), sv1) \<Rightarrow> (Some (Inl e), sv1)
      | (Some (Inr f), sv1) \<Rightarrow>
          (case rt_wait_for E f sv1 of (r, sv2) \<Rightarrow>
             (case worker_sync_result E f r sv2 of (resp, sv3) \<Rightarrow> (Some (Inr resp), sv3))))"

definition sync_command :: "nat \<Rightarrow> string \<Rightarrow> string \<Rightarrow> (string, param_value) umap \<Rightarrow> bool \<Rightarrow> serialized_command" where
  "sync_command now instrument_id verb params expects_response =
     default_command\<lparr>sc_id := instrument_id @ ''-'' @ show_nat now, sc_instrument_name := instrument_id,
       sc_verb := verb, sc_params := params, sc_created_at := now, sc_expects_response := expects_response\<rparr>"

definition send_command ::
  "('w, 'o) run_env \<Rightarrow> nat \<Rightarrow> string \<Rightarrow> string \<Rightarrow> (string, param_value) umap \<Rightarrow> bool \<Rightarrow> ('w, 'o) server \<Rightarrow>
   command_response result \<times> ('w, 'o) server"
where
  "send_command E now instrument_id verb params expects_response sv =
     (case worker_execute_sync E instrument_id (sync_command now instrument_id verb params expects_response) sv of
           (None, sv1) \<Rightarrow>
             (Inr (default_response\<lparr>cr_success := False, cr_error_message := ''Instrument not found: '' @ instrument_id\<rparr>), sv1)
         | (Some r, sv1) \<Rightarrow> (r, sv1))"

section \<open>The arguments of a call\<close>

text \<open>\<^verbatim>\<open>Instrument[:channel].verb\<close>: the part before the dot, the verb, the instrument and the channel.\<close>

definition parse_call_target :: "string \<Rightarrow> (string \<times> string \<times> string \<times> i32 option) option" where
  "parse_call_target func_name =
     (case split_at_char CHR ''.'' func_name of
        None \<Rightarrow> None
      | Some (instrument_spec, verb) \<Rightarrow>
          (case split_at_char CHR '':'' instrument_spec of
             None \<Rightarrow> Some (instrument_spec, verb, instrument_spec, None)
           | Some (instrument_id, number) \<Rightarrow>
               (case stoi number of
                  Inl e \<Rightarrow> None
                | Inr channel \<Rightarrow> Some (instrument_spec, verb, instrument_id, Some (word_of_int channel)))))"

definition lua_param :: "lua_value \<Rightarrow> param_value option" where
  "lua_param v =
     (case lv_double v of
        Some d \<Rightarrow> Some (PDouble d)
      | None \<Rightarrow>
          (case lv_int v of
             Some i \<Rightarrow> Some (PInt64 (scast i))
           | None \<Rightarrow>
               (case lv_string v of
                  Some s \<Rightarrow> Some (PString s)
                | None \<Rightarrow> map_option PBool (lv_bool v))))"

definition put_param :: "string \<Rightarrow> param_value option \<Rightarrow> (string, param_value) umap \<Rightarrow> (string, param_value) umap" where
  "put_param k v params = (case v of None \<Rightarrow> params | Some p \<Rightarrow> umap_put k p params)"

fun lua_arg_param :: "lua_arg \<Rightarrow> param_value option" where
  "lua_arg_param (LValue v) = lua_param v"
| "lua_arg_param (LTable _) = None"

fun positional_params :: "nat \<Rightarrow> lua_arg list \<Rightarrow> (string, param_value) umap \<Rightarrow> (string, param_value) umap" where
  "positional_params i [] params = params"
| "positional_params i (a # as) params =
     positional_params (Suc i) as (put_param (''arg'' @ show_nat i) (lua_arg_param a) params)"

definition lua_params :: "lua_arg list \<Rightarrow> (string, param_value) umap" where
  "lua_params args =
     (case args of
        [LTable kvs] \<Rightarrow> fold (\<lambda>(k, v). put_param k (lua_param v)) kvs []
      | _ \<Rightarrow> positional_params 0 args [])"

definition call_params :: "lua_arg list \<Rightarrow> i32 option \<Rightarrow> (string, param_value) umap" where
  "call_params args channel =
     (case channel of
        None \<Rightarrow> lua_params args
      | Some c \<Rightarrow> umap_put ''channel'' (PInt64 (scast c)) (lua_params args))"

section \<open>Tokens\<close>

definition umap_append :: "'k \<Rightarrow> 'v \<Rightarrow> ('k, 'v list) umap \<Rightarrow> ('k, 'v list) umap" where
  "umap_append k v m = umap_put k ((case map_of m k of None \<Rightarrow> [] | Some vs \<Rightarrow> vs) @ [v]) m"

text \<open>A new token whose barrier all instruments of the registry take part in.\<close>

definition begin_token :: "nat \<Rightarrow> string list \<Rightarrow> runtime_context \<Rightarrow> u64 \<times> runtime_context" where
  "begin_token now all_instruments ctx =
     (let token = rc_next_sync_token ctx in
      (token,
       ctx\<lparr>rc_next_sync_token := token + 1,
           rc_sync := register_barrier now token all_instruments (rc_sync ctx),
           rc_token_order := rc_token_order ctx @ [token],
           rc_token_instruments :=
             fold (\<lambda>inst m. umap_put token (insert inst (case map_of m token of None \<Rightarrow> {} | Some is \<Rightarrow> is)) m)
               all_instruments (rc_token_instruments ctx)\<rparr>))"

text \<open>Record a placeholder result, send the command, and keep the future.\<close>

definition dispatch ::
  "('w, 'o) run_env \<Rightarrow> u64 \<Rightarrow> call_result \<Rightarrow> serialized_command \<Rightarrow> runtime_context \<times> ('w, 'o) server \<Rightarrow>
   unit result \<times> runtime_context \<times> ('w, 'o) server"
where
  "dispatch E token cr cmd s =
     (case s of (ctx, sv) \<Rightarrow>
        let ctx1 = ctx\<lparr>rc_collected_results := rc_collected_results ctx @ [cr],
                       rc_token_result_indices :=
                         umap_append token (length (rc_collected_results ctx)) (rc_token_result_indices ctx)\<rparr>
        in case worker_execute E (sc_instrument_name cmd) cmd sv of
             (None, sv1) \<Rightarrow> (Inr (), ctx1, sv1)
           | (Some (Inl e), sv1) \<Rightarrow> (Inl e, ctx1, sv1)
           | (Some (Inr f), sv1) \<Rightarrow>
               (Inr (), ctx1\<lparr>rc_token_futures := umap_append token f (rc_token_futures ctx1)\<rparr>, sv1))"

fun dispatch_all ::
  "('w, 'o) run_env \<Rightarrow> u64 \<Rightarrow> (call_result \<times> serialized_command) list \<Rightarrow> runtime_context \<times> ('w, 'o) server \<Rightarrow>
   unit result \<times> runtime_context \<times> ('w, 'o) server"
where
  "dispatch_all E token [] s = (Inr (), s)"
| "dispatch_all E token ((cr, cmd) # cs) s =
     (case dispatch E token cr cmd s of
        (Inl e, s') \<Rightarrow> (Inl e, s')
      | (Inr _, s') \<Rightarrow> dispatch_all E token cs s')"

section \<open>Calls\<close>

text \<open>What a synchronous call returns to the script.\<close>

definition lua_return :: "command_response \<Rightarrow> lua_object" where
  "lua_return resp =
     (if \<not> cr_success resp \<or> cr_has_large_data resp then LNil
      else case cr_return_value resp of
          None \<Rightarrow> LNil
        | Some (PArray _) \<Rightarrow> LNil
        | Some v \<Rightarrow> LObject v)"

definition call ::
  "('w, 'o) run_env \<Rightarrow> nat \<Rightarrow> string \<Rightarrow> lua_arg list \<Rightarrow> runtime_context \<times> ('w, 'o) server \<Rightarrow>
   lua_object result \<times> runtime_context \<times> ('w, 'o) server"
where
  "call E now func_name args s =
     (case s of (ctx, sv) \<Rightarrow>
        case parse_call_target func_name of
          None \<Rightarrow> (Inr LNil, ctx, sv)
        | Some (instrument_spec, verb, instrument_id, channel) \<Rightarrow>
            let params = call_params args channel;
                expects_response = command_expects_response instrument_id verb (sv_registry sv);
                cmd = default_command\<lparr>sc_instrument_name := instrument_id, sc_verb := verb, sc_params := params,
                        sc_expects_response := expects_response, sc_created_at := now\<rparr>
            in
            if rc_in_parallel_block ctx
            then (Inr LNil, ctx\<lparr>rc_parallel_buffer := rc_parallel_buffer ctx @ [cmd]\<rparr>, sv)
            else if rc_enqueue_mode ctx then
              (if get_instrument instrument_id (sv_registry sv) = None then (Inr LNil, ctx, sv)
               else
                 case begin_token now (list_instruments (sv_registry sv)) ctx of (token, ctx1) \<Rightarrow>
                 case dispatch E token
                        (default_call_result\<lparr>cl_instrument_name := instrument_spec, cl_verb := verb, cl_params := params,
                           cl_executed_at := now\<rparr>)
                        (cmd\<lparr>sc_sync_token := Some token, sc_is_sync_barrier := True\<rparr>) (ctx1, sv) of
                   (Inl e, s') \<Rightarrow> (Inl e, s')
                 | (Inr _, s') \<Rightarrow> (Inr LNil, s'))
            else
              (case send_command E now instrument_id verb params expects_response sv of
                 (Inl e, sv1) \<Rightarrow> (Inl e, ctx, sv1)
               | (Inr resp, sv1) \<Rightarrow>
                   let cr = (populate_callresult_from_response default_call_result resp)
                              \<lparr>cl_instrument_name := instrument_spec, cl_verb := verb, cl_params := params, cl_executed_at := now\<rparr>
                   in (Inr (lua_return resp),
                       ctx\<lparr>rc_collected_results := rc_collected_results ctx @ [cr]\<rparr>, sv1)))"

section \<open>Parallel blocks\<close>

text \<open>The commands sent for one instrument of a token: its own, the last one marked, or the NOP.\<close>

definition nop_command :: "nat \<Rightarrow> u64 \<Rightarrow> string \<Rightarrow> serialized_command" where
  "nop_command now token inst =
     default_command\<lparr>sc_instrument_name := inst, sc_verb := ''__BARRIER_NOP__'', sc_params := [],
       sc_expects_response := True, sc_created_at := now, sc_sync_token := Some token, sc_is_sync_barrier := True\<rparr>"

fun mark_last :: "u64 \<Rightarrow> serialized_command list \<Rightarrow> serialized_command list" where
  "mark_last token [] = []"
| "mark_last token (cmd # cmds) =
     cmd\<lparr>sc_sync_token := Some token, sc_is_sync_barrier := (cmds = [])\<rparr> # mark_last token cmds"

definition display_name :: "serialized_command \<Rightarrow> string" where
  "display_name cmd =
     (case map_of (sc_params cmd) ''channel'' of
        Some (PInt64 ch) \<Rightarrow> sc_instrument_name cmd @ '':'' @ show_int (sint ch)
      | _ \<Rightarrow> sc_instrument_name cmd)"

definition instrument_commands ::
  "nat \<Rightarrow> u64 \<Rightarrow> serialized_command list \<Rightarrow> string \<Rightarrow> (call_result \<times> serialized_command) list"
where
  "instrument_commands now token buffer inst =
     (let own = filter (\<lambda>cmd. sc_instrument_name cmd = inst) buffer in
      if own = []
      then [(default_call_result\<lparr>cl_instrument_name := inst, cl_verb := ''__BARRIER_NOP__'', cl_executed_at := now\<rparr>,
             nop_command now token inst)]
      else map (\<lambda>cmd. (default_call_result\<lparr>cl_instrument_name := display_name cmd, cl_verb := sc_verb cmd,
                          cl_params := sc_params cmd, cl_executed_at := now\<rparr>, cmd))
             (mark_last token own))"

definition token_commands ::
  "nat \<Rightarrow> u64 \<Rightarrow> string list \<Rightarrow> serialized_command list \<Rightarrow> (call_result \<times> serialized_command) list"
where
  "token_commands now token all_instruments buffer = concat (map (instrument_commands now token buffer) all_instruments)"

text \<open>The fallback that executes and waits.\<close>

fun unique_names :: "string list \<Rightarrow> string list \<Rightarrow> string list" where
  "unique_names seen [] = []"
| "unique_names seen (n # ns) = (if n \<in> set seen then unique_names seen ns else n # unique_names (n # seen) ns)"

fun send_buffer ::
  "('w, 'o) run_env \<Rightarrow> nat \<Rightarrow> u64 \<Rightarrow> serialized_command list \<Rightarrow> ('w, 'o) server \<Rightarrow> future list result \<times> ('w, 'o) server"
where
  "send_buffer E now token [] sv = (Inr [], sv)"
| "send_buffer E now token (cmd # cmds) sv =
     (case worker_execute E (sc_instrument_name cmd)
             (cmd\<lparr>sc_sync_token := Some token, sc_id := sc_instrument_name cmd @ ''-'' @ show_nat now\<rparr>) sv of
        (None, sv1) \<Rightarrow> send_buffer E now token cmds sv1
      | (Some (Inl e), sv1) \<Rightarrow> (Inl e, sv1)
      | (Some (Inr f), sv1) \<Rightarrow>
          (case send_buffer E now token cmds sv1 of
             (r, sv2) \<Rightarrow> (bind_result r (\<lambda>fs. Inr (f # fs)), sv2)))"

fun await_buffer ::
  "('w, 'o) run_env \<Rightarrow> future list \<Rightarrow> call_result list \<Rightarrow> ('w, 'o) server \<Rightarrow> (call_result list \<times> ('w, 'o) server) option"
where
  "await_buffer E [] results sv = Some (results, sv)"
| "await_buffer E (f # fs) results sv =
     (case rt_get E f sv of
        None \<Rightarrow> None
      | Some (Inl e, t, sv1) \<Rightarrow> await_buffer E fs results sv1
      | Some (Inr resp, t, sv1) \<Rightarrow>
          await_buffer E fs
            (results @ [(populate_callresult_from_response default_call_result resp)\<lparr>cl_executed_at := t\<rparr>]) sv1)"

definition execute_parallel_buffer ::
  "('w, 'o) run_env \<Rightarrow> nat \<Rightarrow> runtime_context \<times> ('w, 'o) server \<Rightarrow>
   (unit result \<times> runtime_context \<times> ('w, 'o) server) option"
where
  "execute_parallel_buffer E now s =
     (case s of (ctx, sv) \<Rightarrow>
        if rc_parallel_buffer ctx = [] then Some (Inr (), ctx, sv)
        else
          let token = rc_next_sync_token ctx;
              instruments = unique_names [] (map sc_instrument_name (rc_parallel_buffer ctx));
              ctx1 = ctx\<lparr>rc_next_sync_token := token + 1, rc_sync := register_barrier now token instruments (rc_sync ctx)\<rparr>
          in case send_buffer E now token (rc_parallel_buffer ctx) sv of
               (Inl e, sv1) \<Rightarrow> Some (Inl e, ctx1, sv1)
             | (Inr futures, sv1) \<Rightarrow>
                 (case await_buffer E futures (rc_collected_results ctx1) sv1 of
                    None \<Rightarrow> None
                  | Some (results, sv2) \<Rightarrow>
                      Some (Inr (),
                        ctx1\<lparr>rc_collected_results := results, rc_sync := clear_barrier token (rc_sync ctx1)\<rparr>,
                        fold (worker_sync_continue E token) instruments sv2)))"

text \<open>\<^verbatim>\<open>parallel\<close> after the block has returned.\<close>

definition finish_parallel ::
  "('w, 'o) run_env \<Rightarrow> nat \<Rightarrow> runtime_context \<times> ('w, 'o) server \<Rightarrow>
   (unit result \<times> runtime_context \<times> ('w, 'o) server) option"
where
  "finish_parallel E now s =
     (case s of (ctx, sv) \<Rightarrow>
        if rc_parallel_buffer ctx = [] then Some (Inr (), ctx, sv)
        else if rc_enqueue_mode ctx then
          (let all_instruments = list_instruments (sv_registry sv) in
           case begin_token now all_instruments ctx of (token, ctx1) \<Rightarrow>
             Some (dispatch_all E token (token_commands now token all_instruments (rc_parallel_buffer ctx)) (ctx1, sv)))
        else execute_parallel_buffer E now (ctx, sv))"

section \<open>Scripts\<close>

datatype lua_action =
    LuaCall nat string "lua_arg list"
  | LuaParallel nat "lua_action list"
  | LuaPcall "lua_action list"
  | LuaError string
  | LuaLog string

text \<open>A run of a script: what it does to the context, in order, with the clock reading of each operation. An
  error ends the run up to the next enclosing \<^verbatim>\<open>pcall\<close>.\<close>

fun run_action ::
  "('w, 'o) run_env \<Rightarrow> lua_action \<Rightarrow> runtime_context \<times> ('w, 'o) server \<Rightarrow>
   (unit result \<times> runtime_context \<times> ('w, 'o) server) option"
  and run_actions ::
  "('w, 'o) run_env \<Rightarrow> lua_action list \<Rightarrow> runtime_context \<times> ('w, 'o) server \<Rightarrow>
   (unit result \<times> runtime_context \<times> ('w, 'o) server) option"
where
  "run_action E (LuaCall now f args) s =
     (case call E now f args s of (r, s') \<Rightarrow> Some (bind_result r (\<lambda>_. Inr ()), s'))"
| "run_action E (LuaParallel now block) s =
     (case s of (ctx, sv) \<Rightarrow>
        if rc_in_parallel_block ctx then Some (Inr (), ctx, sv)
        else case run_actions E block (ctx\<lparr>rc_in_parallel_block := True, rc_parallel_buffer := []\<rparr>, sv) of
            None \<Rightarrow> None
          | Some (Inr _, ctx1, sv1) \<Rightarrow> finish_parallel E now (ctx1\<lparr>rc_in_parallel_block := False\<rparr>, sv1)
          | Some (Inl e, ctx1, sv1) \<Rightarrow>
              (case rt_block_failure E of
                 Throws \<Rightarrow> Some (Inl e, ctx1\<lparr>rc_in_parallel_block := False, rc_parallel_buffer := []\<rparr>, sv1)
               | Swallowed \<Rightarrow> finish_parallel E now (ctx1\<lparr>rc_in_parallel_block := False\<rparr>, sv1)
               | Jumps \<Rightarrow> Some (Inl e, ctx1, sv1)))"
| "run_action E (LuaPcall block) s =
     (case run_actions E block s of None \<Rightarrow> None | Some (r, s') \<Rightarrow> Some (Inr (), s'))"
| "run_action E (LuaError e) s = Some (Inl e, s)"
| "run_action E (LuaLog msg) s = Some (Inr (), s)"
| "run_actions E [] s = Some (Inr (), s)"
| "run_actions E (a # as) s =
     (case run_action E a s of
        None \<Rightarrow> None
      | Some (Inl e, s') \<Rightarrow> Some (Inl e, s')
      | Some (Inr _, s') \<Rightarrow> run_actions E as s')"

section \<open>Waiting for the tokens\<close>

text \<open>The futures of one token; an index outside the results would be undefined behaviour.\<close>

fun await_token ::
  "('w, 'o) run_env \<Rightarrow> future list \<Rightarrow> nat list \<Rightarrow> call_result list \<Rightarrow> ('w, 'o) server \<Rightarrow>
   (call_result list \<times> ('w, 'o) server) result option"
where
  "await_token E [] inds results sv = Some (Inr (results, sv))"
| "await_token E (f # fs) inds results sv =
     (case rt_get E f sv of
        None \<Rightarrow> None
      | Some (Inl e, t, sv1) \<Rightarrow> await_token E fs (tl inds) results sv1
      | Some (Inr resp, t, sv1) \<Rightarrow>
          (case (case inds of i # _ \<Rightarrow> (i, results) | [] \<Rightarrow> (length results, results @ [default_call_result])) of
             (result_index, results1) \<Rightarrow>
               if result_index < length results1
               then await_token E fs (tl inds)
                 (results1[result_index :=
                    (populate_callresult_from_response (results1 ! result_index) resp)\<lparr>cl_executed_at := t\<rparr>]) sv1
               else Some (Inl ''result index out of range'')))"

definition lookup_list :: "('k, 'v list) umap \<Rightarrow> 'k \<Rightarrow> 'v list" where
  "lookup_list m k = (case map_of m k of None \<Rightarrow> [] | Some vs \<Rightarrow> vs)"

fun await_tokens ::
  "('w, 'o) run_env \<Rightarrow> u64 list \<Rightarrow> runtime_context \<times> ('w, 'o) server \<Rightarrow>
   (runtime_context \<times> ('w, 'o) server) result option"
where
  "await_tokens E [] s = Some (Inr s)"
| "await_tokens E (token # tokens) s =
     (case s of (ctx, sv) \<Rightarrow>
        case await_token E (lookup_list (rc_token_futures ctx) token) (lookup_list (rc_token_result_indices ctx) token)
               (rc_collected_results ctx) sv of
          None \<Rightarrow> None
        | Some (Inl e) \<Rightarrow> Some (Inl e)
        | Some (Inr (results, sv1)) \<Rightarrow>
            await_tokens E tokens
              (ctx\<lparr>rc_collected_results := results, rc_sync := clear_barrier token (rc_sync ctx)\<rparr>,
               fold (worker_sync_continue E token)
                 (case map_of (rc_token_instruments ctx) token of None \<Rightarrow> [] | Some is \<Rightarrow> sorted_list_of_set is) sv1))"

definition process_tokens_and_wait ::
  "('w, 'o) run_env \<Rightarrow> runtime_context \<times> ('w, 'o) server \<Rightarrow> (runtime_context \<times> ('w, 'o) server) result option"
where
  "process_tokens_and_wait E s =
     (case await_tokens E (rc_token_order (fst s)) s of
        None \<Rightarrow> None
      | Some r \<Rightarrow>
          Some (bind_result r (\<lambda>(ctx, sv).
            Inr (ctx\<lparr>rc_token_order := [], rc_token_instruments := [], rc_token_futures := [],
                     rc_token_result_indices := []\<rparr>, sv))))"

end
