(* ===== verification/Runtime_Tokens.thy ===== *)
theory Runtime_Tokens
  imports Runtime_Context
begin

text \<open>
  What a script leaves in a runtime context: the bookkeeping of tokens, futures and placeholder results
  that \<^const>\<open>process_tokens_and_wait\<close> relies on, and the results that come out of it.
\<close>

section \<open>Invariant\<close>

abbreviation futs :: "runtime_context \<Rightarrow> u64 \<Rightarrow> future list" where
  "futs ctx t \<equiv> lookup_list (rc_token_futures ctx) t"

abbreviation inds :: "runtime_context \<Rightarrow> u64 \<Rightarrow> nat list" where
  "inds ctx t \<equiv> lookup_list (rc_token_result_indices ctx) t"

definition future_matches :: "u64 \<Rightarrow> future \<Rightarrow> call_result \<Rightarrow> bool" where
  "future_matches t f cr \<longleftrightarrow> cl_verb cr = sc_verb (fu_command f) \<and> cl_params cr = sc_params (fu_command f) \<and>
     sc_sync_token (fu_command f) = Some t"

definition slots_distinct :: "runtime_context \<Rightarrow> bool" where
  "slots_distinct ctx \<longleftrightarrow> (\<forall>t i t' i'. i < length (inds ctx t) \<and> i' < length (inds ctx t') \<and>
     inds ctx t ! i = inds ctx t' ! i' \<longrightarrow> t = t' \<and> i = i')"

definition tokens_inv :: "runtime_context \<Rightarrow> bool" where
  "tokens_inv ctx \<longleftrightarrow>
     distinct (rc_token_order ctx) \<and> (\<forall>t \<in> set (rc_token_order ctx). t < rc_next_sync_token ctx) \<and>
     (\<forall>t. t \<notin> set (rc_token_order ctx) \<longrightarrow> inds ctx t = [] \<and> futs ctx t = []) \<and>
     (\<forall>t. length (futs ctx t) \<le> length (inds ctx t)) \<and>
     (\<forall>t i. i < length (inds ctx t) \<longrightarrow> inds ctx t ! i < length (rc_collected_results ctx)) \<and>
     slots_distinct ctx \<and>
     (\<forall>t i. i < length (futs ctx t) \<longrightarrow>
        future_matches t (futs ctx t ! i) (rc_collected_results ctx ! (inds ctx t ! i))) \<and>
     (rc_enqueue_mode ctx \<longrightarrow> dom (map_of (barriers (rc_sync ctx))) = set (rc_token_order ctx))"

lemma tokens_invD:
  assumes "tokens_inv ctx"
  shows "distinct (rc_token_order ctx)"
    and "t \<in> set (rc_token_order ctx) \<Longrightarrow> t < rc_next_sync_token ctx"
    and "t \<notin> set (rc_token_order ctx) \<Longrightarrow> inds ctx t = []"
    and "t \<notin> set (rc_token_order ctx) \<Longrightarrow> futs ctx t = []"
    and "length (futs ctx t) \<le> length (inds ctx t)"
    and "i < length (inds ctx t) \<Longrightarrow> inds ctx t ! i < length (rc_collected_results ctx)"
    and "slots_distinct ctx"
    and "i < length (futs ctx t) \<Longrightarrow> future_matches t (futs ctx t ! i) (rc_collected_results ctx ! (inds ctx t ! i))"
    and "rc_enqueue_mode ctx \<Longrightarrow> dom (map_of (barriers (rc_sync ctx))) = set (rc_token_order ctx)"
  using assms unfolding tokens_inv_def by blast+

lemma lookup_append [simp]:
  "lookup_list (umap_append k v m) k' = (if k' = k then lookup_list m k @ [v] else lookup_list m k')"
  by (simp add: lookup_list_def umap_append_def)

lemma slots_distinct_cong:
  "rc_token_result_indices ctx = rc_token_result_indices ctx' \<Longrightarrow> slots_distinct ctx = slots_distinct ctx'"
  by (simp only: slots_distinct_def)

lemma tokens_inv_new [simp]: "tokens_inv (new_runtime_context b)"
  by (simp add: tokens_inv_def new_runtime_context_def lookup_list_def slots_distinct_def new_coordinator_def)

lemma tokens_inv_block [simp]:
  "tokens_inv (ctx\<lparr>rc_in_parallel_block := b\<rparr>) = tokens_inv ctx"
  "tokens_inv (ctx\<lparr>rc_parallel_buffer := cmds\<rparr>) = tokens_inv ctx"
  by (simp_all add: tokens_inv_def slots_distinct_def)

lemma tokens_inv_results:
  assumes "tokens_inv ctx"
  shows "tokens_inv (ctx\<lparr>rc_collected_results := rc_collected_results ctx @ rs\<rparr>)"
proof -
  have "inds ctx t ! i < length (rc_collected_results ctx)" if "i < length (futs ctx t)" for t i
    using tokens_invD(5,6) [OF assms] that order_less_le_trans by blast
  then show ?thesis
    using assms unfolding tokens_inv_def slots_distinct_def
    by (simp add: nth_append) (metis trans_less_add1)
qed

text \<open>A placeholder is recorded under token \<open>t\<close>.\<close>

lemma slots_distinct_append:
  assumes "slots_distinct ctx" and "\<And>t i. i < length (inds ctx t) \<Longrightarrow> inds ctx t ! i < n"
  shows "slots_distinct (ctx\<lparr>rc_token_result_indices := umap_append t n (rc_token_result_indices ctx)\<rparr>)"
  unfolding slots_distinct_def
proof (intro allI impI)
  let ?m = "umap_append t n (rc_token_result_indices ctx)"
  fix u i u' i'
  assume a: "i < length (inds (ctx\<lparr>rc_token_result_indices := ?m\<rparr>) u) \<and>
    i' < length (inds (ctx\<lparr>rc_token_result_indices := ?m\<rparr>) u') \<and>
    inds (ctx\<lparr>rc_token_result_indices := ?m\<rparr>) u ! i = inds (ctx\<lparr>rc_token_result_indices := ?m\<rparr>) u' ! i'"
  have old: "lookup_list ?m v ! j < n \<longleftrightarrow> j < length (inds ctx v)" if "j < length (lookup_list ?m v)" for v j
    using that assms(2) by (auto simp: nth_append split: if_splits)
  show "u = u' \<and> i = i'"
  proof (cases "i < length (inds ctx u)")
    case True
    then have "i' < length (inds ctx u')" using a old [of i u] old [of i' u'] by (simp del: lookup_append)
    then have "inds ctx u ! i = inds ctx u' ! i'" using a True by (auto simp: nth_append split: if_splits)
    then show ?thesis using assms(1) True \<open>i' < length (inds ctx u')\<close> unfolding slots_distinct_def by blast
  next
    case False
    then have "\<not> i' < length (inds ctx u')" using a old [of i u] old [of i' u'] by (simp del: lookup_append)
    then show ?thesis using a False by (auto split: if_splits)
  qed
qed

definition with_slot :: "u64 \<Rightarrow> call_result \<Rightarrow> runtime_context \<Rightarrow> runtime_context" where
  "with_slot t cr ctx = ctx\<lparr>rc_collected_results := rc_collected_results ctx @ [cr],
     rc_token_result_indices := umap_append t (length (rc_collected_results ctx)) (rc_token_result_indices ctx)\<rparr>"

lemma tokens_inv_with_slot:
  assumes "tokens_inv ctx" and "t \<in> set (rc_token_order ctx)"
  shows "tokens_inv (with_slot t cr ctx)"
proof -
  note inv = tokens_invD [OF assms(1)]
  have "slots_distinct (ctx\<lparr>rc_token_result_indices := umap_append t (length (rc_collected_results ctx)) (rc_token_result_indices ctx)\<rparr>)"
    by (rule slots_distinct_append [OF inv(7) inv(6)])
  then have "slots_distinct (with_slot t cr ctx)" by (rule slots_distinct_cong [THEN iffD1, rotated]) (simp add: with_slot_def)
  moreover have "future_matches u (futs ctx u ! i) ((rc_collected_results ctx @ [cr]) ! (inds (with_slot t cr ctx) u ! i))"
    if "i < length (futs ctx u)" for u i
  proof -
    have i: "i < length (inds ctx u)" using inv(5) [of u] that by simp
    then have "inds (with_slot t cr ctx) u ! i = inds ctx u ! i" by (auto simp: with_slot_def nth_append)
    then show ?thesis using inv(6) [OF i] inv(8) [OF that] by (simp add: nth_append)
  qed
  moreover have "length (futs ctx u) \<le> length (inds (with_slot t cr ctx) u)" for u
    using inv(5) [of u] by (auto simp: with_slot_def)
  moreover have "inds (with_slot t cr ctx) u ! i < Suc (length (rc_collected_results ctx))"
    if "i < length (inds (with_slot t cr ctx) u)" for u i
    using that inv(6) [of i u] by (auto simp: with_slot_def nth_append split: if_splits)
  moreover have "inds (with_slot t cr ctx) u = [] \<and> futs ctx u = []" if "u \<notin> set (rc_token_order ctx)" for u
    using that assms(2) inv(3,4) [OF that] by (auto simp: with_slot_def)
  ultimately show ?thesis
    using inv(1,2,9) unfolding tokens_inv_def by (simp add: with_slot_def)
qed

text \<open>The command's future is kept under a token none of whose futures is missing.\<close>

definition open_token :: "u64 \<Rightarrow> runtime_context \<Rightarrow> bool" where
  "open_token t ctx \<longleftrightarrow> t \<in> set (rc_token_order ctx) \<and> length (futs ctx t) = length (inds ctx t)"

lemma tokens_inv_with_future:
  assumes "tokens_inv ctx" and "open_token t ctx" and "future_matches t f cr"
  shows "tokens_inv ((with_slot t cr ctx)\<lparr>rc_token_futures := umap_append t f (rc_token_futures ctx)\<rparr>)"
    and "open_token t ((with_slot t cr ctx)\<lparr>rc_token_futures := umap_append t f (rc_token_futures ctx)\<rparr>)"
proof -
  let ?c = "with_slot t cr ctx" and ?m = "umap_append t f (rc_token_futures ctx)"
  let ?d = "?c\<lparr>rc_token_futures := ?m\<rparr>"
  have t: "t \<in> set (rc_token_order ctx)" and len: "length (futs ctx t) = length (inds ctx t)"
    using assms(2) by (simp_all add: open_token_def)
  note inv = tokens_invD [OF tokens_inv_with_slot [OF assms(1) t, of cr]]
  have futs_c: "futs ?c u = futs ctx u" for u by (simp add: with_slot_def)
  have "slots_distinct ?d" using inv(7) by (rule slots_distinct_cong [THEN iffD1, rotated]) simp
  moreover have "future_matches u (futs ?d u ! i) (rc_collected_results ?d ! (inds ?d u ! i))"
    if i: "i < length (futs ?d u)" for u i
  proof (cases "i < length (futs ctx u)")
    case True
    then have "futs ?d u ! i = futs ctx u ! i" by (auto simp: nth_append)
    then show ?thesis using inv(8) [of i u] True futs_c by simp
  next
    case False
    then have "u = t" "i = length (inds ctx t)" using i len by (auto split: if_splits)
    then show ?thesis using assms(3) len by (simp add: with_slot_def nth_append)
  qed
  moreover have "length (futs ?d u) \<le> length (inds ?d u)" for u
    using inv(5) [of u] len by (auto simp: with_slot_def split: if_splits)
  moreover have "inds ?d u = [] \<and> futs ?d u = []" if u: "u \<notin> set (rc_token_order ctx)" for u
    using inv(3,4) [of u] u t by (auto simp: with_slot_def)
  ultimately show "tokens_inv ?d"
    using inv(1,2,6,9) unfolding tokens_inv_def by (simp add: with_slot_def)
  show "open_token t ?d" using t len by (simp add: open_token_def with_slot_def)
qed

section \<open>Dispatching\<close>

lemma worker_execute_registry:
  assumes "worker_execute E name cmd sv = (r, sv')"
  shows "r = None \<longleftrightarrow> get_instrument name (sv_registry sv) = None"
    and "get_instrument n (sv_registry sv') = None \<longleftrightarrow> get_instrument n (sv_registry sv) = None"
    and "r = Some (Inr f) \<Longrightarrow> fu_command f = cmd \<and> fu_instrument f = name"
  using assms
  by (auto simp: worker_execute_def get_instrument_def bind_result_Inr_iff split: option.splits prod.splits if_splits)

lemma dispatch_inv:
  assumes "tokens_inv ctx" and "open_token t ctx" and "get_instrument (sc_instrument_name cmd) (sv_registry sv) \<noteq> None"
    and "cl_verb cr = sc_verb cmd" and "cl_params cr = sc_params cmd" and "sc_sync_token cmd = Some t"
    and "dispatch E t cr cmd (ctx, sv) = (r, ctx', sv')"
  shows "tokens_inv ctx' \<and> rc_next_sync_token ctx' = rc_next_sync_token ctx \<and> rc_enqueue_mode ctx' = rc_enqueue_mode ctx \<and>
    (\<forall>n. get_instrument n (sv_registry sv') = None \<longleftrightarrow> get_instrument n (sv_registry sv) = None) \<and>
    (r = Inr () \<longrightarrow> open_token t ctx')"
proof -
  obtain w sv1 where w: "worker_execute E (sc_instrument_name cmd) cmd sv = (w, sv1)" by fastforce
  note reg = worker_execute_registry [OF w]
  have t: "t \<in> set (rc_token_order ctx)" using assms(2) by (simp add: open_token_def)
  have "w \<noteq> None" using reg(1) assms(3) by simp
  then consider (err) e where "w = Some (Inl e)" | (ok) f where "w = Some (Inr f)"
    by (metis option.exhaust sum.exhaust)
  then show ?thesis
  proof cases
    case err
    then have "ctx' = with_slot t cr ctx" "r = Inl e" "sv' = sv1"
      using assms(7) w by (simp_all add: dispatch_def with_slot_def)
    then show ?thesis using tokens_inv_with_slot [OF assms(1) t, of cr] reg(2) by (simp add: with_slot_def)
  next
    case ok
    then have c: "ctx' = (with_slot t cr ctx)\<lparr>rc_token_futures := umap_append t f (rc_token_futures ctx)\<rparr>" "sv' = sv1"
      using assms(7) w by (simp_all add: dispatch_def with_slot_def)
    have "future_matches t f cr" using reg(3) [OF ok] assms(4-6) by (simp add: future_matches_def)
    then show ?thesis using tokens_inv_with_future [OF assms(1,2)] c reg(2) by (simp add: with_slot_def)
  qed
qed

lemma dispatch_all_inv:
  assumes "tokens_inv ctx" and "open_token t ctx"
    and "\<forall>(cr, cmd) \<in> set cs. get_instrument (sc_instrument_name cmd) (sv_registry sv) \<noteq> None \<and>
      cl_verb cr = sc_verb cmd \<and> cl_params cr = sc_params cmd \<and> sc_sync_token cmd = Some t"
    and "dispatch_all E t cs (ctx, sv) = (r, ctx', sv')"
  shows "tokens_inv ctx' \<and> rc_next_sync_token ctx' = rc_next_sync_token ctx \<and> rc_enqueue_mode ctx' = rc_enqueue_mode ctx"
  using assms
proof (induction cs arbitrary: ctx sv)
  case (Cons c cs)
  obtain cr cmd where c: "c = (cr, cmd)" by fastforce
  obtain r1 ctx1 sv1 where d: "dispatch E t cr cmd (ctx, sv) = (r1, ctx1, sv1)" by (metis prod.exhaust)
  have head: "get_instrument (sc_instrument_name cmd) (sv_registry sv) \<noteq> None" "cl_verb cr = sc_verb cmd"
      "cl_params cr = sc_params cmd" "sc_sync_token cmd = Some t"
    using Cons.prems(3) c by auto
  note step = dispatch_inv [OF Cons.prems(1,2) head d]
  show ?case
  proof (cases r1)
    case (Inl e)
    then show ?thesis using Cons.prems(4) c d step by auto
  next
    case (Inr u)
    then have "dispatch_all E t cs (ctx1, sv1) = (r, ctx', sv')" using Cons.prems(4) c d by simp
    moreover have "\<forall>(cr, cmd) \<in> set cs. get_instrument (sc_instrument_name cmd) (sv_registry sv1) \<noteq> None \<and>
        cl_verb cr = sc_verb cmd \<and> cl_params cr = sc_params cmd \<and> sc_sync_token cmd = Some t"
      using Cons.prems(3) step by auto
    ultimately show ?thesis using Cons.IH [of ctx1 sv1] step Inr by simp
  qed
qed simp

lemma begin_token_inv:
  assumes "tokens_inv ctx" and "Suc (unat (rc_next_sync_token ctx)) < 2 ^ 64" and "begin_token now all ctx = (t, ctx')"
  shows "tokens_inv ctx' \<and> open_token t ctx' \<and> unat (rc_next_sync_token ctx') = Suc (unat (rc_next_sync_token ctx)) \<and>
    rc_enqueue_mode ctx' = rc_enqueue_mode ctx \<and> rc_parallel_buffer ctx' = rc_parallel_buffer ctx"
proof -
  note inv = tokens_invD [OF assms(1)]
  have t: "t = rc_next_sync_token ctx" using assms(3) by (simp add: begin_token_def Let_def)
  have nxt: "rc_next_sync_token ctx' = t + 1" "unat (t + 1) = Suc (unat t)"
    using assms(2,3) t unat_inc [of t] by (auto simp: begin_token_def Let_def)
  have same: "futs ctx' u = futs ctx u" "inds ctx' u = inds ctx u"
      "rc_collected_results ctx' = rc_collected_results ctx" "rc_token_order ctx' = rc_token_order ctx @ [t]" for u
    using assms(3) by (auto simp: begin_token_def Let_def)
  have fresh: "t \<notin> set (rc_token_order ctx)" using inv(2) [of t] t by auto
  have "u < rc_next_sync_token ctx'" if u: "u \<in> set (rc_token_order ctx')" for u
    using u inv(2) [of u] t nxt same(4) by (auto simp: word_less_nat_alt)
  moreover have "slots_distinct ctx'"
    using inv(7) by (rule slots_distinct_cong [THEN iffD1, rotated]) (use assms(3) in \<open>auto simp: begin_token_def Let_def\<close>)
  moreover have "dom (map_of (barriers (rc_sync ctx'))) = set (rc_token_order ctx')" if m: "rc_enqueue_mode ctx'"
  proof -
    have "rc_sync ctx' = register_barrier now t all (rc_sync ctx)" "rc_enqueue_mode ctx"
      using m assms(3) by (auto simp: begin_token_def Let_def)
    then show ?thesis using inv(9) same(4) by (simp add: register_barrier_def)
  qed
  ultimately have "tokens_inv ctx'"
    using inv(1,5,6,8) inv(3,4) fresh unfolding tokens_inv_def same by simp
  moreover have "open_token t ctx'" using inv(3,4) [OF fresh] same by (simp add: open_token_def)
  ultimately show ?thesis using nxt t assms(3) by (auto simp: begin_token_def Let_def)
qed

section \<open>Calls and blocks\<close>

lemma call_inv:
  assumes "tokens_inv ctx" and "Suc (unat (rc_next_sync_token ctx)) < 2 ^ 64"
    and "call E now func_name args (ctx, sv) = (r, ctx', sv')"
  shows "tokens_inv ctx' \<and> unat (rc_next_sync_token ctx') \<le> Suc (unat (rc_next_sync_token ctx)) \<and>
    rc_enqueue_mode ctx' = rc_enqueue_mode ctx"
proof (cases "parse_call_target func_name")
  case None
  then show ?thesis using assms by (simp add: call_def)
next
  case (Some p)
  obtain spec verb i ch where p: "p = (spec, verb, i, ch)" by (metis prod.exhaust)
  let ?ps = "call_params args ch"
  let ?cmd = "default_command\<lparr>sc_instrument_name := i, sc_verb := verb, sc_params := ?ps,
    sc_expects_response := command_expects_response i verb (sv_registry sv), sc_created_at := now\<rparr>"
  consider (block) "rc_in_parallel_block ctx" | (enqueue) "\<not> rc_in_parallel_block ctx" "rc_enqueue_mode ctx"
    | (sync) "\<not> rc_in_parallel_block ctx" "\<not> rc_enqueue_mode ctx" by blast
  then show ?thesis
  proof cases
    case block
    then show ?thesis using assms Some p by (auto simp: call_def Let_def)
  next
    case sync
    then have "ctx' = ctx \<or> (\<exists>cr. ctx' = ctx\<lparr>rc_collected_results := rc_collected_results ctx @ [cr]\<rparr>)"
      using assms(3) Some p by (auto simp: call_def Let_def split: prod.splits sum.splits)
    then show ?thesis using assms(1) tokens_inv_results [OF assms(1)] by auto
  next
    case enqueue
    show ?thesis
    proof (cases "get_instrument i (sv_registry sv)")
      case None
      then show ?thesis using assms Some p enqueue by (simp add: call_def Let_def)
    next
      case (Some px)
      obtain t ctx1 where b: "begin_token now (list_instruments (sv_registry sv)) ctx = (t, ctx1)" by fastforce
      let ?cr = "default_call_result\<lparr>cl_instrument_name := spec, cl_verb := verb, cl_params := ?ps, cl_executed_at := now\<rparr>"
      let ?c = "?cmd\<lparr>sc_sync_token := Some t, sc_is_sync_barrier := True\<rparr>"
      have "\<exists>r'. dispatch E t ?cr ?c (ctx1, sv) = (r', ctx', sv')"
        using assms(3) \<open>parse_call_target func_name = Some p\<close> p enqueue Some b
        by (auto simp: call_def Let_def split: prod.splits sum.splits)
      then obtain r' where d: "dispatch E t ?cr ?c (ctx1, sv) = (r', ctx', sv')" by blast
      note bt = begin_token_inv [OF assms(1,2) b]
      have "tokens_inv ctx' \<and> rc_next_sync_token ctx' = rc_next_sync_token ctx1 \<and> rc_enqueue_mode ctx' = rc_enqueue_mode ctx1"
        using dispatch_inv [OF _ _ _ _ _ _ d] bt Some by simp
      then show ?thesis using bt by simp
    qed
  qed
qed

lemma mark_last_props:
  "cmd \<in> set (mark_last t cmds) \<Longrightarrow> sc_sync_token cmd = Some t \<and> (\<exists>c \<in> set cmds. sc_instrument_name cmd = sc_instrument_name c)"
  by (induction t cmds rule: mark_last.induct) auto

lemma token_commands_props:
  assumes "(cr, cmd) \<in> set (token_commands now t all buffer)"
  shows "sc_instrument_name cmd \<in> set all \<and> cl_verb cr = sc_verb cmd \<and> cl_params cr = sc_params cmd \<and> sc_sync_token cmd = Some t"
  using assms
  by (auto simp: token_commands_def instrument_commands_def Let_def nop_command_def default_command_def default_call_result_def
      dest!: mark_last_props split: if_splits)

lemma await_buffer_appends:
  "await_buffer E fs results sv = Some (results', sv') \<Longrightarrow> \<exists>rs. results' = results @ rs"
proof (induction fs arbitrary: results sv)
  case (Cons f fs)
  then show ?case
    by (auto split: option.splits sum.splits prod.splits dest!: Cons.IH)
qed simp

lemma execute_parallel_buffer_inv:
  assumes "tokens_inv ctx" and "Suc (unat (rc_next_sync_token ctx)) < 2 ^ 64" and "\<not> rc_enqueue_mode ctx"
    and "execute_parallel_buffer E now (ctx, sv) = Some (r, ctx', sv')"
  shows "tokens_inv ctx' \<and> unat (rc_next_sync_token ctx') \<le> Suc (unat (rc_next_sync_token ctx)) \<and>
    rc_enqueue_mode ctx' = rc_enqueue_mode ctx"
proof -
  have inc: "unat (rc_next_sync_token ctx + 1) = Suc (unat (rc_next_sync_token ctx))"
    using assms(2) unat_inc [of "rc_next_sync_token ctx"] by simp
  have step: "tokens_inv (c\<lparr>rc_next_sync_token := rc_next_sync_token c + 1, rc_sync := s\<rparr>)"
    if c: "tokens_inv c" "rc_next_sync_token c = rc_next_sync_token ctx" "\<not> rc_enqueue_mode c" for c s
  proof -
    have "u < rc_next_sync_token c + 1" if "u \<in> set (rc_token_order c)" for u
      using tokens_invD(2) [OF c(1) that] inc c(2) by (simp add: word_less_nat_alt)
    then show ?thesis using c(1,3) unfolding tokens_inv_def slots_distinct_def by simp
  qed
  consider (empty) "ctx' = ctx"
    | (err) s where "ctx' = ctx\<lparr>rc_next_sync_token := rc_next_sync_token ctx + 1, rc_sync := s\<rparr>"
    | (finished) rs s where "ctx' = ctx\<lparr>rc_next_sync_token := rc_next_sync_token ctx + 1,
        rc_collected_results := rc_collected_results ctx @ rs, rc_sync := s\<rparr>"
  proof (cases "rc_parallel_buffer ctx = []")
    case True
    then show ?thesis using assms(4) that(1) by (simp add: execute_parallel_buffer_def)
  next
    case False
    obtain fs sv1 where sb: "send_buffer E now (rc_next_sync_token ctx) (rc_parallel_buffer ctx) sv = (fs, sv1)" by fastforce
    show ?thesis
    proof (cases fs)
      case (Inl e)
      then show ?thesis using assms(4) False sb that(2) by (auto simp: execute_parallel_buffer_def Let_def)
    next
      case (Inr futures)
      then obtain results sv2 where "await_buffer E futures (rc_collected_results ctx) sv1 = Some (results, sv2)"
        using assms(4) False sb by (auto simp: execute_parallel_buffer_def Let_def split: option.splits)
      moreover from await_buffer_appends [OF this] obtain rs where "results = rc_collected_results ctx @ rs" by blast
      ultimately show ?thesis
        using assms(4) False sb Inr that(3) [where rs = rs] by (auto simp: execute_parallel_buffer_def Let_def)
    qed
  qed
  then show ?thesis
  proof cases
    case empty
    then show ?thesis using assms(1) by simp
  next
    case err
    then show ?thesis using step [OF assms(1) refl assms(3)] inc by simp
  next
    case finished
    then have "ctx' = (ctx\<lparr>rc_collected_results := rc_collected_results ctx @ rs\<rparr>)
        \<lparr>rc_next_sync_token := rc_next_sync_token ctx + 1, rc_sync := s\<rparr>"
      by (cases ctx) simp
    then show ?thesis using step [OF tokens_inv_results [OF assms(1), of rs]] assms(3) inc by simp
  qed
qed

lemma list_instruments_get: "n \<in> set (list_instruments r) \<longleftrightarrow> get_instrument n r \<noteq> None"
  by (simp add: list_instruments_def get_instrument_def om.set_keys domIff del: set_map)

lemma finish_parallel_inv:
  assumes "tokens_inv ctx" and "Suc (unat (rc_next_sync_token ctx)) < 2 ^ 64"
    and "finish_parallel E now (ctx, sv) = Some (r, ctx', sv')"
  shows "tokens_inv ctx' \<and> unat (rc_next_sync_token ctx') \<le> Suc (unat (rc_next_sync_token ctx)) \<and>
    rc_enqueue_mode ctx' = rc_enqueue_mode ctx"
proof (cases "rc_parallel_buffer ctx = [] \<or> \<not> rc_enqueue_mode ctx")
  case True
  then have "rc_parallel_buffer ctx = [] \<and> ctx' = ctx \<or>
      \<not> rc_enqueue_mode ctx \<and> execute_parallel_buffer E now (ctx, sv) = Some (r, ctx', sv')"
    using assms(3) by (cases "rc_parallel_buffer ctx = []") (simp_all add: finish_parallel_def)
  then show ?thesis using assms(1) execute_parallel_buffer_inv [OF assms(1,2)] by (metis le_SucI order_refl)
next
  case False
  let ?all = "list_instruments (sv_registry sv)"
  obtain t ctx1 where b: "begin_token now ?all ctx = (t, ctx1)" by fastforce
  let ?cs = "token_commands now t ?all (rc_parallel_buffer ctx)"
  note bt = begin_token_inv [OF assms(1,2) b]
  have d: "dispatch_all E t ?cs (ctx1, sv) = (r, ctx', sv')"
    using assms(3) False b by (simp add: finish_parallel_def Let_def)
  have "\<forall>(cr, cmd) \<in> set ?cs. get_instrument (sc_instrument_name cmd) (sv_registry sv) \<noteq> None \<and>
      cl_verb cr = sc_verb cmd \<and> cl_params cr = sc_params cmd \<and> sc_sync_token cmd = Some t"
    using token_commands_props list_instruments_get by blast
  from dispatch_all_inv [OF _ _ this d] show ?thesis using bt by simp
qed

section \<open>Scripts\<close>

text \<open>How many tokens a run takes at most.\<close>

fun token_uses :: "lua_action \<Rightarrow> nat" where
  "token_uses (LuaCall now f args) = 1"
| "token_uses (LuaParallel now block) = Suc (sum_list (map token_uses block))"
| "token_uses (LuaPcall block) = sum_list (map token_uses block)"
| "token_uses _ = 0"

definition kept :: "nat \<Rightarrow> runtime_context \<Rightarrow> runtime_context \<Rightarrow> bool" where
  "kept n ctx ctx' \<longleftrightarrow> (tokens_inv ctx \<and> unat (rc_next_sync_token ctx) + n < 2 ^ 64 \<longrightarrow>
     tokens_inv ctx' \<and> unat (rc_next_sync_token ctx') \<le> unat (rc_next_sync_token ctx) + n \<and>
     rc_enqueue_mode ctx' = rc_enqueue_mode ctx)"

lemma kept_trans: "kept m a b \<Longrightarrow> kept n b c \<Longrightarrow> kept (m + n) a c"
  by (auto simp: kept_def)

lemma kept_mono: "kept m a b \<Longrightarrow> m \<le> n \<Longrightarrow> kept n a b"
  by (auto simp: kept_def)

lemma kept_block [simp]:
  "kept n (a\<lparr>rc_in_parallel_block := x\<rparr>) b = kept n a b" "kept n (a\<lparr>rc_parallel_buffer := y\<rparr>) b = kept n a b"
  "kept n a (b\<lparr>rc_in_parallel_block := x\<rparr>) = kept n a b" "kept n a (b\<lparr>rc_parallel_buffer := y\<rparr>) = kept n a b"
  "kept n a a"
  by (auto simp: kept_def)

lemma kept_call: "call E now f args (ctx, sv) = (r, ctx', sv') \<Longrightarrow> kept 1 ctx ctx'"
  using call_inv by (fastforce simp: kept_def)

lemma kept_finish: "finish_parallel E now (ctx, sv) = Some (r, ctx', sv') \<Longrightarrow> kept 1 ctx ctx'"
  using finish_parallel_inv by (fastforce simp: kept_def)

lemma run_kept:
  "run_action E a s = Some (r, s') \<Longrightarrow> kept (token_uses a) (fst s) (fst s')"
  "run_actions E as s = Some (r, s') \<Longrightarrow> kept (sum_list (map token_uses as)) (fst s) (fst s')"
proof (induction E a s and E as s arbitrary: r s' and r s' rule: run_action_run_actions.induct)
  case (1 E now f args s)
  then show ?case using kept_call by (cases s; cases s') (fastforce split: prod.splits)
next
  case (2 E now block s)
  obtain ctx sv where s: "s = (ctx, sv)" by fastforce
  obtain ctx' sv' where s': "s' = (ctx', sv')" by fastforce
  show ?case
  proof (cases "rc_in_parallel_block ctx")
    case True
    then show ?thesis using 2(2) s s' by simp
  next
    case False
    let ?c = "ctx\<lparr>rc_in_parallel_block := True, rc_parallel_buffer := []\<rparr>"
    from False obtain rb ctx1 sv1 where run: "run_actions E block (?c, sv) = Some (rb, ctx1, sv1)"
      using 2(2) s by (auto split: option.splits)
    have k: "kept (sum_list (map token_uses block)) ctx ctx1"
      using 2(1) [OF s [symmetric] False run] by simp
    have "kept 1 ctx1 ctx'"
    proof -
      have "ctx' = ctx1 \<or> ctx' = ctx1\<lparr>rc_in_parallel_block := False, rc_parallel_buffer := []\<rparr> \<or>
        (\<exists>r sv'. finish_parallel E now (ctx1\<lparr>rc_in_parallel_block := False\<rparr>, sv1) = Some (r, ctx', sv'))"
        using 2(2) s s' False run by (auto split: sum.splits block_failure.splits)
      then show ?thesis using kept_finish by fastforce
    qed
    from kept_trans [OF k this] show ?thesis by (simp add: s s')
  qed
next
  case (7 E a as s)
  obtain ra s1 where a: "run_action E a s = Some (ra, s1)" using 7(3) by (auto split: option.splits)
  show ?case
  proof (cases ra)
    case (Inl e)
    then have "s' = s1" using 7(3) a by simp
    then show ?thesis using kept_mono [OF 7(1) [OF a]] by simp
  next
    case (Inr u)
    then have "run_actions E as s1 = Some (r, s')" using 7(3) a by simp
    from kept_trans [OF 7(1) [OF a] 7(2) [OF a _ Inr this]] show ?thesis by simp
  qed
qed (auto split: option.splits)

section \<open>Waiting\<close>

text \<open>What waiting for a future makes of its placeholder: it is filled from the response that future returned when it was
  read, with the time of the reading; a broken promise leaves it as it was.\<close>

definition answered :: "('w, 'o) run_env \<Rightarrow> future \<Rightarrow> call_result \<Rightarrow> call_result \<Rightarrow> bool" where
  "answered E f old cr \<longleftrightarrow> (\<exists>sv r t sv'. rt_get E f sv = Some (r, t, sv') \<and>
     (case r of
        Inl e \<Rightarrow> cr = old
      | Inr resp \<Rightarrow> cr = (populate_callresult_from_response old resp)\<lparr>cl_executed_at := t\<rparr>))"

text \<open>A future that can keep its reader waiting for ever.\<close>

definition blocks :: "('w, 'o) run_env \<Rightarrow> future \<Rightarrow> bool" where
  "blocks E f \<longleftrightarrow> (\<exists>sv. rt_get E f sv = None)"

definition token_slots :: "runtime_context \<Rightarrow> u64 \<Rightarrow> nat set" where
  "token_slots ctx t = set (take (length (futs ctx t)) (inds ctx t))"

lemma await_token_ok:
  assumes "length fs \<le> length ks" and "distinct ks" and "\<forall>k \<in> set ks. k < length results"
  shows "(case await_token E fs ks results sv of
      None \<Rightarrow> \<exists>f \<in> set fs. blocks E f
    | Some (Inl e) \<Rightarrow> False
    | Some (Inr (results', sv')) \<Rightarrow> length results' = length results \<and>
        (\<forall>j. j \<notin> set (take (length fs) ks) \<longrightarrow> results' ! j = results ! j) \<and>
        (\<forall>i < length fs. answered E (fs ! i) (results ! (ks ! i)) (results' ! (ks ! i))))"
  using assms
proof (induction fs arbitrary: ks results sv)
  case (Cons f fs)
  obtain k ks' where ks: "ks = k # ks'" using Cons.prems(1) by (cases ks) auto
  show ?case
  proof (cases "rt_get E f sv")
    case None
    then show ?thesis by (auto simp: blocks_def)
  next
    case (Some g)
    obtain r t sv1 where g: "rt_get E f sv = Some (r, t, sv1)" using Some by (cases g) auto
    define results1 where "results1 = (case r of Inl e \<Rightarrow> results
      | Inr resp \<Rightarrow> results[k := (populate_callresult_from_response (results ! k) resp)\<lparr>cl_executed_at := t\<rparr>])"
    have len: "length results1 = length results" by (simp add: results1_def split: sum.split)
    have other: "results1 ! j = results ! j" if "j \<noteq> k" for j using that by (simp add: results1_def split: sum.split)
    have this_one: "answered E f (results ! k) (results1 ! k)"
      using Cons.prems(3) ks g unfolding answered_def results1_def by (fastforce split: sum.split)
    have step: "await_token E (f # fs) ks results sv = await_token E fs ks' results1 sv1"
      using Cons.prems(3) ks g by (cases r) (simp_all add: results1_def)
    have p: "length fs \<le> length ks'" "distinct ks'" "\<forall>j \<in> set ks'. j < length results1" "k \<notin> set ks'"
      using Cons.prems ks len by auto
    show ?thesis
    proof (cases "await_token E fs ks' results1 sv1")
      case None
      then show ?thesis using Cons.IH [OF p(1-3), of sv1] step by simp
    next
      case (Some w)
      then obtain results' sv' where r: "await_token E fs ks' results1 sv1 = Some (Inr (results', sv'))"
          "length results' = length results1"
          "\<And>j. j \<notin> set (take (length fs) ks') \<Longrightarrow> results' ! j = results1 ! j"
          "\<And>i. i < length fs \<Longrightarrow> answered E (fs ! i) (results1 ! (ks' ! i)) (results' ! (ks' ! i))"
        using Cons.IH [OF p(1-3), of sv1] by (auto split: sum.splits)
      have k: "k \<notin> set (take (length fs) ks')" using p(4) by (meson in_set_takeD)
      have "answered E ((f # fs) ! i) (results ! (ks ! i)) (results' ! (ks ! i))" if i: "i < length (f # fs)" for i
      proof (cases i)
        case 0
        then show ?thesis using this_one r(3) [OF k] ks by simp
      next
        case (Suc m)
        then have "m < length fs" "ks' ! m \<noteq> k" using i p(1,4) by auto
        then show ?thesis using r(4) [of m] other [of "ks' ! m"] Suc ks by simp
      qed
      moreover have "results' ! j = results ! j" if "j \<notin> set (take (length (f # fs)) ks)" for j
        using that r(3) [of j] other [of j] ks by simp
      ultimately show ?thesis using r(1,2) step len by simp
    qed
  qed
qed simp

lemma token_slots_disjoint:
  assumes "slots_distinct ctx" and "t \<noteq> t'"
  shows "token_slots ctx t \<inter> set (inds ctx t') = {}"
  using assms by (auto simp: token_slots_def slots_distinct_def in_set_conv_nth dest!: in_set_takeD)

lemma slot_member:
  assumes "i < length (futs ctx u)" and "\<forall>t. length (futs ctx t) \<le> length (inds ctx t)"
  shows "inds ctx u ! i \<in> token_slots ctx u" and "inds ctx u ! i \<in> set (inds ctx u)"
proof -
  have i: "i < length (inds ctx u)" using assms by (meson order_less_le_trans)
  then show "inds ctx u ! i \<in> set (inds ctx u)" by simp
  show "inds ctx u ! i \<in> token_slots ctx u"
    using assms(1) i unfolding token_slots_def by (auto simp: in_set_conv_nth)
qed

lemma inds_distinct: "slots_distinct ctx \<Longrightarrow> distinct (inds ctx t)"
  by (auto simp: slots_distinct_def distinct_conv_nth)

lemma await_tokens_ok:
  assumes "distinct ts" and "slots_distinct ctx"
    and "\<forall>t. length (futs ctx t) \<le> length (inds ctx t)"
    and "\<forall>t. \<forall>k \<in> set (inds ctx t). k < length (rc_collected_results ctx)"
  shows "(case await_tokens E ts (ctx, sv) of
      None \<Rightarrow> \<exists>t \<in> set ts. \<exists>f \<in> set (futs ctx t). blocks E f
    | Some (Inl e) \<Rightarrow> False
    | Some (Inr (ctx', sv')) \<Rightarrow> length (rc_collected_results ctx') = length (rc_collected_results ctx) \<and>
        (\<forall>j. j \<notin> (\<Union>t \<in> set ts. token_slots ctx t) \<longrightarrow> rc_collected_results ctx' ! j = rc_collected_results ctx ! j) \<and>
        (\<forall>t \<in> set ts. \<forall>i < length (futs ctx t).
           answered E (futs ctx t ! i) (rc_collected_results ctx ! (inds ctx t ! i)) (rc_collected_results ctx' ! (inds ctx t ! i))) \<and>
        dom (map_of (barriers (rc_sync ctx'))) = dom (map_of (barriers (rc_sync ctx))) - set ts)"
  using assms
proof (induction ts arbitrary: ctx sv)
  case (Cons t ts)
  let ?rs = "rc_collected_results ctx"
  note first = await_token_ok [OF _ inds_distinct [OF Cons.prems(2), of t], of "futs ctx t" ?rs E sv]
  show ?case
  proof (cases "await_token E (futs ctx t) (inds ctx t) ?rs sv")
    case None
    then show ?thesis using first Cons.prems(3,4) by simp
  next
    case (Some w)
    then obtain rs1 sv1 where a: "await_token E (futs ctx t) (inds ctx t) ?rs sv = Some (Inr (rs1, sv1))" "length rs1 = length ?rs"
        "\<And>j. j \<notin> token_slots ctx t \<Longrightarrow> rs1 ! j = ?rs ! j"
        "\<And>i. i < length (futs ctx t) \<Longrightarrow> answered E (futs ctx t ! i) (?rs ! (inds ctx t ! i)) (rs1 ! (inds ctx t ! i))"
      using first Cons.prems(3,4) unfolding token_slots_def by (auto split: sum.splits)
    define ctx1 where "ctx1 = ctx\<lparr>rc_collected_results := rs1, rc_sync := clear_barrier t (rc_sync ctx)\<rparr>"
    obtain sv2 where s: "await_tokens E (t # ts) (ctx, sv) = await_tokens E ts (ctx1, sv2)"
      using a(1) by (auto simp: ctx1_def)
    have same: "futs ctx1 u = futs ctx u" "inds ctx1 u = inds ctx u" "token_slots ctx1 u = token_slots ctx u"
        "rc_collected_results ctx1 = rs1" "slots_distinct ctx1" for u
      using Cons.prems(2) slots_distinct_cong [of ctx ctx1] by (simp_all add: ctx1_def token_slots_def)
    have b: "dom (map_of (barriers (rc_sync ctx1))) = dom (map_of (barriers (rc_sync ctx))) - {t}"
      by (simp add: ctx1_def clear_barrier_def om.lookup_del)
    note rest = Cons.IH [of ctx1 sv2]
    show ?thesis
    proof (cases "await_tokens E ts (ctx1, sv2)")
      case None
      then show ?thesis using rest Cons.prems a(2) same s by simp
    next
      case (Some w)
      then obtain ctx' sv' where w: "await_tokens E ts (ctx1, sv2) = Some (Inr (ctx', sv'))"
          "length (rc_collected_results ctx') = length ?rs"
          "\<And>j. j \<notin> (\<Union>t \<in> set ts. token_slots ctx t) \<Longrightarrow> rc_collected_results ctx' ! j = rs1 ! j"
          "\<And>u i. u \<in> set ts \<Longrightarrow> i < length (futs ctx u) \<Longrightarrow>
            answered E (futs ctx u ! i) (rs1 ! (inds ctx u ! i)) (rc_collected_results ctx' ! (inds ctx u ! i))"
          "dom (map_of (barriers (rc_sync ctx'))) = dom (map_of (barriers (rc_sync ctx1))) - set ts"
        using rest Cons.prems a(2) same by (auto split: sum.splits)
      have "answered E (futs ctx u ! i) (?rs ! (inds ctx u ! i)) (rc_collected_results ctx' ! (inds ctx u ! i))"
        if u: "u \<in> set (t # ts)" and i: "i < length (futs ctx u)" for u i
      proof (cases "u = t")
        case True
        have "inds ctx t ! i \<notin> token_slots ctx v" if "v \<in> set ts" for v
          using that Cons.prems(1-3) slot_member [of i ctx t] i token_slots_disjoint [of ctx v t] True by auto
        then have "inds ctx t ! i \<notin> (\<Union>v \<in> set ts. token_slots ctx v)" by blast
        then show ?thesis using a(4) [of i] w(3) i True by simp
      next
        case False
        then have "rs1 ! (inds ctx u ! i) = ?rs ! (inds ctx u ! i)"
          using a(3) slot_member [of i ctx u] i Cons.prems(2,3) token_slots_disjoint [of ctx t u] by blast
        then show ?thesis using w(4) [of u i] u i False by simp
      qed
      then show ?thesis using s w a(3) b by auto
    qed
  qed
qed simp

section \<open>Properties\<close>

text \<open>C6: Every command a measure script dispatched gets its own answer: whatever the script did (calls, parallel
  blocks, errors inside and outside of \<^verbatim>\<open>pcall\<close>), waiting for its tokens never accesses a result out of range, and it can only
  hang on a future of one of the script's own commands. When the wait ends, the number and order of the results
  are kept; the result recorded for a command, the one with the command's verb and parameters, is filled from the
  response that the future of that very command returned, and no other; results no future belongs to stay as they were;
  and no token and no barrier is left.\<close>

theorem measure_results_match:
  assumes "run_actions E script (new_runtime_context True, sv) = Some (r, ctx, sv1)"
    and "Suc (sum_list (map token_uses script)) < 2 ^ 64"
  shows "(case process_tokens_and_wait E (ctx, sv1) of
      None \<Rightarrow> \<exists>t. \<exists>f \<in> set (futs ctx t). blocks E f
    | Some (Inl e) \<Rightarrow> False
    | Some (Inr (ctx', sv')) \<Rightarrow>
        length (rc_collected_results ctx') = length (rc_collected_results ctx) \<and>
        (\<forall>t i. i < length (futs ctx t) \<longrightarrow>
           future_matches t (futs ctx t ! i) (rc_collected_results ctx ! (inds ctx t ! i)) \<and>
           answered E (futs ctx t ! i) (rc_collected_results ctx ! (inds ctx t ! i)) (rc_collected_results ctx' ! (inds ctx t ! i))) \<and>
        (\<forall>j. (\<forall>t. j \<notin> token_slots ctx t) \<longrightarrow> rc_collected_results ctx' ! j = rc_collected_results ctx ! j) \<and>
        rc_token_order ctx' = [] \<and> active_barrier_count (rc_sync ctx') = 0)"
proof -
  have k: "kept (sum_list (map token_uses script)) (new_runtime_context True) ctx"
    using run_kept(2) [OF assms(1)] by simp
  have "unat (rc_next_sync_token (new_runtime_context True)) = 1" by (simp add: new_runtime_context_def)
  then have inv: "tokens_inv ctx" "rc_enqueue_mode ctx"
    using k assms(2) by (auto simp: kept_def) (simp add: new_runtime_context_def)
  note i = tokens_invD [OF inv(1)]
  have "\<forall>t. \<forall>k \<in> set (inds ctx t). k < length (rc_collected_results ctx)"
    using i(6) by (metis in_set_conv_nth)
  note w = await_tokens_ok [OF i(1,7) _ this, of E sv1]
  have mem: "t \<in> set (rc_token_order ctx)" if "n < length (futs ctx t)" for t n
    using that i(4) [of t] by (cases "t \<in> set (rc_token_order ctx)") auto
  show ?thesis
  proof (cases "await_tokens E (rc_token_order ctx) (ctx, sv1)")
    case None
    then show ?thesis using w i(5) by (auto simp: process_tokens_and_wait_def)
  next
    case (Some v)
    then obtain ctx2 sv' where a: "await_tokens E (rc_token_order ctx) (ctx, sv1) = Some (Inr (ctx2, sv'))"
      using w i(5) by (auto split: sum.splits)
    have "barriers (rc_sync ctx2) = []"
      using w i(5,9) inv(2) by (simp add: a dom_map_of_conv_image_fst)
    then have "active_barrier_count (rc_sync ctx2) = 0" by (simp add: active_barrier_count_def)
    then show ?thesis using w i(5,8) mem by (auto simp: a process_tokens_and_wait_def)
  qed
qed

lemma mark_last_barriers:
  "cmds \<noteq> [] \<Longrightarrow> map sc_is_sync_barrier (mark_last t cmds) = replicate (length cmds - 1) False @ [True]"
proof (induction t cmds rule: mark_last.induct)
  case (2 t cmd cmds)
  then show ?case by (cases cmds) simp_all
qed simp

lemma mark_last_keeps:
  "map (\<lambda>c. (sc_instrument_name c, sc_verb c, sc_params c)) (mark_last t cmds) =
   map (\<lambda>c. (sc_instrument_name c, sc_verb c, sc_params c)) cmds"
  by (induction t cmds rule: mark_last.induct) auto

text \<open>The commands sent to one instrument.\<close>

definition sent_to :: "string \<Rightarrow> (call_result \<times> serialized_command) list \<Rightarrow> serialized_command list" where
  "sent_to inst cs = filter (\<lambda>cmd. sc_instrument_name cmd = inst) (map snd cs)"

lemma instrument_commands_own:
  "map snd (instrument_commands now t buffer inst) =
     (let own = filter (\<lambda>c. sc_instrument_name c = inst) buffer
      in if own = [] then [nop_command now t inst] else mark_last t own)"
  by (simp add: instrument_commands_def Let_def comp_def)

lemma sent_to_instrument:
  "sent_to inst (instrument_commands now t buffer i) = (if i = inst then map snd (instrument_commands now t buffer i) else [])"
proof -
  have "sc_instrument_name c = i" if "c \<in> set (map snd (instrument_commands now t buffer i))" for c
    using that mark_last_props unfolding instrument_commands_own
    by (fastforce simp: Let_def nop_command_def split: if_splits)
  then show ?thesis unfolding sent_to_def by (auto simp: filter_empty_conv intro!: filter_True)
qed

lemma sent_to_token_commands:
  assumes "distinct all"
  shows "sent_to inst (token_commands now t all buffer) =
    (if inst \<in> set all then map snd (instrument_commands now t buffer inst) else [])"
  using assms
proof (induction all)
  case (Cons i all)
  have "sent_to inst (token_commands now t (i # all) buffer) =
      sent_to inst (instrument_commands now t buffer i) @ sent_to inst (token_commands now t all buffer)"
    by (simp add: sent_to_def token_commands_def)
  then show ?case using Cons by (auto simp: sent_to_instrument)
qed (simp add: sent_to_def token_commands_def)

text \<open>C10: What a parallel block sends under its token: an instrument of the registry gets the commands the block
  made for it, in their order, and exactly the last one is its barrier; an instrument the block did not use gets one
  \<^verbatim>\<open>__BARRIER_NOP__\<close>. So every instrument meets the barrier exactly once. A command for an instrument that is not in
  the registry is sent to nobody.\<close>

theorem parallel_one_barrier_each:
  assumes "distinct all" and "own = filter (\<lambda>c. sc_instrument_name c = inst) buffer"
    and "cs = sent_to inst (token_commands now t all buffer)"
  shows "if inst \<in> set all
    then map (\<lambda>c. (sc_verb c, sc_params c)) cs =
           (if own = [] then [(''__BARRIER_NOP__'', [])] else map (\<lambda>c. (sc_verb c, sc_params c)) own) \<and>
         map sc_is_sync_barrier cs = replicate (length cs - 1) False @ [True] \<and>
         (\<forall>c \<in> set cs. sc_sync_token c = Some t)
    else cs = []"
proof (cases "inst \<in> set all")
  case False
  then show ?thesis using assms sent_to_token_commands by simp
next
  case True
  have cs: "cs = (if own = [] then [nop_command now t inst] else mark_last t own)"
    using sent_to_token_commands [OF assms(1), of inst now t buffer] assms(2,3) True
    by (simp add: instrument_commands_own Let_def)
  show ?thesis
  proof (cases "own = []")
    case True
    then show ?thesis using cs \<open>inst \<in> set all\<close> by (simp add: nop_command_def)
  next
    case False
    have "map (\<lambda>c. (sc_verb c, sc_params c)) (mark_last t own) = map (\<lambda>c. (sc_verb c, sc_params c)) own"
      using arg_cong [OF mark_last_keeps [of t own], of "map snd"] by (simp add: comp_def)
    moreover from this have "length (mark_last t own) = length own" by (metis length_map)
    ultimately show ?thesis
      using False cs \<open>inst \<in> set all\<close> mark_last_barriers [OF False, of t] mark_last_props by fastforce
  qed
qed

lemma show_int_chars: "c \<in> set (show_int ch) \<Longrightarrow> is_digit c \<or> c = CHR ''-''"
  using show_nat_digits by (auto simp: show_int_def split: if_splits)

lemma sint_scast_up: "sint (scast (c :: i32) :: i64) = sint c"
  by (simp add: sint_up_scast is_up)

text \<open>The name of a call reads back: \<^verbatim>\<open>id:channel.verb\<close> is taken apart into the instrument, the channel and the verb for
  every channel an \<^verbatim>\<open>int\<close> holds, and the name a parallel block reports for such a call is the part of the text before
  the dot, as for a direct call.\<close>

theorem call_target_roundtrip:
  assumes "CHR ''.'' \<notin> set i" and "CHR '':'' \<notin> set i" and "- (2 ^ 31) \<le> ch" and "ch < 2 ^ 31"
  shows "parse_call_target (i @ ''.'' @ verb) = Some (i, verb, i, None) \<and>
    (\<exists>c. parse_call_target (i @ '':'' @ show_int ch @ ''.'' @ verb) = Some (i @ '':'' @ show_int ch, verb, i, Some c) \<and>
       sint c = ch \<and>
       display_name (default_command\<lparr>sc_instrument_name := i, sc_verb := verb, sc_params := call_params args (Some c)\<rparr>) =
         i @ '':'' @ show_int ch)"
proof -
  let ?c = "word_of_int ch :: i32"
  have c: "sint ?c = ch"
    using assms(3,4) by (simp add: sint_sbintrunc' signed_take_bit_int_eq_self)
  have nd: "CHR ''.'' \<notin> set (show_int ch)" using show_int_chars by (fastforce simp: is_digit_def)
  have "split_at_char CHR ''.'' (i @ '':'' @ show_int ch @ ''.'' @ verb) = Some (i @ '':'' @ show_int ch, verb)"
    using assms(1) nd by (simp add: split_at_char_Some)
  moreover have "split_at_char CHR '':'' (i @ '':'' @ show_int ch) = Some (i, show_int ch)"
    using assms(2) by (simp add: split_at_char_Some)
  ultimately have "parse_call_target (i @ '':'' @ show_int ch @ ''.'' @ verb) = Some (i @ '':'' @ show_int ch, verb, i, Some ?c)"
    using stoi_show_int [OF assms(3,4), of "[]"] by (simp add: parse_call_target_def)
  moreover have "display_name (default_command\<lparr>sc_instrument_name := i, sc_verb := verb, sc_params := call_params args (Some ?c)\<rparr>) =
      i @ '':'' @ show_int ch"
    using c by (simp add: display_name_def call_params_def sint_scast_up)
  moreover have "split_at_char CHR ''.'' (i @ ''.'' @ verb) = Some (i, verb)" "split_at_char CHR '':'' i = None"
    using assms(1,2) by (simp_all add: split_at_char_Some split_at_char_None)
  then have "parse_call_target (i @ ''.'' @ verb) = Some (i, verb, i, None)" by (simp add: parse_call_target_def)
  ultimately show ?thesis using c by blast
qed

text \<open>A measure job does not report arrays: a response with an array value that is not in a buffer leaves an entry of type
  \<^verbatim>\<open>void\<close> in the job's result, although the context recorded it as an array.\<close>

theorem array_result_reported_void:
  assumes "\<not> cr_has_large_data resp" and "cr_return_value resp = Some (PArray ds)" and "\<not> cl_has_large_data cr"
  shows "cl_return_type (populate_callresult_from_response cr resp) = ''array'' \<and>
    jget (result_to_json (populate_callresult_from_response cr resp)) ''return'' = Inr (json_object [(''type'', JStr ''void'')])"
  using assms
  by (simp add: populate_callresult_from_response_def result_to_json_def json_object_def Let_def)

section \<open>Witnesses\<close>

text \<open>A script with one call in enqueue mode, on the instrument of the registry's example.\<close>

definition demo_cmd :: serialized_command where
  "demo_cmd = default_command\<lparr>sc_instrument_name := ''dmm'', sc_verb := ''READ'', sc_params := [], sc_expects_response := True,
     sc_created_at := 3, sc_sync_token := Some 1, sc_is_sync_barrier := True\<rparr>"

definition demo_run_env :: "command_response \<Rightarrow> (queues, process_table) run_env" where
  "demo_run_env r = \<lparr>rt_json = docs_lib [command_to_json (demo_cmd\<lparr>sc_id := ''dmm-1''\<rparr>)], rt_mq = list_mq,
     rt_block_failure = Throws, rt_moved_id = [],
     rt_get = (\<lambda>f sv. Some (Inr r, 7, sv)), rt_wait_for = (\<lambda>f sv. (None, sv))\<rparr>"

definition demo_server :: "(queues, process_table) server" where
  "demo_server = \<lparr>sv_registry = demo_registry, sv_shared = demo_shared\<lparr>sh_shm := demo_shm\<rparr>\<rparr>"

definition demo_future :: future where
  "demo_future = \<lparr>fu_instrument = ''dmm'', fu_msg_id = 1, fu_command = demo_cmd\<rparr>"

definition demo_script :: "lua_action list" where
  "demo_script = [LuaPcall [LuaCall 3 ''dmm.READ'' []], LuaLog ''sent'']"

lemma demo_worker_executes: "\<exists>sv'. worker_execute (demo_run_env r) ''dmm'' demo_cmd demo_server = (Some (Inr demo_future), sv')"
proof -
  have one: "show_nat (Suc 0) = ''1''" by code_simp
  obtain t where "serialize_command (rt_json (demo_run_env r)) (demo_cmd\<lparr>sc_id := ''dmm-1''\<rparr>) = Inr t"
    using docs_lib_dump_in by (fastforce simp: serialize_command_def demo_run_env_def)
  then have "\<exists>px' sh'. proxy_execute (rt_json (demo_run_env r)) list_mq demo_cmd (demo_px1, demo_shared\<lparr>sh_shm := demo_shm\<rparr>) = (Inr 1, px', sh')"
    by (simp add: proxy_execute_def demo_px1_def demo_px_def new_proxy_def command_id_string_def Let_def one proxy_send_def send_msg_def
        list_mq_def demo_shm_def queue_name_inject)
  then show ?thesis
    by (auto simp: worker_execute_def demo_server_def demo_registry_def get_instrument_def demo_future_def demo_run_env_def)
qed

lemma demo_calls:
  "\<exists>ctx sv. call (demo_run_env r) 3 ''dmm.READ'' [] (new_runtime_context True, demo_server) = (Inr LNil, ctx, sv) \<and>
     futs ctx 1 = [demo_future] \<and> inds ctx 1 = [0] \<and> length (rc_collected_results ctx) = 1"
proof -
  have t: "parse_call_target ''dmm.READ'' = Some (''dmm'', ''READ'', ''dmm'', None)" by code_simp
  obtain sv' where w: "worker_execute (demo_run_env r) ''dmm'' demo_cmd demo_server = (Some (Inr demo_future), sv')"
    using demo_worker_executes by blast
  have reg: "get_instrument ''dmm'' (sv_registry demo_server) \<noteq> None"
      "command_expects_response ''dmm'' ''READ'' (sv_registry demo_server)"
    by (simp_all add: demo_server_def demo_registry_def get_instrument_def command_expects_response_def find_command_def_def
        member_def demo_api_def demo_commands_def)
  have c: "default_command\<lparr>sc_instrument_name := ''dmm'', sc_verb := ''READ'', sc_params := [], sc_expects_response := True,
     sc_created_at := 3, sc_sync_token := Some 1, sc_is_sync_barrier := True\<rparr> = demo_cmd"
    by (simp add: demo_cmd_def)
  have n: "sc_instrument_name demo_cmd = ''dmm''" by (simp add: demo_cmd_def)
  show ?thesis
    by (simp add: call_def t call_params_def lua_params_def new_runtime_context_def begin_token_def Let_def reg dispatch_def c n w
        lookup_list_def umap_append_def)
qed

theorem measure_results_match_witness:
  "\<exists>r ctx sv ctx' sv'. run_actions (demo_run_env (default_response\<lparr>cr_success := True\<rparr>)) demo_script
       (new_runtime_context True, demo_server) = Some (r, ctx, sv) \<and>
     process_tokens_and_wait (demo_run_env (default_response\<lparr>cr_success := True\<rparr>)) (ctx, sv) = Some (Inr (ctx', sv')) \<and>
     cl_verb (rc_collected_results ctx ! 0) = ''READ'' \<and> cl_success (rc_collected_results ctx' ! 0)"
proof -
  let ?E = "demo_run_env (default_response\<lparr>cr_success := True\<rparr>)"
  obtain ctx sv where c: "call ?E 3 ''dmm.READ'' [] (new_runtime_context True, demo_server) = (Inr LNil, ctx, sv)"
      "futs ctx 1 = [demo_future]" "inds ctx 1 = [0]"
    using demo_calls by blast
  then have run: "run_actions ?E demo_script (new_runtime_context True, demo_server) = Some (Inr (), ctx, sv)"
    by (simp add: demo_script_def)
  have get: "rt_get ?E f v = Some (Inr (default_response\<lparr>cr_success := True\<rparr>), 7, v)" for f v by (simp add: demo_run_env_def)
  have len: "0 < length (futs ctx 1)" using c by simp
  note m = measure_results_match [OF run]
  have tok: "Suc (sum_list (map token_uses demo_script)) < 2 ^ 64" by (simp add: demo_script_def)
  have "process_tokens_and_wait ?E (ctx, sv) \<noteq> None" using m [OF tok] by (auto simp: blocks_def get split: option.splits)
  then obtain ctx' sv' where p: "process_tokens_and_wait ?E (ctx, sv) = Some (Inr (ctx', sv'))"
    using m [OF tok] by (cases "process_tokens_and_wait ?E (ctx, sv)") (auto split: sum.splits)
  have "\<forall>t i. i < length (futs ctx t) \<longrightarrow>
      future_matches t (futs ctx t ! i) (rc_collected_results ctx ! (inds ctx t ! i)) \<and>
      answered ?E (futs ctx t ! i) (rc_collected_results ctx ! (inds ctx t ! i)) (rc_collected_results ctx' ! (inds ctx t ! i))"
    using m [OF tok] unfolding p by simp
  from this [rule_format, OF len] have "future_matches 1 demo_future (rc_collected_results ctx ! 0)"
      "answered ?E demo_future (rc_collected_results ctx ! 0) (rc_collected_results ctx' ! 0)"
    by (simp_all add: c(2,3))
  then have "cl_verb (rc_collected_results ctx ! 0) = ''READ''" "cl_success (rc_collected_results ctx' ! 0)"
    by (auto simp: future_matches_def demo_future_def demo_cmd_def answered_def demo_run_env_def
        populate_callresult_from_response_def default_response_def)
  then show ?thesis using run p by blast
qed

theorem parallel_one_barrier_each_witness:
  "map sc_verb (sent_to ''b'' (token_commands 0 5 [''a'', ''b''] [default_command\<lparr>sc_instrument_name := ''a'', sc_verb := ''READ''\<rparr>])) =
   [''__BARRIER_NOP__'']"
  using parallel_one_barrier_each [OF _ refl refl, of "[''a'', ''b'']" "''b''"
      0 5 "[default_command\<lparr>sc_instrument_name := ''a'', sc_verb := ''READ''\<rparr>]"]
  by auto

theorem call_target_roundtrip_witness:
  "parse_call_target (''dac'' @ '':'' @ show_int 3 @ ''.'' @ ''SET'') =
     Some (''dac'' @ '':'' @ show_int 3, ''SET'', ''dac'', Some 3)"
proof -
  have "\<exists>c. parse_call_target (''dac'' @ '':'' @ show_int 3 @ ''.'' @ ''SET'') =
      Some (''dac'' @ '':'' @ show_int 3, ''SET'', ''dac'', Some c) \<and> sint c = 3"
    using call_target_roundtrip [of "''dac''" 3 "''SET''"] by auto
  moreover have "c = 3" if "sint c = 3" for c :: i32
    using arg_cong [OF that, of "word_of_int :: int \<Rightarrow> i32"] by simp
  ultimately show ?thesis by blast
qed

theorem array_result_reported_void_witness:
  "jget (result_to_json (populate_callresult_from_response default_call_result
     (default_response\<lparr>cr_return_value := Some (PArray [0])\<rparr>))) ''return'' = Inr (json_object [(''type'', JStr ''void'')])"
  using array_result_reported_void [of "default_response\<lparr>cr_return_value := Some (PArray [0])\<rparr>" "[0]" default_call_result]
  by (simp add: default_response_def default_call_result_def)

end
