(* ===== verification/Server_Daemon.thy ===== *)
theory Server_Daemon
  imports Instrument_Registry
begin

text \<open>
  \<^verbatim>\<open>ServerDaemon\<close> (\<^verbatim>\<open>src/server/ServerDaemon.cpp\<close>) with the life cycle of \<^verbatim>\<open>HttpRpcServer\<close>
  (\<^verbatim>\<open>src/server/HttpRpcServer.cpp\<close>), POSIX branch: the one daemon per user, known by the PID in a file.
  The environment variables, the file system calls, \<^verbatim>\<open>kill(pid, 0)\<close> and binding a port are arguments.
  Destroying a thread that was not joined ends the process; that is the error \<open>terminated\<close>.
\<close>

section \<open>Environment and state\<close>

record daemon_env =
  de_xdg_runtime_dir :: "string option"
  de_user :: "string option"
  de_getpid :: int
  de_mkdir :: "string \<Rightarrow> bool"  \<comment> \<open>\<^verbatim>\<open>create_directories\<close> does not throw\<close>
  de_open_write :: "string \<Rightarrow> bool"
  de_remove :: "string \<Rightarrow> bool"
  de_process_exists :: "int \<Rightarrow> bool"  \<comment> \<open>\<^verbatim>\<open>kill(pid, 0) == 0\<close>\<close>
  de_bind :: "u16 \<Rightarrow> u16 option"  \<comment> \<open>the bound port, if socket, bind and listen succeed\<close>

type_synonym files = "(string, string) umap"

record http_rpc_server =
  hr_running :: bool
  hr_thread :: bool  \<comment> \<open>joinable\<close>
  hr_bound_port :: u16
  hr_listening :: bool

record server_daemon =
  dm_running :: bool
  dm_thread :: bool  \<comment> \<open>joinable\<close>
  dm_registry :: bool  \<comment> \<open>not \<^verbatim>\<open>nullptr\<close>\<close>
  dm_sync_coordinator :: "sync_coordinator option"
  dm_rpc_server :: "http_rpc_server option"
  dm_rpc_port :: u16

definition new_daemon :: server_daemon where
  "new_daemon = \<lparr>dm_running = False, dm_thread = False, dm_registry = False, dm_sync_coordinator = None,
     dm_rpc_server = None, dm_rpc_port = 0\<rparr>"

section \<open>The RPC server's thread\<close>

definition new_rpc_server :: http_rpc_server where
  "new_rpc_server = \<lparr>hr_running = False, hr_thread = False, hr_bound_port = 0, hr_listening = False\<rparr>"

text \<open>\<^verbatim>\<open>start\<close> and the first part of \<^verbatim>\<open>run_loop\<close>, which runs while \<^verbatim>\<open>start\<close> sleeps. It does not learn whether the
  bind succeeded.\<close>

definition run_loop_bind :: "daemon_env \<Rightarrow> u16 \<Rightarrow> http_rpc_server \<Rightarrow> http_rpc_server" where
  "run_loop_bind D port hr =
     (case de_bind D port of
        None \<Rightarrow> hr\<lparr>hr_bound_port := 0, hr_listening := False, hr_running := False\<rparr>
      | Some bound \<Rightarrow> hr\<lparr>hr_bound_port := (if port = 0 then bound else port), hr_listening := True\<rparr>)"

definition rpc_start :: "daemon_env \<Rightarrow> u16 \<Rightarrow> http_rpc_server \<Rightarrow> bool \<times> http_rpc_server" where
  "rpc_start D port hr =
     (if hr_running hr then (True, hr)
      else (True, run_loop_bind D port (hr\<lparr>hr_running := True, hr_thread := True\<rparr>)))"

text \<open>\<^verbatim>\<open>stop\<close>: joining the calling thread itself throws.\<close>

definition rpc_stop :: "bool \<Rightarrow> http_rpc_server \<Rightarrow> unit result \<times> http_rpc_server" where
  "rpc_stop on_rpc_thread hr =
     (if \<not> hr_running hr then (Inr (), hr)
      else
        let hr1 = hr\<lparr>hr_running := False, hr_listening := False\<rparr> in
        if hr_thread hr1 then
          (if on_rpc_thread then (Inl ''Resource deadlock avoided'', hr1) else (Inr (), hr1\<lparr>hr_thread := False\<rparr>))
        else (Inr (), hr1))"

definition terminated :: string where
  "terminated = ''std::terminate''"

definition rpc_destroy :: "bool \<Rightarrow> http_rpc_server \<Rightarrow> unit result" where
  "rpc_destroy on_rpc_thread hr =
     (case rpc_stop on_rpc_thread hr of
        (Inl e, hr') \<Rightarrow> Inl terminated
      | (Inr _, hr') \<Rightarrow> if hr_thread hr' then Inl terminated else Inr ())"

section \<open>The PID file\<close>

definition get_runtime_dir :: "daemon_env \<Rightarrow> string" where
  "get_runtime_dir D =
     (case de_xdg_runtime_dir D of
        Some d \<Rightarrow> d @ ''/instrument-server''
      | None \<Rightarrow> ''/tmp/instrument-server-'' @ (case de_user D of Some u \<Rightarrow> u | None \<Rightarrow> ''unknown''))"

definition get_pid_file_path :: "daemon_env \<Rightarrow> string" where
  "get_pid_file_path D = get_runtime_dir D @ ''/server.pid''"

definition get_lock_file_path :: "daemon_env \<Rightarrow> string" where
  "get_lock_file_path D = get_runtime_dir D @ ''/server.lock''"

text \<open>\<^verbatim>\<open>ifs >> pid\<close> reads white space, a sign and digits, as \<^verbatim>\<open>std::stoi\<close> does.\<close>

definition read_pid :: "daemon_env \<Rightarrow> files \<Rightarrow> int option" where
  "read_pid D fl =
     (case map_of fl (get_pid_file_path D) of
        None \<Rightarrow> None
      | Some t \<Rightarrow> (case stoi t of Inl e \<Rightarrow> None | Inr pid \<Rightarrow> Some pid))"

definition is_already_running :: "daemon_env \<Rightarrow> files \<Rightarrow> bool" where
  "is_already_running D fl = (case read_pid D fl of None \<Rightarrow> False | Some pid \<Rightarrow> de_process_exists D pid)"

definition get_daemon_pid :: "daemon_env \<Rightarrow> files \<Rightarrow> int" where
  "get_daemon_pid D fl = (case read_pid D fl of None \<Rightarrow> - 1 | Some pid \<Rightarrow> pid)"

definition create_pid_file :: "daemon_env \<Rightarrow> files \<Rightarrow> bool \<times> files" where
  "create_pid_file D fl =
     (if \<not> de_mkdir D (get_runtime_dir D) then (False, fl)
      else if \<not> de_open_write D (get_pid_file_path D) then (False, fl)
      else (True, umap_put (get_pid_file_path D) (show_int (de_getpid D) @ [CHR 0x0A]) fl))"

definition remove_pid_file :: "daemon_env \<Rightarrow> files \<Rightarrow> files" where
  "remove_pid_file D fl = (if de_remove D (get_pid_file_path D) then umap_del (get_pid_file_path D) fl else fl)"

section \<open>Starting and stopping\<close>

definition daemon_start :: "daemon_env \<Rightarrow> server_daemon \<times> files \<Rightarrow> bool \<times> server_daemon \<times> files" where
  "daemon_start D s =
     (case s of (dm, fl) \<Rightarrow>
        if dm_running dm then (True, dm, fl)
        else if is_already_running D fl then (False, dm, fl)
        else case create_pid_file D fl of
            (False, fl1) \<Rightarrow> (False, dm, fl1)
          | (True, fl1) \<Rightarrow>
              let dm1 = dm\<lparr>dm_registry := True, dm_sync_coordinator := Some new_coordinator\<rparr> in
              if dm_rpc_port dm1 > 0
              then case rpc_start D (dm_rpc_port dm1) new_rpc_server of
                  (False, hr) \<Rightarrow>
                    (False, dm1\<lparr>dm_rpc_server := None, dm_sync_coordinator := None, dm_registry := False\<rparr>,
                     remove_pid_file D fl1)
                | (True, hr) \<Rightarrow>
                    (True, dm1\<lparr>dm_rpc_server := Some hr, dm_running := True, dm_thread := True\<rparr>, fl1)
              else (True, dm1\<lparr>dm_running := True, dm_thread := True\<rparr>, fl1))"

definition daemon_stop ::
  "daemon_env \<Rightarrow> ('w, 'o) reg_env \<Rightarrow> bool \<Rightarrow> server_daemon \<times> files \<times> instrument_registry \<times> ('w, 'o) shared \<Rightarrow>
   unit result \<times> server_daemon \<times> files \<times> instrument_registry \<times> ('w, 'o) shared"
where
  "daemon_stop D E on_rpc_thread s =
     (case s of (dm, fl, rs) \<Rightarrow>
        if \<not> dm_running dm then (Inr (), dm, fl, rs)
        else
          let dm1 = dm\<lparr>dm_running := False\<rparr>;
              rs1 = (if dm_registry dm1 then stop_all E rs else rs);
              finish = (\<lambda>dm. (Inr (), dm\<lparr>dm_thread := False, dm_sync_coordinator := None\<rparr>, remove_pid_file D fl, rs1))
          in case dm_rpc_server dm1 of
               None \<Rightarrow> finish dm1
             | Some hr \<Rightarrow>
                 (case rpc_stop on_rpc_thread hr of
                    (Inl e, hr') \<Rightarrow> (Inl e, dm1\<lparr>dm_rpc_server := Some hr'\<rparr>, fl, rs1)
                  | (Inr _, hr') \<Rightarrow>
                      (case rpc_destroy on_rpc_thread hr' of
                         Inl e \<Rightarrow> (Inl e, dm1, fl, rs1)
                       | Inr _ \<Rightarrow> finish (dm1\<lparr>dm_rpc_server := None\<rparr>))))"

text \<open>The destructor stops the daemon and then destroys its thread.\<close>

definition daemon_destroy ::
  "daemon_env \<Rightarrow> ('w, 'o) reg_env \<Rightarrow> server_daemon \<times> files \<times> instrument_registry \<times> ('w, 'o) shared \<Rightarrow>
   unit result \<times> files \<times> instrument_registry \<times> ('w, 'o) shared"
where
  "daemon_destroy D E s =
     (case daemon_stop D E False s of
        (Inl e, dm, s') \<Rightarrow> (Inl terminated, s')
      | (Inr _, dm, s') \<Rightarrow> (if dm_thread dm then (Inl terminated, s') else (Inr (), s')))"

section \<open>Facts\<close>

lemma read_pid_own:
  assumes "- (2 ^ 31) \<le> de_getpid D" and "de_getpid D < 2 ^ 31"
  shows "read_pid D' (umap_put (get_pid_file_path D') (show_int (de_getpid D) @ [CHR 0x0A]) fl) = Some (de_getpid D)"
  using stoi_show_int [OF assms, of "[CHR 0x0A]"] by (simp add: read_pid_def is_digit_def)

lemma runtime_dir_other [simp]: "get_runtime_dir (D\<lparr>de_getpid := q\<rparr>) = get_runtime_dir D"
  by (simp add: get_runtime_dir_def split: option.split)

lemma read_pid_other [simp]:
  "read_pid (D\<lparr>de_getpid := q\<rparr>) fl = read_pid D fl" "is_already_running (D\<lparr>de_getpid := q\<rparr>) fl = is_already_running D fl"
  by (simp_all add: read_pid_def is_already_running_def get_pid_file_path_def split: option.split)

lemma daemon_started:
  assumes "daemon_start D (dm, fl) = (True, dm', fl')" and "\<not> dm_running dm" and "dm_rpc_server dm = None"
    and "dm_rpc_port dm > 0 \<Longrightarrow> de_bind D (dm_rpc_port dm) \<noteq> None"
  shows "dm_running dm' \<and> dm_registry dm' \<and>
    (\<forall>hr. dm_rpc_server dm' = Some hr \<longrightarrow> hr_running hr \<and> hr_thread hr) \<and>
    fl' = umap_put (get_pid_file_path D) (show_int (de_getpid D) @ [CHR 0x0A]) fl"
  using assms
  by (auto simp: daemon_start_def create_pid_file_def rpc_start_def run_loop_bind_def new_rpc_server_def Let_def
      split: if_splits option.splits prod.splits)

section \<open>Properties\<close>

text \<open>C38: The life of a daemon. Once it has started, the PID file names it and it counts as running, so no second process
  of the user can start one; a stop from outside the RPC thread, with the port bound, succeeds, stops every
  instrument and removes the file, after which a new daemon can be started.\<close>

theorem daemon_lifecycle:
  assumes "daemon_start D (dm, fl) = (True, dm', fl')" and "\<not> dm_running dm" and "dm_rpc_server dm = None"
    and "dm_rpc_port dm > 0 \<Longrightarrow> de_bind D (dm_rpc_port dm) \<noteq> None"
    and "- (2 ^ 31) \<le> de_getpid D" and "de_getpid D < 2 ^ 31" and "de_process_exists D (de_getpid D)"
    and "de_remove D (get_pid_file_path D)"
  shows "is_already_running D fl' \<and> get_daemon_pid D fl' = de_getpid D \<and>
    (\<forall>q dm2. \<not> dm_running dm2 \<longrightarrow> daemon_start (D\<lparr>de_getpid := q\<rparr>) (dm2, fl') = (False, dm2, fl')) \<and>
    (\<exists>dm'' fl''. daemon_stop D E False (dm', fl', rs) = (Inr (), dm'', fl'', stop_all E rs) \<and>
       \<not> dm_running dm'' \<and> \<not> dm_thread dm'' \<and> dm_rpc_server dm'' = None \<and>
       \<not> is_already_running D fl'' \<and> fst (daemon_start D (dm'', fl'')) =
         (de_mkdir D (get_runtime_dir D) \<and> de_open_write D (get_pid_file_path D)))"
proof -
  note st = daemon_started [OF assms(1-4)]
  have pid: "read_pid D fl' = Some (de_getpid D)" using st read_pid_own [OF assms(5,6)] by simp
  then have run: "is_already_running D fl'" using assms(7) by (simp add: is_already_running_def)
  define fl'' where "fl'' = remove_pid_file D fl'"
  have gone: "\<not> is_already_running D fl''"
    using assms(8) by (simp add: fl''_def remove_pid_file_def is_already_running_def read_pid_def)
  define dm'' where "dm'' = dm'\<lparr>dm_running := False, dm_rpc_server := None, dm_thread := False, dm_sync_coordinator := None\<rparr>"
  have none: "dm'\<lparr>dm_running := False, dm_thread := False, dm_sync_coordinator := None\<rparr> = dm''" if "dm_rpc_server dm' = None"
    using that by (cases dm') (simp add: dm''_def)
  have "daemon_stop D E False (dm', fl', rs) = (Inr (), dm'', fl'', stop_all E rs)"
    using st none by (cases "dm_rpc_server dm'") (simp_all add: daemon_stop_def Let_def rpc_stop_def rpc_destroy_def fl''_def dm''_def)
  moreover have "fst (daemon_start D (dm'', fl'')) = (de_mkdir D (get_runtime_dir D) \<and> de_open_write D (get_pid_file_path D))"
    using gone by (auto simp: daemon_start_def dm''_def create_pid_file_def rpc_start_def Let_def split: prod.split)
  ultimately show ?thesis
    using run pid gone by (auto simp: get_daemon_pid_def daemon_start_def dm''_def)
qed

text \<open>A stop that arrives over RPC runs on the server's own thread: the join throws, so the PID file stays, the
  daemon no longer counts itself as running, and its destruction ends the process.\<close>

theorem rpc_stop_leaves_pid_file:
  assumes "dm_running dm" and "dm_rpc_server dm = Some hr" and "hr_running hr" and "hr_thread hr" and "dm_thread dm"
    and "daemon_stop D E True (dm, fl, rs) = (r, dm', fl', rs')"
  shows "(\<exists>e. r = Inl e) \<and> fl' = fl \<and> \<not> dm_running dm' \<and> fst (daemon_destroy D E (dm', fl', rs')) = Inl terminated"
  using assms by (auto simp: daemon_stop_def rpc_stop_def daemon_destroy_def Let_def split: if_splits)

text \<open>When the port cannot be bound, the daemon still reports a successful start, and stopping it ends the process: the
  server's thread has finished without being joined.\<close>

theorem bind_failure_terminates:
  assumes "\<not> dm_running dm" and "\<not> is_already_running D fl" and "fst (create_pid_file D fl)"
    and "dm_rpc_port dm > 0" and "de_bind D (dm_rpc_port dm) = None"
  shows "\<exists>dm' fl'. daemon_start D (dm, fl) = (True, dm', fl') \<and>
    fst (daemon_stop D E False (dm', fl', rs)) = Inl terminated"
proof -
  let ?hr = "\<lparr>hr_running = False, hr_thread = True, hr_bound_port = 0, hr_listening = False\<rparr>"
  let ?dm = "dm\<lparr>dm_registry := True, dm_sync_coordinator := Some new_coordinator, dm_rpc_server := Some ?hr,
    dm_running := True, dm_thread := True\<rparr>"
  obtain fl' where "create_pid_file D fl = (True, fl')" using assms(3) by (cases "create_pid_file D fl") auto
  then have "daemon_start D (dm, fl) = (True, ?dm, fl')"
    using assms by (simp add: daemon_start_def rpc_start_def run_loop_bind_def new_rpc_server_def Let_def)
  moreover have "fst (daemon_stop D E False (?dm, fl', rs)) = Inl terminated"
    by (simp add: daemon_stop_def rpc_stop_def rpc_destroy_def Let_def)
  ultimately show ?thesis by blast
qed

section \<open>Witnesses\<close>

definition demo_daemon_env :: daemon_env where
  "demo_daemon_env = \<lparr>de_xdg_runtime_dir = None, de_user = Some ''lab'', de_getpid = 42, de_mkdir = (\<lambda>_. True),
     de_open_write = (\<lambda>_. True), de_remove = (\<lambda>_. True), de_process_exists = (\<lambda>p. p = 42), de_bind = Some\<rparr>"

theorem daemon_lifecycle_witness:
  "\<exists>dm fl dm' fl'. daemon_start demo_daemon_env (new_daemon\<lparr>dm_rpc_port := 8555\<rparr>, []) = (True, dm, fl) \<and>
     is_already_running demo_daemon_env fl \<and>
     daemon_stop demo_daemon_env demo_env False (dm, fl, demo_registry, demo_shared) =
       (Inr (), dm', fl', stop_all demo_env (demo_registry, demo_shared)) \<and> \<not> is_already_running demo_daemon_env fl'"
proof -
  obtain dm fl where s: "daemon_start demo_daemon_env (new_daemon\<lparr>dm_rpc_port := 8555\<rparr>, []) = (True, dm, fl)"
    by (simp add: daemon_start_def new_daemon_def demo_daemon_env_def is_already_running_def read_pid_def create_pid_file_def
        rpc_start_def new_rpc_server_def Let_def)
  from daemon_lifecycle [OF this, of demo_env "(demo_registry, demo_shared)"] s show ?thesis
    by (simp add: new_daemon_def demo_daemon_env_def) blast
qed

end
