(* ===== verification/Command_Handlers.thy ===== *)
theory Command_Handlers
  imports Runtime_Context Server_Daemon Job_Manager
begin

text \<open>
  \<^verbatim>\<open>src/server/CommandHandlers.cpp\<close>: the commands of the server. A handler gets a JSON object and answers with a
  return code and a JSON object; it may also throw (\<^const>\<open>Inl\<close>), or never return (\<^const>\<open>None\<close>). The singletons it
  acts on (registries, job manager, daemon) and the files are the record \<open>sys\<close>.
\<close>

section \<open>State\<close>

record ('w, 'o, 'p) sys =
  sy_server :: "('w, 'o) server"
  sy_plugins :: "'p plugin_registry"
  sy_jobs :: job_manager
  sy_daemon :: server_daemon
  sy_files :: files
  sy_discover_once :: bool  \<comment> \<open>\<^verbatim>\<open>g_plugins_init_flag\<close> of \<^verbatim>\<open>handle_discover\<close> is set\<close>
  sy_plugins_once :: bool

record ('w, 'o, 'p) handler_env =
  he_reg :: "('w, 'o) reg_env"
  he_run :: "('w, 'o) run_env"
  he_yaml :: yaml_lib
  he_path :: path_env
  he_fs :: file_system
  he_dlopen :: "'p dl"
  he_daemon :: daemon_env
  he_rpc_port_env :: "string option"
  he_on_rpc_thread :: bool
  he_until_stopped :: "('w, 'o, 'p) sys \<Rightarrow> ('w, 'o, 'p) sys option"  \<comment> \<open>what others do until the daemon has stopped\<close>
  he_script :: "string \<Rightarrow> lua_action list result"  \<comment> \<open>a script's run, or why it does not load\<close>
  he_ms :: nat
  he_now :: nat

type_synonym ('w, 'o, 'p) handler =
  "('w, 'o, 'p) handler_env \<Rightarrow> json \<Rightarrow> ('w, 'o, 'p) sys \<Rightarrow> ((int \<times> json) result \<times> ('w, 'o, 'p) sys) option"

definition reply_error :: "string \<Rightarrow> int \<times> json" where
  "reply_error e = (1, json_object [(''ok'', JBool False), (''error'', JStr e)])"

definition DEFAULT_PORT :: int where
  "DEFAULT_PORT = 8555"

section \<open>Daemon\<close>

definition configure_rpc_port :: "string option \<Rightarrow> server_daemon \<Rightarrow> server_daemon" where
  "configure_rpc_port env dm =
     (case env of
        None \<Rightarrow> dm
      | Some t \<Rightarrow>
          if t = [] then dm
          else case stoi t of
              Inl e \<Rightarrow> dm\<lparr>dm_rpc_port := word_of_int DEFAULT_PORT\<rparr>
            | Inr port \<Rightarrow> if port > 0 \<and> port \<le> 65535 then dm\<lparr>dm_rpc_port := word_of_int port\<rparr> else dm)"

definition sys_daemon_start :: "('w, 'o, 'p) handler_env \<Rightarrow> ('w, 'o, 'p) sys \<Rightarrow> bool \<times> ('w, 'o, 'p) sys" where
  "sys_daemon_start H s =
     (case daemon_start (he_daemon H) (configure_rpc_port (he_rpc_port_env H) (sy_daemon s), sy_files s) of
        (b, dm, fl) \<Rightarrow> (b, s\<lparr>sy_daemon := dm, sy_files := fl\<rparr>))"

definition sys_daemon_stop :: "('w, 'o, 'p) handler_env \<Rightarrow> ('w, 'o, 'p) sys \<Rightarrow> unit result \<times> ('w, 'o, 'p) sys" where
  "sys_daemon_stop H s =
     (case daemon_stop (he_daemon H) (he_reg H) (he_on_rpc_thread H)
             (sy_daemon s, sy_files s, sv_registry (sy_server s), sv_shared (sy_server s)) of
        (r, dm, fl, reg, sh) \<Rightarrow>
          (r, s\<lparr>sy_daemon := dm, sy_files := fl, sy_server := \<lparr>sv_registry = reg, sv_shared = sh\<rparr>\<rparr>))"

definition handle_daemon :: "('w, 'o, 'p) handler" where
  "handle_daemon H params s =
     (case bind_result (value_string params ''action'' [])
             (\<lambda>action. bind_result (value_string params ''log_level'' ''info'')
             (\<lambda>_. bind_result (value_bool params ''block'' True) (\<lambda>block. Inr (action, block)))) of
        Inl e \<Rightarrow> Some (Inl e, s)
      | Inr (action, block) \<Rightarrow>
          if action = ''start'' then
            (case sys_daemon_start H s of
               (False, s1) \<Rightarrow> Some (Inr (reply_error ''Failed to start daemon''), s1)
             | (True, s1) \<Rightarrow>
                 let out = json_object [(''ok'', JBool True), (''pid'', JInt (get_daemon_pid (he_daemon H) (sy_files s1)))] in
                 if block \<and> dm_running (sy_daemon s1)
                 then map_option (\<lambda>s2. (Inr (0, out), s2)) (he_until_stopped H s1)
                 else Some (Inr (0, out), s1))
          else if action = ''stop'' then
            (if \<not> is_already_running (he_daemon H) (sy_files s)
             then Some (Inr (0, json_object [(''ok'', JBool True), (''message'', JStr ''daemon not running'')]), s)
             else case sys_daemon_stop H s of
                 (Inl e, s1) \<Rightarrow> Some (Inl e, s1)
               | (Inr _, s1) \<Rightarrow> Some (Inr (0, json_object [(''ok'', JBool True)]), s1))
          else if action = ''status'' then
            (let pid = get_daemon_pid (he_daemon H) (sy_files s) in
             Some (Inr (0,
               if is_already_running (he_daemon H) (sy_files s)
               then json_object [(''ok'', JBool True), (''running'', JBool True), (''pid'', JInt pid),
                      (''message'', JStr (''daemon running (pid='' @ show_int pid @ '')''))]
               else json_object [(''ok'', JBool True), (''running'', JBool False),
                      (''message'', JStr ''daemon not running'')]), s))
          else Some (Inr (reply_error ''Unknown daemon action''), s))"

section \<open>Instruments\<close>

text \<open>The custom plugin of \<^verbatim>\<open>start\<close> and \<^verbatim>\<open>test\<close>: an exception, an early return with a message, or the plugin registry.\<close>

definition load_custom_plugin ::
  "('w, 'o, 'p) handler_env \<Rightarrow> string \<Rightarrow> 'p plugin_registry \<Rightarrow> (string + 'p plugin_registry) result"
where
  "load_custom_plugin H custom_plugin plugins =
     (if custom_plugin = [] then Inr (Inr plugins)
      else if \<not> fs_exists (he_fs H) custom_plugin then Inr (Inl ''plugin file not found'')
      else bind_result (new_plugin_loader (he_dlopen H) custom_plugin) (\<lambda>loader.
        if \<not> is_loaded loader then Inr (Inl ''failed to load plugin'')
        else bind_result (loader_get_metadata loader) (\<lambda>metadata.
          Inr (Inr (snd (load_plugin (he_dlopen H) (pm_protocol_type metadata) custom_plugin plugins))))))"

definition sys_create_instrument :: "('w, 'o, 'p) handler_env \<Rightarrow> string \<Rightarrow> ('w, 'o, 'p) sys \<Rightarrow> bool \<times> ('w, 'o, 'p) sys" where
  "sys_create_instrument H config_path s =
     (case create_instrument (he_reg H) (he_yaml H) (he_path H) (sy_plugins s) config_path
             (sv_registry (sy_server s), sv_shared (sy_server s)) of
        (b, reg, sh) \<Rightarrow> (b, s\<lparr>sy_server := \<lparr>sv_registry = reg, sv_shared = sh\<rparr>\<rparr>))"

definition sys_remove_instrument :: "('w, 'o, 'p) handler_env \<Rightarrow> string \<Rightarrow> ('w, 'o, 'p) sys \<Rightarrow> ('w, 'o, 'p) sys" where
  "sys_remove_instrument H name s =
     (case remove_instrument (he_reg H) name (sv_registry (sy_server s), sv_shared (sy_server s)) of
        (reg, sh) \<Rightarrow> s\<lparr>sy_server := \<lparr>sv_registry = reg, sv_shared = sh\<rparr>\<rparr>)"

abbreviation sys_instruments :: "('w, 'o, 'p) sys \<Rightarrow> string list" where
  "sys_instruments s \<equiv> list_instruments (sv_registry (sy_server s))"

definition handle_start :: "('w, 'o, 'p) handler" where
  "handle_start H params s =
     (case bind_result (value_string params ''config_path'' [])
             (\<lambda>config_path. bind_result (value_string params ''plugin'' [])
             (\<lambda>custom_plugin. bind_result (value_string params ''log_level'' ''info'')
             (\<lambda>_. Inr (config_path, custom_plugin)))) of
        Inl e \<Rightarrow> Some (Inl e, s)
      | Inr (config_path, custom_plugin) \<Rightarrow>
          if config_path = [] then Some (Inr (reply_error ''missing config_path''), s)
          else case load_custom_plugin H custom_plugin (sy_plugins s) of
              Inl e \<Rightarrow> Some (Inr (reply_error (''exception: '' @ e)), s)
            | Inr (Inl msg) \<Rightarrow> Some (Inr (reply_error msg), s)
            | Inr (Inr plugins) \<Rightarrow>
                (case sys_create_instrument H config_path (s\<lparr>sy_plugins := plugins\<rparr>) of
                   (False, s1) \<Rightarrow> Some (Inr (reply_error ''failed to create instrument''), s1)
                 | (True, s1) \<Rightarrow>
                     Some (Inr (0, json_object ([(''ok'', JBool True)] @
                       (if sys_instruments s1 = [] then [] else [(''instrument'', JStr (last (sys_instruments s1)))]))), s1)))"

definition handle_stop :: "('w, 'o, 'p) handler" where
  "handle_stop H params s =
     (case value_string params ''name'' [] of
        Inl e \<Rightarrow> Some (Inl e, s)
      | Inr name \<Rightarrow>
          if name = [] then Some (Inr (reply_error ''missing name''), s)
          else if \<not> has_instrument name (sv_registry (sy_server s))
          then Some (Inr (reply_error ''instrument not found''), s)
          else Some (Inr (0, json_object [(''ok'', JBool True)]), sys_remove_instrument H name s))"

definition stats_to_json :: "proxy_stats \<Rightarrow> json" where
  "stats_to_json st = json_object
     [(''commands_sent'', JInt (uint (st_commands_sent st))), (''commands_completed'', JInt (uint (st_commands_completed st))),
      (''commands_failed'', JInt (uint (st_commands_failed st))), (''commands_timeout'', JInt (uint (st_commands_timeout st)))]"

definition handle_status :: "('w, 'o, 'p) handler" where
  "handle_status H params s =
     (case value_string params ''name'' [] of
        Inl e \<Rightarrow> Some (Inl e, s)
      | Inr name \<Rightarrow>
          if name = [] then Some (Inr (reply_error ''missing name''), s)
          else case get_instrument name (sv_registry (sy_server s)) of
              None \<Rightarrow> Some (Inr (reply_error ''instrument not found''), s)
            | Some px \<Rightarrow>
                (case proxy_is_alive (re_os (he_reg H)) px (sv_shared (sy_server s)) of (alive, sh) \<Rightarrow>
                   Some (Inr (0, json_object [(''ok'', JBool True), (''name'', JStr name), (''alive'', JBool alive),
                           (''stats'', stats_to_json (px_stats px))]),
                         s\<lparr>sy_server := (sy_server s)\<lparr>sv_shared := sh\<rparr>\<rparr>)))"

definition handle_list :: "('w, 'o, 'p) handler" where
  "handle_list H params s =
     Some (Inr (0, json_object [(''ok'', JBool True), (''instruments'', JArr (map JStr (sys_instruments s)))]), s)"

section \<open>Scripts\<close>

definition path_filename :: "string \<Rightarrow> string" where
  "path_filename p = rev (takeWhile (\<lambda>c. c \<noteq> CHR ''/'') (rev p))"

text \<open>A JSON value that is never assigned to stays null.\<close>

definition measure_params_json :: "(string, param_value) umap \<Rightarrow> json" where
  "measure_params_json params = (if params = [] then JNull else params_to_json params)"

definition measure_return_json :: "call_result \<Rightarrow> json" where
  "measure_return_json r =
     (if cl_has_large_data r
      then json_object [(''type'', JStr ''buffer''), (''buffer_id'', JStr (cl_buffer_id r)),
             (''element_count'', JInt (uint (cl_element_count r))), (''data_type'', JStr (cl_data_type r))]
      else case cl_return_value r of
          None \<Rightarrow> JNull
        | Some v \<Rightarrow> json_object ([(''type'', JStr (cl_return_type r))] @
            (case v of PArray _ \<Rightarrow> [] | _ \<Rightarrow> [(''value'', param_to_json v)])))"

definition measure_result_json :: "nat \<Rightarrow> call_result \<Rightarrow> json" where
  "measure_result_json i r = json_object
     [(''index'', JInt (int i)), (''instrument'', JStr (cl_instrument_name r)), (''verb'', JStr (cl_verb r)),
      (''params'', measure_params_json (cl_params r)), (''executed_at_ms'', JInt (int (cl_executed_at r div 1000000))),
      (''return'', measure_return_json r)]"

fun measure_results_json :: "nat \<Rightarrow> call_result list \<Rightarrow> json list" where
  "measure_results_json i [] = []"
| "measure_results_json i (r # rs) = measure_result_json i r # measure_results_json (Suc i) rs"

definition handle_measure :: "('w, 'o, 'p) handler" where
  "handle_measure H params s =
     (case bind_result (value_string params ''script_path'' [])
             (\<lambda>script_path. bind_result (value_string params ''log_level'' ''info'')
             (\<lambda>_. bind_result (value_bool params ''json'' False) (\<lambda>_. Inr script_path))) of
        Inl e \<Rightarrow> Some (Inl e, s)
      | Inr script_path \<Rightarrow>
          if script_path = [] then Some (Inr (reply_error ''missing script_path''), s)
          else if sys_instruments s = [] then Some (Inr (reply_error ''no instruments running''), s)
          else case he_script H script_path of
              Inl e \<Rightarrow> Some (Inr (reply_error e), s)
            | Inr actions \<Rightarrow>
                (case run_actions (he_run H) actions (new_runtime_context False, sy_server s) of
                   None \<Rightarrow> None
                 | Some (Inl e, ctx, sv) \<Rightarrow> Some (Inr (reply_error e), s\<lparr>sy_server := sv\<rparr>)
                 | Some (Inr _, ctx, sv) \<Rightarrow>
                     Some (Inr (0, json_object [(''ok'', JBool True), (''script'', JStr (path_filename script_path)),
                             (''results'', JArr (measure_results_json 0 (rc_collected_results ctx)))]),
                           s\<lparr>sy_server := sv\<rparr>)))"

text \<open>The parameters of \<^verbatim>\<open>test\<close>: \<^verbatim>\<open>it.key()\<close> throws unless the value is an object.\<close>

fun test_param :: "json_lib \<Rightarrow> json \<Rightarrow> param_value result" where
  "test_param L (JInt i) = Inr (PInt64 (word_of_int i))"
| "test_param L (JFloat d) = Inr (PDouble d)"
| "test_param L (JBool b) = Inr (PBool b)"
| "test_param L (JStr t) = Inr (PString t)"
| "test_param L j = bind_result (jl_dump L j) (\<lambda>t. Inr (PString t))"

fun test_members :: "json_lib \<Rightarrow> (string, json) omap \<Rightarrow> (string, param_value) umap \<Rightarrow> (string, param_value) umap result" where
  "test_members L [] ps = Inr ps"
| "test_members L ((k, v) # m) ps = bind_result (test_param L v) (\<lambda>p. test_members L m (umap_put k p ps))"

fun test_params :: "json_lib \<Rightarrow> json \<Rightarrow> (string, param_value) umap result" where
  "test_params L (JObj m) = test_members L m []"
| "test_params L JNull = Inr []"
| "test_params L (JArr []) = Inr []"
| "test_params L _ = Inl ''invalid_iterator.207''"

fun scalar_value_json :: "param_value option \<Rightarrow> json option" where
  "scalar_value_json None = None"
| "scalar_value_json (Some (PArray _)) = None"
| "scalar_value_json (Some v) = Some (param_to_json v)"

definition test_reply :: "command_response \<Rightarrow> int \<times> json" where
  "test_reply resp =
     (if cr_success resp then 0 else 1,
      json_object ([(''ok'', JBool (cr_success resp)), (''success'', JBool (cr_success resp)),
         (''error_message'', JStr (cr_error_message resp)), (''text_response'', JStr (cr_text_response resp))] @
        (case (if cr_success resp then scalar_value_json (cr_return_value resp) else None) of
           None \<Rightarrow> [] | Some v \<Rightarrow> [(''return_value'', v)])))"

definition handle_test :: "('w, 'o, 'p) handler" where
  "handle_test H params s =
     (case bind_result (value_string params ''config_path'' [])
             (\<lambda>config_path. bind_result (value_string params ''verb'' [])
             (\<lambda>verb. bind_result (value_string params ''plugin'' [])
             (\<lambda>custom_plugin. bind_result (value_string params ''log_level'' ''info'')
             (\<lambda>_. bind_result (value_json params ''params'' (JObj []))
             (\<lambda>param_values. Inr (config_path, verb, custom_plugin, param_values)))))) of
        Inl e \<Rightarrow> Some (Inl e, s)
      | Inr (config_path, verb, custom_plugin, param_values) \<Rightarrow>
          if config_path = [] \<or> verb = [] then Some (Inr (reply_error ''missing config_path or verb''), s)
          else case load_custom_plugin H custom_plugin (sy_plugins s) of
              Inl e \<Rightarrow> Some (Inr (reply_error (''exception: '' @ e)), s)
            | Inr (Inl msg) \<Rightarrow> Some (Inr (reply_error msg), s)
            | Inr (Inr plugins) \<Rightarrow>
                (case sys_create_instrument H config_path (s\<lparr>sy_plugins := plugins\<rparr>) of
                   (False, s1) \<Rightarrow> Some (Inr (reply_error ''failed to create instrument''), s1)
                 | (True, s1) \<Rightarrow>
                     if sys_instruments s1 = [] then Some (Inr (reply_error ''no instrument created''), s1)
                     else
                       let instrument_name = last (sys_instruments s1) in
                       if get_instrument instrument_name (sv_registry (sy_server s1)) = None
                       then Some (Inr (reply_error ''failed to get instrument proxy''), sys_remove_instrument H instrument_name s1)
                       else case test_params (rt_json (he_run H)) param_values of
                           Inl e \<Rightarrow> Some (Inr (reply_error (''exception: '' @ e)), s1)
                         | Inr ps \<Rightarrow>
                             (case worker_execute_sync (he_run H) instrument_name
                                     (default_command\<lparr>sc_id := ''rpc-test-cmd'', sc_instrument_name := instrument_name,
                                        sc_verb := verb, sc_expects_response := True, sc_params := ps\<rparr>) (sy_server s1) of
                                (None, sv) \<Rightarrow> Some (Inr (reply_error ''failed to get instrument proxy''), s1)
                              | (Some (Inl e), sv) \<Rightarrow>
                                  Some (Inr (reply_error (''exception: '' @ e)), s1\<lparr>sy_server := sv\<rparr>)
                              | (Some (Inr resp), sv) \<Rightarrow>
                                  Some (Inr (test_reply resp),
                                        sys_remove_instrument H instrument_name (s1\<lparr>sy_server := sv\<rparr>)))))"

section \<open>Plugins\<close>

definition default_plugin_paths :: "string list" where
  "default_plugin_paths = [''/usr/local/lib/instrument-plugins'', ''/usr/lib/instrument-plugins'', ''./plugins'', ''.'']"

fun get_strings :: "json list \<Rightarrow> string list result" where
  "get_strings [] = Inr []"
| "get_strings (j # js) = bind_result (get_string j) (\<lambda>t. bind_result (get_strings js) (\<lambda>ts. Inr (t # ts)))"

definition search_paths :: "json \<Rightarrow> string list result" where
  "search_paths params =
     (case member params ''paths'' of Some (JArr ps) \<Rightarrow> get_strings ps | _ \<Rightarrow> Inr default_plugin_paths)"

definition handle_discover :: "('w, 'o, 'p) handler" where
  "handle_discover H params s =
     (case search_paths params of
        Inl e \<Rightarrow> Some (Inl e, s)
      | Inr paths \<Rightarrow>
          let discover = discover_plugins (he_fs H) (he_dlopen H) paths;
              r1 = (if sy_discover_once s then sy_plugins s
                    else discover (load_builtin_plugins (he_fs H) (he_dlopen H) (sy_plugins s)));
              r2 = discover r1
          in Some (Inr (0, json_object [(''ok'', JBool True), (''protocols'', JArr (map JStr (list_protocols r2))),
                     (''paths'', JArr (map JStr paths))]),
                   s\<lparr>sy_plugins := r2, sy_discover_once := True\<rparr>))"

definition handle_plugins :: "('w, 'o, 'p) handler" where
  "handle_plugins H params s =
     (let r1 = (if sy_plugins_once s then sy_plugins s else load_builtin_plugins (he_fs H) (he_dlopen H) (sy_plugins s));
          r2 = discover_plugins (he_fs H) (he_dlopen H) default_plugin_paths r1
      in Some (Inr (0, json_object [(''ok'', JBool True),
                 (''plugins'', JArr (map (\<lambda>p. json_object [(''protocol'', JStr p), (''path'', JStr (get_plugin_path p r2))])
                    (list_protocols r2))),
                 (''total'', JInt (int (length (list_protocols r2))))]),
               s\<lparr>sy_plugins := r2, sy_plugins_once := True\<rparr>))"

section \<open>Jobs\<close>

definition handle_submit_job :: "('w, 'o, 'p) handler" where
  "handle_submit_job H params s =
     (case bind_result (value_string params ''job_type'' [])
             (\<lambda>ty. bind_result (value_json params ''params'' (JObj [])) (\<lambda>job_params. Inr (ty, job_params))) of
        Inl e \<Rightarrow> Some (Inl e, s)
      | Inr (ty, job_params) \<Rightarrow>
          if ty = [] then Some (Inr (reply_error ''missing job_type''), s)
          else case submit_job (he_ms H) (he_now H) ty job_params (sy_jobs s) of (jid, m) \<Rightarrow>
            Some (Inr (0, json_object [(''ok'', JBool True), (''job_id'', JStr jid)]), s\<lparr>sy_jobs := m\<rparr>))"

definition handle_submit_measure :: "('w, 'o, 'p) handler" where
  "handle_submit_measure H params s =
     (case value_string params ''script_path'' [] of
        Inl e \<Rightarrow> Some (Inl e, s)
      | Inr script_path \<Rightarrow>
          if script_path = [] then Some (Inr (reply_error ''missing script_path''), s)
          else case submit_measure (he_ms H) (he_now H) script_path params (sy_jobs s) of
              Inl e \<Rightarrow> Some (Inl e, s)
            | Inr (jid, m) \<Rightarrow> Some (Inr (0, json_object [(''ok'', JBool True), (''job_id'', JStr jid)]), s\<lparr>sy_jobs := m\<rparr>))"

definition ms_json :: "nat \<Rightarrow> json" where
  "ms_json t = JInt (int (t div 1000000))"

definition handle_job_status :: "('w, 'o, 'p) handler" where
  "handle_job_status H params s =
     (case value_string params ''job_id'' [] of
        Inl e \<Rightarrow> Some (Inl e, s)
      | Inr jid \<Rightarrow>
          if jid = [] then Some (Inr (reply_error ''missing job_id''), s)
          else case get_job_info jid (sy_jobs s) of
              None \<Rightarrow> Some (Inr (reply_error ''job not found''), s)
            | Some info \<Rightarrow>
                Some (Inr (0, json_object
                  ([(''ok'', JBool True), (''job_id'', JStr (ji_id info)), (''status'', JStr (ji_status info)),
                    (''created_at'', ms_json (ji_created_at info))] @
                   (if ji_status info \<in> {''running'', ''completed'', ''failed'', ''canceled''}
                    then [(''started_at'', ms_json (ji_started_at info))] else []) @
                   (if ji_status info \<in> {''completed'', ''failed'', ''canceled''}
                    then [(''finished_at'', ms_json (ji_finished_at info))] else []))), s))"

definition handle_job_result :: "('w, 'o, 'p) handler" where
  "handle_job_result H params s =
     (case value_string params ''job_id'' [] of
        Inl e \<Rightarrow> Some (Inl e, s)
      | Inr jid \<Rightarrow>
          if jid = [] then Some (Inr (reply_error ''missing job_id''), s)
          else case get_job_result jid (sy_jobs s) of
              Some result \<Rightarrow> Some (Inr (0, json_object [(''ok'', JBool True), (''result'', result)]), s)
            | None \<Rightarrow>
                (case get_job_info jid (sy_jobs s) of
                   None \<Rightarrow> Some (Inr (reply_error ''job not found''), s)
                 | Some info \<Rightarrow>
                     if ji_status info \<noteq> ''completed''
                     then Some (Inr (1, json_object
                       ([(''ok'', JBool False), (''error'', JStr ''job not completed''), (''status'', JStr (ji_status info))] @
                        (if ji_error info = [] then [] else [(''error_detail'', JStr (ji_error info))]))), s)
                     else Some (Inr (reply_error ''no result available''), s)))"

definition handle_job_list :: "('w, 'o, 'p) handler" where
  "handle_job_list H params s =
     Some (Inr (0, json_object [(''ok'', JBool True), (''jobs'', JArr (map (\<lambda>j. json_object
       [(''job_id'', JStr (ji_id j)), (''type'', JStr (ji_type j)), (''status'', JStr (ji_status j)),
        (''created_at'', ms_json (ji_created_at j))]) (list_jobs (sy_jobs s))))]), s)"

definition handle_job_cancel :: "('w, 'o, 'p) handler" where
  "handle_job_cancel H params s =
     (case value_string params ''job_id'' [] of
        Inl e \<Rightarrow> Some (Inl e, s)
      | Inr jid \<Rightarrow>
          if jid = [] then Some (Inr (reply_error ''missing job_id''), s)
          else case cancel_job (he_now H) jid (sy_jobs s) of (ok, m) \<Rightarrow>
            Some (Inr (if ok then 0 else 1, json_object ([(''ok'', JBool ok)] @
              (if ok then [] else [(''error'', JStr ''failed to cancel job (maybe already finished)'')]))), s\<lparr>sy_jobs := m\<rparr>))"

section \<open>The shape of replies\<close>

text \<open>A reply that keeps the contract at the top of the source: an object with a Boolean \<^verbatim>\<open>ok\<close>, true exactly
  when the return code is 0.\<close>

definition reply_ok :: "int \<times> json \<Rightarrow> bool" where
  "reply_ok r \<longleftrightarrow> jget (snd r) ''ok'' = Inr (JBool (fst r = 0)) \<and> fst r \<in> {0, 1}"

definition handler_ok :: "('w, 'o, 'p) handler \<Rightarrow> bool" where
  "handler_ok h \<longleftrightarrow> (\<forall>H params s r s'. h H params s = Some (Inr r, s') \<longrightarrow> reply_ok r)"

lemma handler_okI: "(\<And>H params s r s'. h H params s = Some (Inr r, s') \<Longrightarrow> reply_ok r) \<Longrightarrow> handler_ok h"
  by (simp add: handler_ok_def)

lemma jget_object_first: "k \<notin> fst ` set kvs \<Longrightarrow> jget (json_object ((k, v) # kvs)) k = Inr v"
proof -
  assume "k \<notin> fst ` set kvs"
  then have "map_of (rev kvs) k = None" by (simp add: map_of_eq_None_iff)
  then show ?thesis by (simp add: json_object_def map_of_fold_put map_add_def)
qed

lemma reply_okI:
  "''ok'' \<notin> fst ` set kvs \<Longrightarrow> (b \<longleftrightarrow> rc = 0) \<Longrightarrow> rc = 0 \<or> rc = 1 \<Longrightarrow> reply_ok (rc, json_object ((''ok'', JBool b) # kvs))"
  by (simp add: reply_ok_def jget_object_first)

lemma reply_error_ok [simp]: "reply_ok (reply_error e)"
  by (simp add: reply_error_def reply_okI)

lemma test_reply_ok [simp]: "reply_ok (test_reply resp)"
  by (simp add: test_reply_def reply_ok_def jget_object_first split: option.split)

lemma reply_eq_ok: "reply_error e = r \<Longrightarrow> reply_ok r" "test_reply resp = r \<Longrightarrow> reply_ok r"
  by auto

lemma handle_daemon_ok: "handler_ok handle_daemon"
  by (rule handler_okI)
    (auto simp: handle_daemon_def Let_def intro!: reply_okI dest: reply_eq_ok split: sum.splits prod.splits if_splits bool.splits)

lemma handle_start_ok: "handler_ok handle_start"
  by (rule handler_okI) (auto simp: handle_start_def intro!: reply_okI dest: reply_eq_ok split: sum.splits prod.splits if_splits bool.splits)

lemma handle_stop_ok: "handler_ok handle_stop"
  by (rule handler_okI) (auto simp: handle_stop_def intro!: reply_okI dest: reply_eq_ok split: sum.splits if_splits)

lemma handle_status_ok: "handler_ok handle_status"
  by (rule handler_okI) (auto simp: handle_status_def intro!: reply_okI dest: reply_eq_ok split: sum.splits prod.splits if_splits option.splits)

lemma handle_list_ok: "handler_ok handle_list"
  by (rule handler_okI) (auto simp: handle_list_def intro!: reply_okI)

lemma handle_measure_ok: "handler_ok handle_measure"
  by (rule handler_okI) (auto simp: handle_measure_def intro!: reply_okI dest: reply_eq_ok split: sum.splits prod.splits if_splits option.splits)

lemma handle_test_ok: "handler_ok handle_test"
  by (rule handler_okI)
    (auto simp: handle_test_def Let_def dest: reply_eq_ok split: sum.splits prod.splits if_splits option.splits bool.splits)

lemma handle_discover_ok: "handler_ok handle_discover"
  by (rule handler_okI) (auto simp: handle_discover_def Let_def intro!: reply_okI dest: reply_eq_ok split: sum.splits)

lemma handle_plugins_ok: "handler_ok handle_plugins"
  by (rule handler_okI) (auto simp: handle_plugins_def Let_def intro!: reply_okI)

lemma handle_submit_job_ok: "handler_ok handle_submit_job"
  by (rule handler_okI) (auto simp: handle_submit_job_def intro!: reply_okI dest: reply_eq_ok split: sum.splits prod.splits if_splits)

lemma handle_submit_measure_ok: "handler_ok handle_submit_measure"
  by (rule handler_okI) (auto simp: handle_submit_measure_def intro!: reply_okI dest: reply_eq_ok split: sum.splits prod.splits if_splits)

lemma handle_job_status_ok: "handler_ok handle_job_status"
  by (rule handler_okI) (auto simp: handle_job_status_def intro!: reply_okI dest: reply_eq_ok split: sum.splits option.splits if_splits)

lemma handle_job_result_ok: "handler_ok handle_job_result"
  by (rule handler_okI) (auto simp: handle_job_result_def intro!: reply_okI dest: reply_eq_ok split: sum.splits option.splits if_splits)

lemma handle_job_list_ok: "handler_ok handle_job_list"
  by (rule handler_okI) (auto simp: handle_job_list_def intro!: reply_okI)

lemma handle_job_cancel_ok: "handler_ok handle_job_cancel"
  by (rule handler_okI) (auto simp: handle_job_cancel_def intro!: reply_okI dest: reply_eq_ok split: sum.splits prod.splits if_splits)

lemmas handlers_ok = handle_daemon_ok handle_start_ok handle_stop_ok handle_status_ok handle_list_ok handle_measure_ok
  handle_test_ok handle_discover_ok handle_plugins_ok handle_submit_job_ok handle_submit_measure_ok handle_job_status_ok
  handle_job_result_ok handle_job_list_ok handle_job_cancel_ok

end
