(* ===== verification/Http_Rpc.thy ===== *)
theory Http_Rpc
  imports Command_Handlers
begin

text \<open>
  The request side of \<^verbatim>\<open>src/server/HttpRpcServer.cpp\<close>: reading a request from a socket, dispatching it to a command
  handler and writing the reply. What a client sends is the list of pieces in which the bytes arrive; the
  end of the list, or an empty piece, is where \<^verbatim>\<open>recv\<close> returns 0 or an error.
\<close>

section \<open>Reading\<close>

definition MAX_HEADER_READ :: nat where
  "MAX_HEADER_READ = 64 * 1024"

fun recv :: "nat \<Rightarrow> string list \<Rightarrow> string \<times> string list" where
  "recv n [] = ([], [])"
| "recv n (c # cs) = (take n c, if length c \<le> n then cs else drop n c # cs)"

text \<open>Exactly \<open>n\<close> bytes, in as many calls as it takes.\<close>

fun read_n :: "nat \<Rightarrow> string list \<Rightarrow> (string \<times> string list) option" where
  "read_n 0 cs = Some ([], cs)"
| "read_n (Suc n) [] = None"
| "read_n (Suc n) (c # cs) =
     (if c = [] then None
      else if length c \<le> Suc n
      then map_option (\<lambda>(d, rest). (c @ d, rest)) (read_n (Suc n - length c) cs)
      else Some (take (Suc n) c, drop (Suc n) c # cs))"

definition CRLF :: string where
  "CRLF = [CHR 0x0D, CHR 0x0A]"

text \<open>The loop of \<^verbatim>\<open>read_http_headers\<close> with what was read so far.\<close>

function read_headers_loop :: "string \<Rightarrow> string list \<Rightarrow> (string \<times> string \<times> string list) option" where
  "read_headers_loop got cs =
     (if length got < MAX_HEADER_READ
      then case recv 1024 cs of
          (d, rest) \<Rightarrow>
            if d = [] then None
            else case find_sub (CRLF @ CRLF) (got @ d) of
                Some pos \<Rightarrow> Some (take (pos + 4) (got @ d), drop (pos + 4) (got @ d), rest)
              | None \<Rightarrow> read_headers_loop (got @ d) rest
      else None)"
  by pat_completeness auto

termination
  by (relation "measure (\<lambda>(got, cs). MAX_HEADER_READ - length got)") (auto simp: diff_less_mono2)

declare read_headers_loop.simps [simp del]

definition read_http_headers :: "string list \<Rightarrow> (string \<times> string \<times> string list) option" where
  "read_http_headers cs = read_headers_loop [] cs"

section \<open>Parsing\<close>

text \<open>\<^verbatim>\<open>std::getline\<close> until the stream ends.\<close>

fun getlines :: "string \<Rightarrow> string \<Rightarrow> string list" where
  "getlines line [] = (if line = [] then [] else [line])"
| "getlines line (c # cs) = (if c = CHR 0x0A then line # getlines [] cs else getlines (line @ [c]) cs)"

definition strip_cr :: "string \<Rightarrow> string" where
  "strip_cr line = (if line \<noteq> [] \<and> last line = CHR 0x0D then butlast line else line)"

definition to_lower :: "char \<Rightarrow> char" where
  "to_lower c = (if 65 \<le> (of_char c :: nat) \<and> (of_char c :: nat) \<le> 90 then char_of ((of_char c :: nat) + 32) else c)"

fun content_length_lines :: "string list \<Rightarrow> int" where
  "content_length_lines [] = - 1"
| "content_length_lines (l # ls) =
     (let line = strip_cr l in
      case find_sub ''content-length:'' (map to_lower line) of
        None \<Rightarrow> content_length_lines ls
      | Some pos \<Rightarrow>
          (case stoi (dropWhile is_space (drop (pos + 15) line)) of Inl e \<Rightarrow> - 1 | Inr n \<Rightarrow> n))"

definition parse_content_length :: "string \<Rightarrow> int" where
  "parse_content_length headers = content_length_lines (getlines [] headers)"

text \<open>The first two words of the request line, as \<^verbatim>\<open>operator>>\<close> reads them.\<close>

definition next_word :: "string \<Rightarrow> string \<times> string" where
  "next_word s = (let t = dropWhile is_space s in (takeWhile (\<lambda>c. \<not> is_space c) t, dropWhile (\<lambda>c. \<not> is_space c) t))"

definition request_target :: "string \<Rightarrow> string \<times> string" where
  "request_target headers =
     (let request_line = strip_cr (case getlines [] headers of [] \<Rightarrow> [] | l # _ \<Rightarrow> l);
          (m, r) = next_word request_line
      in (m, fst (next_word r)))"

text \<open>
  The body: \<^verbatim>\<open>remaining\<close> is an unsigned difference. When more bytes arrived with the headers than the
  length says, it wraps, and \<^verbatim>\<open>recv\<close> writes behind the end of the string.
\<close>

datatype body_read = Body string "string list" | BodyFailed | BodyOverrun

definition read_body :: "int \<Rightarrow> string \<Rightarrow> string list \<Rightarrow> body_read" where
  "read_body content_len extra_data cs =
     (if content_len > 0
      then
        let remaining = (word_of_int content_len :: u64) - of_nat (length extra_data) in
        if remaining > 0
        then if unat remaining \<le> nat content_len
          then (case read_n (unat remaining) cs of
                  None \<Rightarrow> BodyFailed
                | Some (d, rest) \<Rightarrow> Body (extra_data @ d) rest)
          else BodyOverrun
        else Body extra_data cs
      else Body [] cs)"

section \<open>Dispatch\<close>

definition command_handler :: "string \<Rightarrow> ('w, 'o, 'p) handler option" where
  "command_handler command =
     (if command = ''list'' then Some handle_list
      else if command = ''status'' then Some handle_status
      else if command = ''start'' then Some handle_start
      else if command = ''stop'' then Some handle_stop
      else if command = ''daemon'' then Some handle_daemon
      else if command = ''measure'' then Some handle_measure
      else if command = ''test'' then Some handle_test
      else if command = ''discover'' then Some handle_discover
      else if command = ''plugins'' then Some handle_plugins
      else if command = ''submit_job'' then Some handle_submit_job
      else if command = ''submit_measure'' then Some handle_submit_measure
      else if command = ''job_status'' then Some handle_job_status
      else if command = ''job_result'' then Some handle_job_result
      else if command = ''job_list'' then Some handle_job_list
      else if command = ''job_cancel'' then Some handle_job_cancel
      else None)"

text \<open>What happens to a connection: closed without a reply, a reply, or the end of the server.\<close>

datatype outcome = Closed | Reply int string | Crash string

definition http_response :: "int \<Rightarrow> string \<Rightarrow> string" where
  "http_response status_code body =
     ''HTTP/1.0 '' @ show_int status_code @ '' '' @ CRLF @ ''Content-Type: application/json'' @ CRLF @
     ''Content-Length: '' @ show_nat (length body) @ CRLF @ ''Connection: close'' @ CRLF @ CRLF @ body"

definition reply_json :: "json_lib \<Rightarrow> int \<Rightarrow> json \<Rightarrow> outcome" where
  "reply_json L status j = (case jl_dump L j of Inl e \<Rightarrow> Crash e | Inr t \<Rightarrow> Reply status t)"

text \<open>The \<^verbatim>\<open>catch\<close> block; a throw in it is not caught.\<close>

definition reply_exception :: "json_lib \<Rightarrow> string \<Rightarrow> outcome" where
  "reply_exception L e = reply_json L 500 (json_object [(''ok'', JBool False), (''error'', JStr (''exception: '' @ e))])"

definition run_command ::
  "('w, 'o, 'p) handler_env \<Rightarrow> string \<Rightarrow> ('w, 'o, 'p) sys \<Rightarrow> ((int \<times> json) result \<times> ('w, 'o, 'p) sys) option"
where
  "run_command H body s =
     (case bind_result (jl_parse (rt_json (he_run H)) body) (\<lambda>req.
             bind_result (value_string req ''command'' []) (\<lambda>command.
             bind_result (value_json req ''params'' (JObj [])) (\<lambda>params. Inr (command, params)))) of
        Inl e \<Rightarrow> Some (Inl e, s)
      | Inr (command, params) \<Rightarrow>
          (case command_handler command of
             None \<Rightarrow> Some (Inr (reply_error ''unknown command''), s)
           | Some h \<Rightarrow> h H params s))"

definition serve_request ::
  "('w, 'o, 'p) handler_env \<Rightarrow> string \<Rightarrow> string \<Rightarrow> ('w, 'o, 'p) sys \<Rightarrow> (outcome \<times> ('w, 'o, 'p) sys) option"
where
  "serve_request H headers body s =
     (let L = rt_json (he_run H); (meth, path) = request_target headers in
      if \<not> (meth = ''POST'' \<and> (path = ''/rpc'' \<or> path = ''/rpc/''))
      then Some (reply_json L 404 (json_object [(''ok'', JBool False), (''error'', JStr ''Only POST /rpc is supported'')]), s)
      else case run_command H body s of
          None \<Rightarrow> None
        | Some (Inl e, s') \<Rightarrow> Some (reply_exception L e, s')
        | Some (Inr (rc, resp), s') \<Rightarrow>
            Some (case jl_dump L resp of
                    Inl e \<Rightarrow> reply_exception L e
                  | Inr t \<Rightarrow> Reply (if rc = 0 then 200 else 500) t, s'))"

definition serve_client ::
  "('w, 'o, 'p) handler_env \<Rightarrow> string list \<Rightarrow> ('w, 'o, 'p) sys \<Rightarrow> (outcome \<times> ('w, 'o, 'p) sys) option"
where
  "serve_client H cs s =
     (case read_http_headers cs of
        None \<Rightarrow> Some (Closed, s)
      | Some (headers, extra_data, rest) \<Rightarrow>
          (case read_body (parse_content_length headers) extra_data rest of
             BodyFailed \<Rightarrow> Some (Closed, s)
           | BodyOverrun \<Rightarrow> Some (Crash ''write behind the end of the body'', s)
           | Body body _ \<Rightarrow> serve_request H headers body s))"

section \<open>Facts\<close>

definition pieces_ok :: "string list \<Rightarrow> bool" where
  "pieces_ok cs \<longleftrightarrow> [] \<notin> set cs"

lemma recv_pieces:
  assumes "pieces_ok cs" and "0 < n" and "recv n cs = (d, rest)"
  shows "d @ concat rest = concat cs \<and> pieces_ok rest \<and> length d \<le> n \<and> (d = [] \<longleftrightarrow> concat cs = [])"
  using assms by (cases cs) (auto simp: pieces_ok_def split: if_splits)

lemma read_n_pieces:
  "pieces_ok cs \<Longrightarrow> n \<le> length (concat cs) \<Longrightarrow>
   \<exists>rest. read_n n cs = Some (take n (concat cs), rest) \<and> concat rest = drop n (concat cs)"
proof (induction n cs rule: read_n.induct)
  case (3 n c cs)
  show ?case
  proof (cases "length c \<le> Suc n")
    case True
    have "c \<noteq> []" "pieces_ok cs" using 3(2) by (auto simp: pieces_ok_def)
    moreover have "Suc n - length c \<le> length (concat cs)" using 3(3) True by simp
    ultimately obtain rest where "read_n (Suc n - length c) cs = Some (take (Suc n - length c) (concat cs), rest)"
        "concat rest = drop (Suc n - length c) (concat cs)"
      using 3(1) True by blast
    then show ?thesis using True \<open>c \<noteq> []\<close> by simp
  next
    case False
    then show ?thesis using 3(2) by (auto simp: pieces_ok_def)
  qed
qed auto

text \<open>The headers end where the first empty line ends, however the bytes arrive.\<close>

lemma read_headers_loop_ok:
  assumes "pieces_ok cs" and "find_sub (CRLF @ CRLF) (got @ concat cs) = Some pos" and "length got < pos + 4"
    and "pos + 4 \<le> MAX_HEADER_READ"
  shows "\<exists>extra rest. read_headers_loop got cs = Some (take (pos + 4) (got @ concat cs), extra, rest) \<and>
    extra @ concat rest = drop (pos + 4) (got @ concat cs) \<and> pieces_ok rest"
  using assms
proof (induction got cs rule: read_headers_loop.induct)
  case (1 got cs)
  have lt: "length got < MAX_HEADER_READ" using 1(4,5) by simp
  have len4: "length (CRLF @ CRLF) = 4" by (simp add: CRLF_def)
  obtain d rest where r: "recv 1024 cs = (d, rest)" by fastforce
  from recv_pieces [OF 1(2) _ r] have p: "d @ concat rest = concat cs" "pieces_ok rest" "d = [] \<longleftrightarrow> concat cs = []" by auto
  have all: "got @ concat cs = (got @ d) @ concat rest" using p(1) by simp
  have "d \<noteq> []"
  proof
    assume "d = []"
    then have "concat cs = []" using p(3) by simp
    then have "find_sub (CRLF @ CRLF) got = Some pos" using 1(3) by (simp only: append_Nil2)
    then have "pos + 4 \<le> length got" using find_sub_bound len4 by metis
    then show False using 1(4) by simp
  qed
  have f: "find_sub (CRLF @ CRLF) (got @ d) = (if pos + 4 \<le> length (got @ d) then Some pos else None)"
    using find_sub_prefix [of "CRLF @ CRLF" "got @ d" "concat rest" pos] 1(3) all len4 by simp
  show ?case
  proof (cases "pos + 4 \<le> length (got @ d)")
    case True
    then have "read_headers_loop got cs = Some (take (pos + 4) (got @ d), drop (pos + 4) (got @ d), rest)"
      using lt r \<open>d \<noteq> []\<close> f by (subst read_headers_loop.simps) simp
    moreover have "take (pos + 4) (got @ d) = take (pos + 4) (got @ concat cs)"
      using True unfolding all by simp
    moreover have "drop (pos + 4) (got @ d) @ concat rest = drop (pos + 4) (got @ concat cs)"
      using True unfolding all by simp
    ultimately show ?thesis using p(2) by auto
  next
    case False
    then have "read_headers_loop got cs = read_headers_loop (got @ d) rest"
      using lt r \<open>d \<noteq> []\<close> f by (subst read_headers_loop.simps) simp
    moreover have "find_sub (CRLF @ CRLF) ((got @ d) @ concat rest) = Some pos" using 1(3) all by simp
    ultimately show ?thesis
      using 1(1) [OF lt r [symmetric] \<open>d \<noteq> []\<close> _ p(2)] f False 1(5) all by auto
  qed
qed

lemma read_body_exact:
  assumes "pieces_ok rest" and "length (extra @ concat rest) < 2 ^ 31"
  shows "\<exists>rest'. read_body (int (length (extra @ concat rest))) extra rest = Body (extra @ concat rest) rest'"
proof -
  define m where "m = length (concat rest)"
  define w where "w = (word_of_int (int (length (extra @ concat rest))) :: u64) - of_nat (length extra)"
  have "w = of_nat m" by (simp add: w_def m_def)
  moreover have "m < 2 ^ 64" using assms(2) by (simp add: m_def)
  ultimately have w: "unat w = m" by (simp add: unat_of_nat take_bit_eq_mod)
  then have pos: "w > 0 \<longleftrightarrow> m > 0" by (simp add: word_less_nat_alt)
  obtain rest' where n: "read_n m rest = Some (concat rest, rest')"
    using read_n_pieces [OF assms(1), of m] by (auto simp: m_def)
  show ?thesis
  proof (cases "m = 0")
    case True
    then have e: "concat rest = []" by (simp add: m_def)
    have "read_body (int (length extra)) extra rest = Body extra rest"
      by (cases "extra = []") (simp_all add: read_body_def)
    then show ?thesis by (simp only: e append_Nil2) blast
  next
    case False
    then have "read_body (int (length (extra @ concat rest))) extra rest =
        (case read_n (unat w) rest of None \<Rightarrow> BodyFailed | Some (d, r) \<Rightarrow> Body (extra @ d) r)"
      unfolding read_body_def w_def [symmetric] using pos w by (auto simp: m_def)
    then show ?thesis using n w by simp
  qed
qed

lemma client_request_read:
  assumes "pieces_ok cs" and "find_sub (CRLF @ CRLF) (concat cs) = Some pos" and "pos + 4 \<le> MAX_HEADER_READ"
    and "headers = take (pos + 4) (concat cs)" and "body = drop (pos + 4) (concat cs)"
    and "parse_content_length headers = int (length body)" and "length body < 2 ^ 31"
  shows "serve_client H cs s = serve_request H headers body s"
proof -
  obtain extra rest where r: "read_http_headers cs = Some (headers, extra, rest)" "extra @ concat rest = body" "pieces_ok rest"
    using read_headers_loop_ok [of cs "[]" pos] assms(1-5) by (auto simp: read_http_headers_def)
  then have "\<exists>rest'. read_body (int (length body)) extra rest = Body body rest'"
    using read_body_exact [OF r(3), of extra] assms(7) by auto
  then show ?thesis using r(1) assms(6) by (auto simp: serve_client_def)
qed

section \<open>Properties\<close>

text \<open>C12: A request with a correct length is read exactly, however the network splits it: the headers are the
  bytes up to the first empty line, the body is all the bytes after it, and the reply depends on these two
  only.\<close>

theorem request_read_exact:
  assumes "pieces_ok cs" and "find_sub (CRLF @ CRLF) (concat cs) = Some pos" and "pos + 4 \<le> MAX_HEADER_READ"
    and "headers = take (pos + 4) (concat cs)" and "body = drop (pos + 4) (concat cs)"
    and "parse_content_length headers = int (length body)" and "length body < 2 ^ 31"
  shows "serve_client H cs s = serve_request H headers body s"
  using assms by (rule client_request_read)

lemma command_handler_ok: "command_handler c = Some h \<Longrightarrow> handler_ok h"
  by (auto simp: command_handler_def intro: handlers_ok split: if_splits)

lemma handler_okD: "handler_ok h \<Longrightarrow> h H params s = Some (Inr r, s') \<Longrightarrow> reply_ok r"
  unfolding handler_ok_def by blast

lemma run_command_ok: "run_command H body s = Some (Inr r, s') \<Longrightarrow> reply_ok r"
  unfolding run_command_def
  by (auto dest: handler_okD [OF command_handler_ok] reply_eq_ok split: sum.splits option.splits prod.splits)

definition ok_is :: "bool \<Rightarrow> json \<Rightarrow> bool" where
  "ok_is b j \<longleftrightarrow> jget j ''ok'' = Inr (JBool b)"

lemma ok_is_error: "k \<noteq> ''ok'' \<Longrightarrow> ok_is False (json_object [(''ok'', JBool False), (k, v)])"
  by (simp add: ok_is_def jget_object_first)

lemma ok_is_norm: "ok_is b j \<Longrightarrow> ok_is b (json_norm j)"
  by (cases j) (auto simp: ok_is_def map_of_map_pair split: option.splits)

lemma reply_exception_cases:
  assumes "reply_exception L e = Reply status t"
  shows "status = 500 \<and> (\<exists>j. jl_dump L j = Inr t \<and> ok_is False j)"
  using assms ok_is_error by (auto simp: reply_exception_def reply_json_def split: sum.splits)

lemma serve_request_reply:
  assumes "serve_request H headers body s = Some (Reply status t, s')"
  shows "\<exists>j. jl_dump (rt_json (he_run H)) j = Inr t \<and> ok_is (status = 200) j \<and> status \<in> {200, 404, 500}"
proof (cases "\<exists>p. request_target headers = (''POST'', p) \<and> (p = ''/rpc'' \<or> p = ''/rpc/'')")
  case False
  then show ?thesis
    using assms ok_is_error by (auto simp: serve_request_def reply_json_def Let_def split: sum.splits prod.splits if_splits)
next
  case True
  then obtain r s1 where run: "run_command H body s = Some (r, s1)"
    using assms by (auto simp: serve_request_def Let_def split: option.splits)
  show ?thesis
  proof (cases r)
    case (Inl e)
    then have "reply_exception (rt_json (he_run H)) e = Reply status t"
      using assms True run by (auto simp: serve_request_def Let_def)
    from reply_exception_cases [OF this] show ?thesis by auto
  next
    case (Inr a)
    then have ok: "reply_ok a" using run_command_ok run by blast
    obtain rc resp where a: "a = (rc, resp)" by fastforce
    have "reply_exception (rt_json (he_run H)) e = Reply status t" if "jl_dump (rt_json (he_run H)) resp = Inl e" for e
      using that assms True run Inr a by (auto simp: serve_request_def Let_def)
    moreover have "t' = t \<and> status = (if rc = 0 then 200 else 500)" if "jl_dump (rt_json (he_run H)) resp = Inr t'" for t'
      using that assms True run Inr a by (auto simp: serve_request_def Let_def)
    ultimately consider e where "reply_exception (rt_json (he_run H)) e = Reply status t"
      | "jl_dump (rt_json (he_run H)) resp = Inr t" "status = (if rc = 0 then 200 else 500)"
      by (cases "jl_dump (rt_json (he_run H)) resp") auto
    then show ?thesis
    proof cases
      case 1
      from reply_exception_cases [OF this] show ?thesis by auto
    next
      case 2
      then have "ok_is (status = 200) resp" using ok a by (simp add: reply_ok_def ok_is_def)
      then show ?thesis using 2 by auto
    qed
  qed
qed

text \<open>C11: Whatever a client sends, a reply is a JSON object with a Boolean \<^verbatim>\<open>ok\<close>, which is true exactly when the
  HTTP status is 200; the other statuses are 404 and 500. This holds for every command, malformed input and every error
  path of the handlers.\<close>

theorem rpc_reply_ok:
  assumes "json_lib_ok (rt_json (he_run H))" and "serve_client H cs s = Some (Reply status body, s')"
  shows "\<exists>j. jl_parse (rt_json (he_run H)) body = Inr j \<and> jget j ''ok'' = Inr (JBool (status = 200)) \<and>
    status \<in> {200, 404, 500}"
proof -
  from assms(2) obtain headers b where "serve_request H headers b s = Some (Reply status body, s')"
    by (auto simp: serve_client_def split: option.splits body_read.splits prod.splits)
  from serve_request_reply [OF this] obtain j where
    "jl_dump (rt_json (he_run H)) j = Inr body" "ok_is (status = 200) j" "status \<in> {200, 404, 500}" by blast
  then show ?thesis using json_lib_okD [OF assms(1)] ok_is_norm by (fastforce simp: ok_is_def)
qed

text \<open>When more bytes arrive together with the headers than their length says, the difference wraps and the server
  writes behind the end of the body.\<close>

theorem long_body_overruns:
  assumes "read_http_headers cs = Some (headers, extra, rest)" and "0 < parse_content_length headers"
    and "parse_content_length headers < int (length extra)" and "length extra < 2 ^ 31"
  shows "serve_client H cs s = Some (Crash ''write behind the end of the body'', s)"
proof -
  define n where "n = nat (parse_content_length headers)"
  define w where "w = (word_of_int (int n) :: u64) - of_nat (length extra)"
  have n: "parse_content_length headers = int n" "0 < n" "n < length extra" using assms(2,3) by (auto simp: n_def)
  have "uint w = (int n - int (length extra)) mod 2 ^ 64"
    using n assms(4) by (simp add: w_def uint_word_ariths(2) unsigned_of_nat take_bit_eq_mod mod_diff_eq)
  also have "\<dots> = int n - int (length extra) + 2 ^ 64"
    using n assms(4) mod_pos_pos_trivial [of "int n - int (length extra) + 2 ^ 64" "2 ^ 64"] by simp
  finally have "n < unat w" using n assms(4) by (simp add: unat_eq_nat_uint)
  then have "w > 0" "\<not> unat w \<le> nat (int n)" by (auto simp: word_less_nat_alt)
  then have "read_body (int n) extra rest = BodyOverrun"
    using n(2) unfolding read_body_def w_def [symmetric] by simp
  then show ?thesis using assms(1) n(1) by (simp add: serve_client_def)
qed

end
