(* ===== verification/Http_Server.thy ===== *)
theory Http_Server
  imports Http_Rpc
begin

text \<open>
  The rest of \<^verbatim>\<open>src/server/HttpRpcServer.cpp\<close>: writing a reply to the socket, and the accept loop of the server thread, which
  serves one client after the other. What \<^verbatim>\<open>send\<close> returns, and what happens at each turn of the loop (an
  \<^verbatim>\<open>accept\<close> that fails, a client, a \<^verbatim>\<open>stop\<close> from another thread), are inputs.
\<close>

section \<open>Writing\<close>

text \<open>What reaches the client when the calls of \<^verbatim>\<open>send\<close> return \<open>ws\<close>; at the end of the list \<^verbatim>\<open>send\<close> fails.\<close>

fun send_loop :: "int list \<Rightarrow> string \<Rightarrow> string" where
  "send_loop [] s = []"
| "send_loop (w # ws) s = (if s = [] \<or> w \<le> 0 then [] else take (nat w) s @ send_loop ws (drop (nat w) s))"

definition send_http_response :: "int list \<Rightarrow> int \<Rightarrow> string \<Rightarrow> string" where
  "send_http_response ws status_code body = send_loop ws (http_response status_code body)"

section \<open>The accept loop\<close>

datatype accept_event =
    Accept_Failed
  | Accepted "string list" "int list"  \<comment> \<open>what arrives from the client, and what \<^verbatim>\<open>send\<close> returns\<close>
  | Stop_Server  \<comment> \<open>another thread calls \<^verbatim>\<open>stop\<close>\<close>

datatype loop_end = Still_Running | Server_Stopped | Server_Crashed string

definition server_running :: "('w, 'o, 'p) sys \<Rightarrow> bool" where
  "server_running s = (case dm_rpc_server (sy_daemon s) of None \<Rightarrow> False | Some hr \<Rightarrow> hr_running hr)"

text \<open>\<^verbatim>\<open>running_\<close> and the listening socket are cleared by \<^verbatim>\<open>stop\<close>, and once more when the loop ends.\<close>

definition clear_running :: "('w, 'o, 'p) sys \<Rightarrow> ('w, 'o, 'p) sys" where
  "clear_running s =
     s\<lparr>sy_daemon := (sy_daemon s)\<lparr>dm_rpc_server :=
       map_option (\<lambda>hr. hr\<lparr>hr_running := False, hr_listening := False\<rparr>) (dm_rpc_server (sy_daemon s))\<rparr>\<rparr>"

text \<open>The bytes each client received, how far the loop came, and the state. \<^const>\<open>None\<close> is a command that does not return.\<close>

fun accept_loop ::
  "('w, 'o, 'p) handler_env \<Rightarrow> accept_event list \<Rightarrow> ('w, 'o, 'p) sys \<Rightarrow> (string list \<times> loop_end \<times> ('w, 'o, 'p) sys) option"
where
  "accept_loop H [] s =
     Some (if server_running s then ([], Still_Running, s) else ([], Server_Stopped, clear_running s))"
| "accept_loop H (e # es) s =
     (if \<not> server_running s then Some ([], Server_Stopped, clear_running s)
      else case e of
          Accept_Failed \<Rightarrow> accept_loop H es s
        | Stop_Server \<Rightarrow> accept_loop H es (clear_running s)
        | Accepted cs ws \<Rightarrow>
            (case serve_client H cs s of
               None \<Rightarrow> None
             | Some (Crash err, s') \<Rightarrow> Some ([], Server_Crashed err, s')
             | Some (Closed, s') \<Rightarrow> map_option (apfst (Cons [])) (accept_loop H es s')
             | Some (Reply status body, s') \<Rightarrow>
                 map_option (apfst (Cons (send_http_response ws status body))) (accept_loop H es s')))"

section \<open>Facts\<close>

text \<open>As long as \<^verbatim>\<open>send\<close> makes progress, everything is sent.\<close>

lemma send_loop_all: "\<forall>w \<in> set ws. 0 < w \<Longrightarrow> int (length s) \<le> sum_list ws \<Longrightarrow> send_loop ws s = s"
proof (induction ws s rule: send_loop.induct)
  case (2 w ws s)
  show ?case
  proof (cases "s = []")
    case False
    have "int (length (drop (nat w) s)) \<le> sum_list ws"
      using 2(2,3) by (cases "nat w \<le> length s") (auto simp: sum_list_nonneg less_imp_le)
    then show ?thesis using 2(1) [of] 2(2) False by simp
  qed simp
qed simp

abbreviation blank_line :: string where "blank_line \<equiv> CRLF @ CRLF"

lemma find_blank_skip: "CHR 0x0D \<notin> set l \<Longrightarrow> find_sub blank_line (l @ t) = map_option (\<lambda>i. length l + i) (find_sub blank_line t)"
  by (cases "find_sub blank_line t"; induction l) (auto simp: CRLF_def)

lemma find_blank_line: "c \<noteq> CHR 0x0D \<Longrightarrow> find_sub blank_line (CRLF @ c # t) = map_option (\<lambda>i. 2 + i) (find_sub blank_line (c # t))"
  by (simp add: CRLF_def option.map_comp comp_def)

text \<open>In a block of header lines the first blank line is the one behind the last header.\<close>

lemma find_blank_headers:
  assumes "ls \<noteq> []" and "\<forall>l \<in> set ls. l \<noteq> [] \<and> CHR 0x0D \<notin> set l"
  shows "find_sub blank_line (concat (map (\<lambda>l. l @ CRLF) ls) @ CRLF @ body) = Some (length (concat (map (\<lambda>l. l @ CRLF) ls)) - 2)"
  using assms
proof (induction ls rule: list_nonempty_induct)
  case (single l)
  have "find_sub blank_line (CRLF @ CRLF @ body) = Some 0" by (simp add: CRLF_def)
  then show ?case using single find_blank_skip [of l "CRLF @ CRLF @ body"] by (simp add: CRLF_def)
next
  case (cons l ls)
  obtain c cs ms where ls: "ls = (c # cs) # ms" "c \<noteq> CHR 0x0D"
    using cons(1,3) by (cases ls; cases "hd ls") auto
  let ?t = "concat (map (\<lambda>l. l @ CRLF) ls) @ CRLF @ body"
  have t: "?t = c # tl ?t" by (simp add: ls(1))
  have "find_sub blank_line ?t = Some (length (concat (map (\<lambda>l. l @ CRLF) ls)) - 2)" using cons by simp
  then have "find_sub blank_line (CRLF @ ?t) = Some (2 + (length (concat (map (\<lambda>l. l @ CRLF) ls)) - 2))"
    using find_blank_line [OF ls(2), of "tl ?t"] unfolding t [symmetric] by simp
  moreover have "2 \<le> length (concat (map (\<lambda>l. l @ CRLF) ls))" using ls(1) by (simp add: CRLF_def)
  ultimately show ?case
    using find_blank_skip [of l "CRLF @ ?t"] cons(3) by (simp add: CRLF_def)
qed

definition reply_lines :: "int \<Rightarrow> nat \<Rightarrow> string list" where
  "reply_lines status n =
     [''HTTP/1.0 '' @ show_int status @ '' '', ''Content-Type: application/json'', ''Content-Length: '' @ show_nat n, ''Connection: close'']"

definition reply_headers :: "int \<Rightarrow> nat \<Rightarrow> string" where
  "reply_headers status n = concat (map (\<lambda>l. l @ CRLF) (reply_lines status n)) @ CRLF"

lemma http_response_split: "http_response status body = reply_headers status (length body) @ body"
  by (simp add: http_response_def reply_headers_def reply_lines_def)

lemma digits_no_control: "CHR 0x0D \<notin> set (show_nat n)" "CHR 0x0A \<notin> set (show_nat n)"
  using show_nat_digits [of n] by (auto simp: is_digit_def)

lemma reply_lines_clean:
  assumes "0 \<le> status" and "l \<in> set (reply_lines status n)"
  shows "l \<noteq> [] \<and> CHR 0x0D \<notin> set l \<and> CHR 0x0A \<notin> set l"
  using assms by (auto simp: reply_lines_def show_int_def digits_no_control)

lemma getlines_line: "CHR 0x0A \<notin> set l \<Longrightarrow> getlines acc (l @ CHR 0x0A # rest) = (acc @ l) # getlines [] rest"
  by (induction l arbitrary: acc) auto

lemma getlines_headers:
  "\<forall>l \<in> set ls. CHR 0x0A \<notin> set l \<Longrightarrow> getlines [] (concat (map (\<lambda>l. l @ CRLF) ls) @ CRLF) = map (\<lambda>l. l @ [CHR 0x0D]) ls @ [[CHR 0x0D]]"
proof (induction ls)
  case Nil
  then show ?case by (simp add: CRLF_def)
next
  case (Cons l ls)
  let ?t = "concat (map (\<lambda>l. l @ CRLF) ls) @ CRLF"
  have "concat (map (\<lambda>l. l @ CRLF) (l # ls)) @ CRLF = (l @ [CHR 0x0D]) @ CHR 0x0A # ?t" by (simp add: CRLF_def)
  also have "getlines [] \<dots> = (l @ [CHR 0x0D]) # getlines [] ?t"
    using Cons(2) getlines_line [of "l @ [CHR 0x0D]" "[]" ?t] by simp
  finally show ?case using Cons by simp
qed

lemma strip_cr_line [simp]: "strip_cr (l @ [CHR 0x0D]) = l"
  by (simp add: strip_cr_def)

lemma reply_content_length:
  assumes "status \<in> {200, 404, 500}" and "n < 2 ^ 31"
  shows "parse_content_length (reply_headers status n) = int n"
proof -
  define l1 where "l1 = ''HTTP/1.0 '' @ show_int status @ '' ''"
  define l2 where "l2 = ''Content-Type: application/json''"
  define l3 where "l3 = ''Content-Length: '' @ show_nat n"
  define l4 where "l4 = ''Connection: close''"
  have ls: "reply_lines status n = [l1, l2, l3, l4]" by (simp add: reply_lines_def l1_def l2_def l3_def l4_def)
  have "0 \<le> status" using assms(1) by auto
  then have lines: "getlines [] (reply_headers status n) = map (\<lambda>l. l @ [CHR 0x0D]) [l1, l2, l3, l4] @ [[CHR 0x0D]]"
    unfolding reply_headers_def ls [symmetric] using reply_lines_clean by (intro getlines_headers) blast
  have "show_nat 200 = ''200''" "show_nat 404 = ''404''" "show_nat 500 = ''500''" by code_simp+
  then have l1: "find_sub ''content-length:'' (map to_lower l1) = None"
    using assms(1) by (auto simp: show_int_def to_lower_def l1_def)
  have l2: "find_sub ''content-length:'' (map to_lower l2) = None" by (simp add: to_lower_def l2_def)
  have "map to_lower ''Content-Length: '' = ''content-length: ''" by code_simp
  then have l3: "find_sub ''content-length:'' (map to_lower l3) = Some 0" by (simp only: l3_def map_append) simp
  obtain c cs where "show_nat n = c # cs" "\<not> is_space c" using show_nat_first by blast
  moreover have "is_space (CHR '' '')" by (simp add: is_space_def)
  ultimately have v: "dropWhile is_space (drop (0 + 15) l3) = show_nat n" by (simp add: l3_def)
  show ?thesis
    unfolding parse_content_length_def lines
    by (simp add: Let_def l1 l2 l3 v [simplified] stoi_show_nat [OF assms(2)])
qed

lemma reply_headers_short:
  assumes "status \<in> {200, 404, 500}" and "n < 2 ^ 31"
  shows "length (reply_headers status n) \<le> MAX_HEADER_READ"
proof -
  have "length (show_nat n) \<le> 10" using show_nat_length [of n 9] assms(2) by simp
  moreover have "length (show_int status) \<le> 10" using show_nat_length [of "nat status" 9] assms(1) by (auto simp: show_int_def)
  ultimately show ?thesis by (simp add: reply_headers_def reply_lines_def CRLF_def MAX_HEADER_READ_def)
qed

text \<open>A reply can be read back.\<close>

lemma reply_read_back:
  assumes "pieces_ok ps" and "concat ps = http_response status t" and "status \<in> {200, 404, 500}" and "length t < 2 ^ 31"
  shows "\<exists>extra rest rest'. read_http_headers ps = Some (reply_headers status (length t), extra, rest) \<and>
    parse_content_length (reply_headers status (length t)) = int (length t) \<and>
    read_body (parse_content_length (reply_headers status (length t))) extra rest = Body t rest'"
proof -
  let ?hs = "reply_headers status (length t)"
  let ?ls = "concat (map (\<lambda>l. l @ CRLF) (reply_lines status (length t)))"
  have st: "0 \<le> status" using assms(3) by auto
  have two: "2 \<le> length ?ls" by (simp add: reply_lines_def CRLF_def)
  have all: "concat ps = ?hs @ t" using assms(2) http_response_split by simp
  have "find_sub blank_line (?ls @ CRLF @ t) = Some (length ?ls - 2)"
    using reply_lines_clean [OF st] by (intro find_blank_headers) (auto simp: reply_lines_def)
  then have pos: "find_sub blank_line ([] @ concat ps) = Some (length ?ls - 2)" "length ?ls - 2 + 4 = length ?hs"
    unfolding all using two by (simp_all add: reply_headers_def CRLF_def)
  have short: "length ?hs \<le> MAX_HEADER_READ" using reply_headers_short [OF assms(3,4)] .
  have "0 < length ?hs" using pos(2) by linarith
  then obtain extra rest where r: "read_http_headers ps = Some (?hs, extra, rest)" "extra @ concat rest = t" "pieces_ok rest"
    using read_headers_loop_ok [OF assms(1) pos(1)] short unfolding pos(2) by (auto simp: read_http_headers_def all)
  obtain rest' where "read_body (int (length t)) extra rest = Body t rest'"
    using read_body_exact [OF r(3), of extra] r(2) assms(4) by auto
  then show ?thesis using r(1) reply_content_length [OF assms(3,4)] by simp
qed

section \<open>Properties\<close>

text \<open>C14: A client and the server understand each other, however the network splits what they send. A well-formed request that is accepted
  gets one reply, after which the loop goes on with the next client in the state that the command left; and a client that
  reads the reply the way the server reads a request finds the length of the body in the headers and
  then exactly the body.\<close>

theorem rpc_exchange:
  assumes "server_running s" and "pieces_ok cs" and "find_sub (CRLF @ CRLF) (concat cs) = Some pos" and "pos + 4 \<le> MAX_HEADER_READ"
    and "headers = take (pos + 4) (concat cs)" and "body = drop (pos + 4) (concat cs)"
    and "parse_content_length headers = int (length body)" and "length body < 2 ^ 31"
    and "serve_request H headers body s = Some (Reply status t, s')" and "length t < 2 ^ 31"
    and "\<forall>w \<in> set ws. 0 < w" and "int (length (http_response status t)) \<le> sum_list ws"
    and "accept_loop H es s' = Some (outs, e, s'')"
  shows "\<exists>bytes. accept_loop H (Accepted cs ws # es) s = Some (bytes # outs, e, s'') \<and>
    (\<forall>ps. pieces_ok ps \<and> concat ps = bytes \<longrightarrow>
      (\<exists>hs extra rest rest'. read_http_headers ps = Some (hs, extra, rest) \<and>
        parse_content_length hs = int (length t) \<and> read_body (parse_content_length hs) extra rest = Body t rest'))"
proof -
  have "serve_client H cs s = Some (Reply status t, s')"
    using assms(9) by (simp add: client_request_read [OF assms(2-8)])
  then have loop: "accept_loop H (Accepted cs ws # es) s = Some (http_response status t # outs, e, s'')"
    using assms(1,13) send_loop_all [OF assms(11,12)] by (simp add: send_http_response_def)
  have st: "status \<in> {200, 404, 500}" using serve_request_reply [OF assms(9)] by blast
  have "\<exists>hs extra rest rest'. read_http_headers ps = Some (hs, extra, rest) \<and>
      parse_content_length hs = int (length t) \<and> read_body (parse_content_length hs) extra rest = Body t rest'"
    if ps: "pieces_ok ps" "concat ps = http_response status t" for ps
    using reply_read_back [OF ps st assms(10)] by blast
  then show ?thesis using loop by blast
qed

end
