(* ===== verification/Rpc_Commands.thy ===== *)
theory Rpc_Commands
  imports Http_Server
begin

text \<open>
  What the commands do through the RPC interface: the life of a job as a client sees it, and the
  commands on instruments and the daemon whose effect differs from what their reply says.
\<close>

section \<open>Jobs\<close>

abbreviation job_request :: "string \<Rightarrow> json" where
  "job_request jid \<equiv> JObj [(''job_id'', JStr jid)]"

lemma submitted:
  assumes "job_inv n (sy_jobs s)" and "handle_submit_job H params s = Some (Inr (0, out), s1)"
  shows "\<exists>jid info. jget out ''job_id'' = Inr (JStr jid) \<and> jid \<noteq> [] \<and> map_of (jm_jobs (sy_jobs s)) jid = None \<and>
    jid \<notin> set (jm_queue (sy_jobs s)) \<and>
    jm_queue (sy_jobs s1) = jm_queue (sy_jobs s) @ [jid] \<and>
    jm_jobs (sy_jobs s1) = umap_put jid info (jm_jobs (sy_jobs s)) \<and> ji_status info = ''queued'' \<and> ji_id info = jid"
proof -
  let ?j = "sy_jobs s"
  have ids: "ids_inv n ?j" and q: "queue_inv ?j" using assms(1) by (simp_all add: job_inv_def)
  let ?jid = "job_id_string (he_ms H) (jm_next_id ?j)"
  note sub = submit_job_alt [OF ids, of "he_ms H"]
  obtain ty ps where a: "out = json_object [(''ok'', JBool True), (''job_id'', JStr ?jid)]"
      "s1 = s\<lparr>sy_jobs := snd (submit_job (he_ms H) (he_now H) ty ps ?j)\<rparr>"
    using assms(2) unfolding handle_submit_job_def sub(1)
    by (auto simp: reply_error_def Let_def split: sum.splits prod.splits if_splits)
  have "?jid \<notin> set (jm_queue ?j)" using q sub(2) by (auto simp: queue_inv_def)
  moreover have "?jid \<noteq> []" by (simp add: job_id_string_def)
  moreover have "map_of (jm_jobs ?j) ?jid = None" using sub(2) by (simp add: job_status_None)
  ultimately show ?thesis
    using a by (intro exI [of _ ?jid]) (auto simp: sub(1) Let_def put_job_def json_object_def)
qed

text \<open>C13: A job submitted over RPC gets an identifier no job had before and is at the end of the queue. Asked for at
  once, it is reported as queued; when it is cancelled then, the client is told so, the job leaves the queue, and
  asking for its result gives an error that names the status canceled.\<close>

theorem submitted_job_visible:
  assumes "job_reachable L n (sy_jobs s)" and "n < 2 ^ 64 - 1"
    and "handle_submit_job H params s = Some (Inr (0, out), s1)"
  shows "\<exists>jid. jget out ''job_id'' = Inr (JStr jid) \<and> get_job_info jid (sy_jobs s) = None \<and>
    jm_queue (sy_jobs s1) = jm_queue (sy_jobs s) @ [jid] \<and>
    (\<exists>reply. handle_job_status H (job_request jid) s1 = Some (Inr (0, reply), s1) \<and>
       jget reply ''status'' = Inr (JStr ''queued'')) \<and>
    (\<exists>reply s2 reply2. handle_job_cancel H (job_request jid) s1 = Some (Inr (0, reply), s2) \<and>
       jm_queue (sy_jobs s2) = jm_queue (sy_jobs s) \<and>
       handle_job_result H (job_request jid) s2 = Some (Inr (1, reply2), s2) \<and>
       jget reply2 ''status'' = Inr (JStr ''canceled''))"
proof -
  obtain jid info where j: "jget out ''job_id'' = Inr (JStr jid)" "jid \<noteq> []" "map_of (jm_jobs (sy_jobs s)) jid = None"
      "jid \<notin> set (jm_queue (sy_jobs s))" "jm_queue (sy_jobs s1) = jm_queue (sy_jobs s) @ [jid]"
      "jm_jobs (sy_jobs s1) = umap_put jid info (jm_jobs (sy_jobs s))" "ji_status info = ''queued''" "ji_id info = jid"
    using submitted [OF job_reachable_inv [OF assms(1,2)] assms(3)] by blast
  have st: "handle_job_status H (job_request jid) s1 = Some (Inr (0, json_object [(''ok'', JBool True), (''job_id'', JStr jid),
      (''status'', JStr ''queued''), (''created_at'', ms_json (ji_created_at info))]), s1)"
    using j by (simp add: handle_job_status_def get_job_info_def)
  define info2 where "info2 = info\<lparr>ji_status := ''canceled'', ji_finished_at := he_now H, ji_error := ''canceled''\<rparr>"
  define s2 where "s2 = s1\<lparr>sy_jobs := put_job jid info2 ((sy_jobs s1)\<lparr>jm_queue := remove1 jid (jm_queue (sy_jobs s1))\<rparr>)\<rparr>"
  have ca: "handle_job_cancel H (job_request jid) s1 = Some (Inr (0, json_object [(''ok'', JBool True)]), s2)"
    using j by (simp add: handle_job_cancel_def cancel_job_def s2_def info2_def)
  have q: "jm_queue (sy_jobs s2) = jm_queue (sy_jobs s)"
    using j by (simp add: s2_def put_job_def remove1_append)
  have re: "handle_job_result H (job_request jid) s2 = Some (Inr (1, json_object [(''ok'', JBool False),
      (''error'', JStr ''job not completed''), (''status'', JStr ''canceled''), (''error_detail'', JStr ''canceled'')]), s2)"
    using j by (simp add: handle_job_result_def get_job_result_def get_job_info_def s2_def put_job_def info2_def)
  show ?thesis
    using j(1,3,5) st ca q re by (auto simp: get_job_info_def json_object_def intro!: exI [of _ jid])
qed

section \<open>The daemon\<close>

text \<open>The command \<^verbatim>\<open>daemon stop\<close> in a process that is not the daemon itself, such as the command line tool, answers
  that all is well and changes nothing: the daemon goes on running.\<close>

theorem stop_elsewhere_has_no_effect:
  assumes "\<not> dm_running (sy_daemon s)" and "is_already_running (he_daemon H) (sy_files s)"
  shows "\<exists>out. handle_daemon H (JObj [(''action'', JStr ''stop'')]) s = Some (Inr (0, out), s) \<and>
    jget out ''ok'' = Inr (JBool True)"
  using assms by (simp add: handle_daemon_def sys_daemon_stop_def daemon_stop_def json_object_def)

text \<open>The command \<^verbatim>\<open>daemon start\<close> sent over RPC to the running daemon does not return before somebody stops the daemon; the
  server has one thread for all requests.\<close>

theorem start_over_rpc_blocks:
  assumes "dm_running (sy_daemon s)" and "he_until_stopped H = (\<lambda>_. None)"
  shows "handle_daemon H (JObj [(''action'', JStr ''start'')]) s = None"
proof -
  have "dm_running (configure_rpc_port (he_rpc_port_env H) (sy_daemon s))"
    using assms(1) by (simp add: configure_rpc_port_def split: option.split sum.split)
  then show ?thesis
    using assms(2) by (simp add: handle_daemon_def sys_daemon_start_def daemon_start_def Let_def)
qed

section \<open>Instruments\<close>

text \<open>\<^verbatim>\<open>test\<close> talks to, and then removes, the instrument whose name is last in the registry, which need not be the
  one it has just created.\<close>

theorem test_removes_last_instrument:
  assumes "load_custom_plugin H [] (sy_plugins s) = Inr (Inr plugins)" and "config \<noteq> []" and "verb \<noteq> []"
    and "sys_create_instrument H config (s\<lparr>sy_plugins := plugins\<rparr>) = (True, s1)"
    and "sys_instruments s1 \<noteq> []"
    and "worker_execute_sync (he_run H) (last (sys_instruments s1))
      (default_command\<lparr>sc_id := ''rpc-test-cmd'', sc_instrument_name := last (sys_instruments s1),
        sc_verb := verb, sc_expects_response := True, sc_params := []\<rparr>) (sy_server s1) = (Some (Inr resp), sv)"
  shows "handle_test H (JObj [(''config_path'', JStr config), (''verb'', JStr verb)]) s =
    Some (Inr (test_reply resp), sys_remove_instrument H (last (sys_instruments s1)) (s1\<lparr>sy_server := sv\<rparr>))"
proof -
  have "get_instrument (last (sys_instruments s1)) (sv_registry (sy_server s1)) \<noteq> None"
    using last_in_set [OF assms(5)] by (simp add: list_instruments_def get_instrument_def om.set_keys domIff del: set_map)
  then show ?thesis using assms by (auto simp: handle_test_def Let_def)
qed

section \<open>Witnesses\<close>

definition demo_http_env :: "(queues, process_table, unit) handler_env" where
  "demo_http_env = \<lparr>he_reg = demo_env,
     he_run = \<lparr>rt_json = docs_lib [json_object [(''ok'', JBool False), (''error'', JStr ''Only POST /rpc is supported'')]],
       rt_mq = list_mq, rt_block_failure = Throws, rt_moved_id = [], rt_get = (\<lambda>f sv. None), rt_wait_for = (\<lambda>f sv. (None, sv))\<rparr>,
     he_yaml = \<lparr>yl_load_file = (\<lambda>_. Inl ''bad file''), yl_as_int = (\<lambda>_. None), yl_as_int32 = (\<lambda>_. None), yl_as_double = (\<lambda>_. None), yl_as_bool = (\<lambda>_. None)\<rparr>,
     he_path = \<lparr>pe_exists = (\<lambda>_. False), pe_canonical = Inr, pe_current_path = ''/''\<rparr>,
     he_fs = demo_fs, he_dlopen = demo_dlopen, he_daemon = demo_daemon_env, he_rpc_port_env = None, he_on_rpc_thread = True,
     he_until_stopped = (\<lambda>_. None), he_script = (\<lambda>_. Inr []), he_ms = 5, he_now = 7\<rparr>"

definition demo_sys :: "(queues, process_table, unit) sys" where
  "demo_sys = \<lparr>sy_server = \<lparr>sv_registry = demo_registry, sv_shared = demo_shared\<rparr>, sy_plugins = demo_plugins,
     sy_jobs = new_job_manager, sy_daemon = new_daemon, sy_files = [], sy_discover_once = False, sy_plugins_once = False\<rparr>"

theorem submitted_job_visible_witness:
  "\<exists>out s1. handle_submit_job demo_http_env (JObj [(''job_type'', JStr ''sleep'')]) demo_sys = Some (Inr (0, out), s1) \<and>
     (\<exists>jid. jget out ''job_id'' = Inr (JStr jid) \<and> jm_queue (sy_jobs s1) = [jid])"
proof -
  obtain out s1 where h: "handle_submit_job demo_http_env (JObj [(''job_type'', JStr ''sleep'')]) demo_sys = Some (Inr (0, out), s1)"
    by (cases "submit_job (he_ms demo_http_env) (he_now demo_http_env) ''sleep'' (JObj []) (sy_jobs demo_sys)")
      (simp add: handle_submit_job_def)
  have r: "job_reachable (docs_lib []) 0 (sy_jobs demo_sys)" using job_reachable.start by (simp add: demo_sys_def)
  have e: "jm_queue (sy_jobs demo_sys) = []" by (simp add: demo_sys_def new_job_manager_def)
  from submitted_job_visible [OF r _ h] h e show ?thesis by auto
qed

definition demo_post :: "string list" where
  "demo_post = [''POST /rpc HTTP/1.0'' @ CRLF @ ''Content-Len'', ''gth: 2'' @ CRLF @ CRLF @ ''{'', ''}'']"

theorem request_read_exact_witness:
  "\<exists>headers. \<forall>H s. serve_client H demo_post s = serve_request H headers ''{}'' s"
proof -
  have f: "find_sub (CRLF @ CRLF) (concat demo_post) = Some 37" by code_simp
  have c: "parse_content_length (take (37 + 4) (concat demo_post)) = int (length ''{}'')" by code_simp
  have d: "''{}'' = drop (37 + 4) (concat demo_post)" by code_simp
  have p: "pieces_ok demo_post" by code_simp
  have m: "37 + 4 \<le> MAX_HEADER_READ" by (simp add: MAX_HEADER_READ_def)
  have "serve_client H demo_post s = serve_request H (take (37 + 4) (concat demo_post)) ''{}'' s"
    for H :: "('w, 'o, 'p) handler_env" and s
    by (rule request_read_exact [OF p f m refl d c]) simp
  then show ?thesis by blast
qed

theorem rpc_reply_ok_witness:
  "\<exists>body j. serve_client demo_http_env [''GET / HTTP/1.0'' @ CRLF @ CRLF] demo_sys = Some (Reply 404 body, demo_sys) \<and>
     jl_parse (rt_json (he_run demo_http_env)) body = Inr j \<and> jget j ''ok'' = Inr (JBool False)"
proof -
  let ?h = "''GET / HTTP/1.0'' @ CRLF @ CRLF"
  have f: "find_sub (CRLF @ CRLF) ?h = Some 14" by code_simp
  have "read_http_headers [?h] = Some (?h, [], [])"
    using f by (simp add: read_http_headers_def read_headers_loop.simps [of "[]"] MAX_HEADER_READ_def CRLF_def)
  moreover have "read_body (parse_content_length ?h) [] [] = Body [] []" by code_simp
  moreover have "request_target ?h = (''GET'', ''/'')" by code_simp
  ultimately have s: "serve_client demo_http_env [?h] demo_sys = Some (Reply 404 (show_nat 0), demo_sys)"
    by (simp add: serve_client_def serve_request_def reply_json_def demo_http_env_def Let_def)
  have "json_lib_ok (rt_json (he_run demo_http_env))" by (simp add: demo_http_env_def)
  from rpc_reply_ok [OF this s] s show ?thesis by auto
qed

definition demo_serving :: "(queues, process_table, unit) sys" where
  "demo_serving = demo_sys\<lparr>sy_daemon := new_daemon\<lparr>dm_rpc_server := Some (new_rpc_server\<lparr>hr_running := True, hr_listening := True\<rparr>)\<rparr>\<rparr>"

definition demo_get :: "string list" where
  "demo_get = [''GET / HTTP/1.0'' @ CRLF @ ''Content-'', ''Length: 0'' @ CRLF, CRLF]"

theorem rpc_exchange_witness:
  "\<exists>bytes s''. accept_loop demo_http_env [Accepted demo_get [70, 700], Stop_Server] demo_serving = Some ([bytes], Server_Stopped, s'') \<and>
     (\<exists>hs extra rest rest'. read_http_headers [bytes] = Some (hs, extra, rest) \<and> read_body (parse_content_length hs) extra rest = Body ''0'' rest')"
proof -
  have run: "server_running demo_serving" by (simp add: server_running_def demo_serving_def)
  have p: "pieces_ok demo_get" by code_simp
  have f: "find_sub (CRLF @ CRLF) (concat demo_get) = Some 33" by code_simp
  have m: "33 + 4 \<le> MAX_HEADER_READ" by (simp add: MAX_HEADER_READ_def)
  have b: "[] = drop (33 + 4) (concat demo_get)" by code_simp
  have c: "parse_content_length (take (33 + 4) (concat demo_get)) = int (length ([] :: string))" by code_simp
  have "request_target (take (33 + 4) (concat demo_get)) = (''GET'', ''/'')" by code_simp
  moreover have "show_nat 0 = ''0''" by code_simp
  ultimately have r: "serve_request demo_http_env (take (33 + 4) (concat demo_get)) [] demo_serving = Some (Reply 404 ''0'', demo_serving)"
    by (simp add: serve_request_def reply_json_def demo_http_env_def Let_def)
  have w: "\<forall>w \<in> set [70, 700 :: int]. 0 < w" "int (length (http_response 404 ''0'')) \<le> sum_list [70, 700]" by code_simp+
  have l: "accept_loop demo_http_env [Stop_Server] demo_serving = Some ([], Server_Stopped, clear_running (clear_running demo_serving))"
    by (simp add: server_running_def demo_serving_def clear_running_def)
  obtain bytes where bytes: "accept_loop demo_http_env [Accepted demo_get [70, 700], Stop_Server] demo_serving =
      Some ([bytes], Server_Stopped, clear_running (clear_running demo_serving))"
    and read: "\<forall>ps. pieces_ok ps \<and> concat ps = bytes \<longrightarrow> (\<exists>hs extra rest rest'. read_http_headers ps = Some (hs, extra, rest) \<and>
        parse_content_length hs = int (length ''0'') \<and> read_body (parse_content_length hs) extra rest = Body ''0'' rest')"
    using rpc_exchange [OF run p f m refl b c _ r _ w l] by auto
  have "read_http_headers [] = None" by (simp add: read_http_headers_def read_headers_loop.simps [of "[]"])
  then have "bytes \<noteq> []" using read [rule_format, of "[]"] by (auto simp: pieces_ok_def)
  then show ?thesis using bytes read [rule_format, of "[bytes]"] by (auto simp: pieces_ok_def)
qed

end
