(* ===== verification/Cli.thy ===== *)
theory Cli
  imports Rpc_Commands
begin

text \<open>
  \<^verbatim>\<open>src/server/instrument_server_main.cpp\<close>: the command line tool. It turns its arguments into the parameters of a
  command handler, runs the handler in its own process and prints what the handler answered. The
  arguments are the list \<^verbatim>\<open>argv[1]\<close>, \<^verbatim>\<open>argv[2]\<close>, ...; \<^verbatim>\<open>std::stod\<close> is an argument of the model. The usage texts on
  the standard error stream are left out of the printed lines.
\<close>

datatype out_line = Stdout string | Stderr string

type_synonym ('w, 'o, 'p) cli = "((int \<times> out_line list) result \<times> ('w, 'o, 'p) sys) option"

section \<open>Options\<close>

fun daemon_options :: "string list \<Rightarrow> (string, json) omap \<Rightarrow> (string, json) omap" where
  "daemon_options (arg # v # args) m =
     (if arg = ''--log-level'' then daemon_options args (omap_put ''log_level'' (JStr v) m) else daemon_options (v # args) m)"
| "daemon_options _ m = m"

fun start_options :: "string list \<Rightarrow> (string, json) omap \<Rightarrow> (string, json) omap" where
  "start_options (arg # v # args) m =
     (if arg = ''--plugin'' then start_options args (omap_put ''plugin'' (JStr v) m)
      else if arg = ''--log-level'' then start_options args (omap_put ''log_level'' (JStr v) m)
      else start_options (v # args) m)"
| "start_options _ m = m"

fun measure_options :: "string list \<Rightarrow> (string, json) omap \<Rightarrow> (string, json) omap" where
  "measure_options [] m = m"
| "measure_options (arg # args) m =
     (case (arg = ''--log-level'', args) of
        (True, v # args') \<Rightarrow> measure_options args' (omap_put ''log_level'' (JStr v) m)
      | _ \<Rightarrow> measure_options args (if arg = ''--json'' then omap_put ''json'' (JBool True) m else m))"

text \<open>The value of \<^verbatim>\<open>key=value\<close>: a number if it starts like one, else a Boolean or the text.\<close>

definition test_value :: "(string \<Rightarrow> double result) \<Rightarrow> string \<Rightarrow> json" where
  "test_value stod val =
     (case (if CHR ''.'' \<in> set val then bind_result (stod val) (\<lambda>d. Inr (JFloat d))
            else bind_result (stoll val) (\<lambda>i. Inr (JInt i))) of
        Inr j \<Rightarrow> j
      | Inl e \<Rightarrow> if val = ''true'' \<or> val = ''false'' then JBool (val = ''true'') else JStr val)"

text \<open>The options of \<^verbatim>\<open>test\<close>; the parameters are collected in the member \<^verbatim>\<open>params\<close>, which the first of them creates.\<close>

fun test_options ::
  "(string \<Rightarrow> double result) \<Rightarrow> string list \<Rightarrow> (string, json) omap \<Rightarrow> (string, json) omap \<Rightarrow> (string, json) omap \<times> (string, json) omap"
where
  "test_options stod [] m ps = (m, ps)"
| "test_options stod (arg # args) m ps =
     (case args of
        v # args' \<Rightarrow>
          if arg = ''--plugin'' then test_options stod args' (omap_put ''plugin'' (JStr v) m) ps
          else if arg = ''--log-level'' then test_options stod args' (omap_put ''log_level'' (JStr v) m) ps
          else test_options stod args m
            (case split_at_char (CHR ''='') arg of None \<Rightarrow> ps | Some (key, val) \<Rightarrow> omap_put key (test_value stod val) ps)
      | [] \<Rightarrow> test_options stod args m
            (case split_at_char (CHR ''='') arg of None \<Rightarrow> ps | Some (key, val) \<Rightarrow> omap_put key (test_value stod val) ps))"

definition test_request :: "(string \<Rightarrow> double result) \<Rightarrow> string \<Rightarrow> string \<Rightarrow> string list \<Rightarrow> json" where
  "test_request stod config verb args =
     (case test_options stod args (omap_put ''verb'' (JStr verb) [(''config_path'', JStr config)]) [] of
        (m, ps) \<Rightarrow> JObj (if ps = [] then m else omap_put ''params'' (JObj ps) m))"

section \<open>Printing\<close>

text \<open>A handler's answer, printed by a function of the reply that may throw.\<close>

definition answer ::
  "((int \<times> json) result \<times> ('w, 'o, 'p) sys) option \<Rightarrow> (int \<Rightarrow> json \<Rightarrow> (int \<times> out_line list) result) \<Rightarrow> ('w, 'o, 'p) cli"
where
  "answer r pr = map_option (\<lambda>(x, s). (bind_result x (\<lambda>(rc, out). if out = JNull then Inr (rc, []) else pr rc out), s)) r"

definition print_member :: "json \<Rightarrow> string \<Rightarrow> (string \<Rightarrow> out_line) \<Rightarrow> out_line list result" where
  "print_member out k line =
     (if json_contains out k then bind_result (bind_result (jget out k) get_string) (\<lambda>t. Inr [line t]) else Inr [])"

definition print_daemon :: "int \<Rightarrow> json \<Rightarrow> (int \<times> out_line list) result" where
  "print_daemon rc out =
     bind_result (if json_contains out ''error'' then print_member out ''error'' Stderr else print_member out ''message'' Stdout)
       (\<lambda>ls. Inr (rc, ls))"

definition print_start :: "int \<Rightarrow> json \<Rightarrow> (int \<times> out_line list) result" where
  "print_start rc out =
     bind_result (print_member out ''error'' Stderr) (\<lambda>ls.
     bind_result (print_member out ''instrument'' (\<lambda>t. Stdout (''Started instrument: '' @ t))) (\<lambda>ls'. Inr (rc, ls @ ls')))"

definition print_stop :: "string \<Rightarrow> int \<Rightarrow> json \<Rightarrow> (int \<times> out_line list) result" where
  "print_stop name rc out =
     bind_result (if json_contains out ''error'' then print_member out ''error'' Stderr else Inr [Stdout (''Stopped instrument: '' @ name)])
       (\<lambda>ls. Inr (rc, ls))"

definition print_status :: "json_lib \<Rightarrow> int \<Rightarrow> json \<Rightarrow> (int \<times> out_line list) result" where
  "print_status L rc out =
     (if json_contains out ''error'' then bind_result (print_member out ''error'' Stderr) (\<lambda>ls. Inr (rc, ls))
      else
        bind_result (value_string out ''name'' []) (\<lambda>name.
        bind_result (value_bool out ''alive'' False) (\<lambda>alive.
        bind_result (if json_contains out ''stats''
          then bind_result (jget out ''stats'') (\<lambda>st. bind_result (value_int L st ''commands_sent'' 0) (\<lambda>n.
            Inr [Stdout (''  Commands sent: '' @ show_int (int32_of n))]))
          else Inr []) (\<lambda>ls.
          Inr (rc, [Stdout (''Instrument: '' @ name), Stdout (''  Status: '' @ (if alive then ''RUNNING'' else ''STOPPED''))] @ ls)))))"

fun print_names :: "json list \<Rightarrow> out_line list result" where
  "print_names [] = Inr []"
| "print_names (j # js) = bind_result (get_string j) (\<lambda>t. bind_result (print_names js) (\<lambda>ls. Inr (Stdout (''  '' @ t) # ls)))"

fun json_elems :: "json \<Rightarrow> json list" where
  "json_elems (JArr js) = js"
| "json_elems (JObj m) = map snd m"
| "json_elems JNull = []"
| "json_elems j = [j]"

definition print_list :: "int \<Rightarrow> json \<Rightarrow> (int \<times> out_line list) result" where
  "print_list rc out =
     (if json_contains out ''instruments''
      then bind_result (jget out ''instruments'') (\<lambda>arr.
        if json_elems arr = [] then Inr (1, [Stdout ''No instruments running''])
        else bind_result (print_names (json_elems arr)) (\<lambda>ls. Inr (0, Stdout ''Running instruments:'' # ls)))
      else Inr (rc, []))"

text \<open>\<^verbatim>\<open>--json\<close> prints the reply with an indentation of two, which is another text of the same document.\<close>

definition print_measure :: "(json \<Rightarrow> string result) \<Rightarrow> json \<Rightarrow> int \<Rightarrow> json \<Rightarrow> (int \<times> out_line list) result" where
  "print_measure dump2 params rc out =
     bind_result (value_bool out ''ok'' False) (\<lambda>ok.
       if \<not> ok then bind_result (value_string out ''error'' ''measure failed'') (\<lambda>e. Inr (rc, [Stderr e]))
       else bind_result (value_bool params ''json'' False) (\<lambda>as_json.
         if as_json then bind_result (dump2 out) (\<lambda>t. Inr (rc, [Stdout t])) else Inr (rc, [Stdout ''Measurement complete''])))"

definition print_test :: "int \<Rightarrow> json \<Rightarrow> (int \<times> out_line list) result" where
  "print_test rc out =
     bind_result (value_bool out ''ok'' False) (\<lambda>ok.
       if \<not> ok then bind_result (value_string out ''error'' ''test failed'') (\<lambda>e. Inr (rc, [Stderr e]))
       else bind_result (print_member out ''text_response'' Stdout) (\<lambda>ls. Inr (rc, ls)))"

definition print_discover :: "int \<Rightarrow> json \<Rightarrow> (int \<times> out_line list) result" where
  "print_discover rc out =
     (if json_contains out ''protocols''
      then bind_result (jget out ''protocols'') (\<lambda>p. bind_result (print_names (json_elems p)) (\<lambda>ls.
        Inr (rc, Stdout (''Found '' @ show_nat (length (json_elems p)) @ '' plugin(s):'') # ls)))
      else Inr (rc, []))"

fun print_plugin_lines :: "json list \<Rightarrow> out_line list result" where
  "print_plugin_lines [] = Inr []"
| "print_plugin_lines (p # ps) =
     bind_result (bind_result (jget p ''protocol'') get_string) (\<lambda>a.
     bind_result (bind_result (jget p ''path'') get_string) (\<lambda>b.
     bind_result (print_plugin_lines ps) (\<lambda>ls. Inr (Stdout (''  '' @ a @ '' -> '' @ b) # ls))))"

definition print_plugins :: "int \<Rightarrow> json \<Rightarrow> (int \<times> out_line list) result" where
  "print_plugins rc out =
     (if json_contains out ''plugins''
      then bind_result (jget out ''plugins'') (\<lambda>arr.
        if json_elems arr = [] then Inr (rc, [Stdout ''No plugins found''])
        else bind_result (print_plugin_lines (json_elems arr)) (\<lambda>ls. Inr (rc, [Stdout ''Available plugins:'', Stdout []] @ ls)))
      else Inr (rc, []))"

section \<open>The tool\<close>

text \<open>The null pointer after the last argument is read when \<^verbatim>\<open>start\<close> has no configuration and when \<^verbatim>\<open>test\<close> has no verb.\<close>

definition null_argument :: "('w, 'o, 'p) sys \<Rightarrow> ('w, 'o, 'p) cli" where
  "null_argument s = Some (Inl ''basic_string: construction from null is not valid'', s)"

definition cli_daemon :: "('w, 'o, 'p) handler_env \<Rightarrow> string list \<Rightarrow> ('w, 'o, 'p) sys \<Rightarrow> ('w, 'o, 'p) cli" where
  "cli_daemon H args s =
     (case args of
        [] \<Rightarrow> Some (Inr (1, []), s)
      | action # opts \<Rightarrow>
          answer (handle_daemon H (JObj (daemon_options opts [(''action'', JStr action)])) s) print_daemon)"

definition cli_start :: "('w, 'o, 'p) handler_env \<Rightarrow> string list \<Rightarrow> ('w, 'o, 'p) sys \<Rightarrow> ('w, 'o, 'p) cli" where
  "cli_start H args s =
     (case args of
        [] \<Rightarrow> null_argument s
      | config # opts \<Rightarrow>
          answer (handle_start H (JObj (start_options opts [(''config_path'', JStr config)])) s) print_start)"

definition cli_stop :: "('w, 'o, 'p) handler_env \<Rightarrow> string list \<Rightarrow> ('w, 'o, 'p) sys \<Rightarrow> ('w, 'o, 'p) cli" where
  "cli_stop H args s =
     (case args of
        [] \<Rightarrow> Some (Inr (1, []), s)
      | name # _ \<Rightarrow> answer (handle_stop H (JObj [(''name'', JStr name)]) s) (print_stop name))"

definition cli_status :: "('w, 'o, 'p) handler_env \<Rightarrow> string list \<Rightarrow> ('w, 'o, 'p) sys \<Rightarrow> ('w, 'o, 'p) cli" where
  "cli_status H args s =
     (case args of
        [] \<Rightarrow> Some (Inr (1, []), s)
      | name # _ \<Rightarrow> answer (handle_status H (JObj [(''name'', JStr name)]) s) (print_status (rt_json (he_run H))))"

definition cli_measure ::
  "(json \<Rightarrow> string result) \<Rightarrow> ('w, 'o, 'p) handler_env \<Rightarrow> string list \<Rightarrow> ('w, 'o, 'p) sys \<Rightarrow> ('w, 'o, 'p) cli"
where
  "cli_measure dump2 H args s =
     (case args of
        [] \<Rightarrow> Some (Inr (1, []), s)
      | script # opts \<Rightarrow>
          let params = JObj (measure_options opts [(''script_path'', JStr script)]) in
          answer (handle_measure H params s) (print_measure dump2 params))"

definition cli_test ::
  "(string \<Rightarrow> double result) \<Rightarrow> ('w, 'o, 'p) handler_env \<Rightarrow> string list \<Rightarrow> ('w, 'o, 'p) sys \<Rightarrow> ('w, 'o, 'p) cli"
where
  "cli_test stod H args s =
     (case args of
        [] \<Rightarrow> Some (Inr (1, []), s)
      | [config] \<Rightarrow> null_argument s
      | config # verb # opts \<Rightarrow> answer (handle_test H (test_request stod config verb opts) s) print_test)"

definition cli_discover :: "('w, 'o, 'p) handler_env \<Rightarrow> string list \<Rightarrow> ('w, 'o, 'p) sys \<Rightarrow> ('w, 'o, 'p) cli" where
  "cli_discover H args s =
     answer (handle_discover H (if args = [] then JNull else JObj [(''paths'', JArr (map JStr args))]) s) print_discover"

definition cli_plugins :: "('w, 'o, 'p) handler_env \<Rightarrow> string list \<Rightarrow> ('w, 'o, 'p) sys \<Rightarrow> ('w, 'o, 'p) cli" where
  "cli_plugins H args s = answer (handle_plugins H JNull s) print_plugins"

definition cli_list :: "('w, 'o, 'p) handler_env \<Rightarrow> string list \<Rightarrow> ('w, 'o, 'p) sys \<Rightarrow> ('w, 'o, 'p) cli" where
  "cli_list H args s = answer (handle_list H JNull s) print_list"

lemmas cli_commands = cli_daemon_def cli_start_def cli_stop_def cli_status_def cli_list_def cli_measure_def cli_test_def
  cli_discover_def cli_plugins_def

definition cli_main ::
  "(string \<Rightarrow> double result) \<Rightarrow> (json \<Rightarrow> string result) \<Rightarrow> ('w, 'o, 'p) handler_env \<Rightarrow> string list \<Rightarrow> ('w, 'o, 'p) sys \<Rightarrow> ('w, 'o, 'p) cli"
where
  "cli_main stod dump2 H argv s =
     (case argv of
        [] \<Rightarrow> Some (Inr (1, []), s)
      | command # args \<Rightarrow>
          if command = ''daemon'' then cli_daemon H args s
          else if command = ''start'' then cli_start H args s
          else if command = ''stop'' then cli_stop H args s
          else if command = ''status'' then cli_status H args s
          else if command = ''list'' then cli_list H args s
          else if command = ''measure'' then cli_measure dump2 H args s
          else if command = ''test'' then cli_test stod H args s
          else if command = ''discover'' then cli_discover H args s
          else if command = ''plugins'' then cli_plugins H args s
          else if command = ''--help'' \<or> command = ''-h'' then Some (Inr (0, []), s)
          else Some (Inr (1, []), s))"

section \<open>Parameters on the command line\<close>

text \<open>How a value is written after the equals sign, and which values can be written: 64-bit integers, Booleans and
  texts that do not look like a number or a Boolean.\<close>

fun arg_text :: "json \<Rightarrow> string" where
  "arg_text (JInt i) = show_int i"
| "arg_text (JBool b) = (if b then ''true'' else ''false'')"
| "arg_text (JStr t) = t"
| "arg_text _ = []"

fun arg_value :: "json \<Rightarrow> bool" where
  "arg_value (JInt i) \<longleftrightarrow> - (2 ^ 63) \<le> i \<and> i < 2 ^ 63"
| "arg_value (JBool b) \<longleftrightarrow> True"
| "arg_value (JStr t) \<longleftrightarrow> CHR ''.'' \<notin> set t \<and> (\<forall>i. stoll t \<noteq> Inr i) \<and> t \<notin> {''true'', ''false''}"
| "arg_value _ \<longleftrightarrow> False"

lemma show_int_no_dot: "CHR ''.'' \<notin> set (show_int i)"
  using show_nat_digits [of "nat i"] show_nat_digits [of "nat (- i)"] by (auto simp: show_int_def is_digit_def)

lemma stoll_letters: "stoll ''true'' = Inl ''stoll''" "stoll ''false'' = Inl ''stoll''"
  by code_simp+

lemma test_value_arg: "arg_value j \<Longrightarrow> test_value stod (arg_text j) = j"
  by (cases j) (auto simp: test_value_def show_int_no_dot stoll_show_int stoll_letters bind_result_Inr_iff split: sum.split)

lemma test_options_params:
  assumes "\<forall>(k, j) \<in> set kvs. CHR ''='' \<notin> set k \<and> arg_value j"
  shows "test_options stod (map (\<lambda>(k, j). k @ ''='' @ arg_text j) kvs) m ps = (m, fold (\<lambda>(k, j). omap_put k j) kvs ps)"
  using assms
proof (induction kvs arbitrary: ps)
  case (Cons kj kvs)
  obtain k j where kj: "kj = (k, j)" by fastforce
  have split: "split_at_char (CHR ''='') (k @ ''='' @ arg_text j) = Some (k, arg_text j)"
    using Cons.prems kj by (simp add: split_at_char_Some)
  have "CHR ''='' \<in> set (k @ ''='' @ arg_text j)" by simp
  moreover have "CHR ''='' \<notin> set ''--plugin''" "CHR ''='' \<notin> set ''--log-level''" by simp_all
  ultimately have "k @ ''='' @ arg_text j \<noteq> ''--plugin''" "k @ ''='' @ arg_text j \<noteq> ''--log-level''" by metis+
  moreover have "test_value stod (arg_text j) = j" using Cons.prems kj test_value_arg by simp
  ultimately show ?case using Cons.IH Cons.prems kj split by (simp add: list.case_eq_if)
qed simp

text \<open>The value a plugin gets.\<close>

fun arg_param :: "json \<Rightarrow> param_value" where
  "arg_param (JInt i) = PInt64 (word_of_int i)"
| "arg_param (JBool b) = PBool b"
| "arg_param (JStr t) = PString t"
| "arg_param _ = PString []"

lemma test_members_args:
  assumes "\<forall>(k, j) \<in> set m. arg_value j"
  shows "\<exists>ps'. test_members L m ps = Inr ps' \<and> map_of ps' = map_of ps ++ map_of (rev (map (\<lambda>(k, j). (k, arg_param j)) m))"
  using assms
proof (induction m arbitrary: ps)
  case (Cons kj m)
  obtain k j where kj: "kj = (k, j)" by fastforce
  have "test_param L j = Inr (arg_param j)" using Cons.prems kj by (cases j) auto
  moreover obtain ps' where "test_members L m (umap_put k (arg_param j) ps) = Inr ps'"
      "map_of ps' = map_of (umap_put k (arg_param j) ps) ++ map_of (rev (map (\<lambda>(k, j). (k, arg_param j)) m))"
    using Cons.IH [of "umap_put k (arg_param j) ps"] Cons.prems by (metis list.set_intros(2))
  moreover note um.lookup_put [of k "arg_param j" ps]
  ultimately show ?case by (simp add: kj)
qed simp

lemma omap_put_members: "set (omap_put k v m) \<subseteq> insert (k, v) (set m)"
  by (induction m) (auto split: if_splits)

lemma fold_put_members: "set (fold (\<lambda>(k, v). omap_put k v) kvs m) \<subseteq> set kvs \<union> set m"
proof (induction kvs arbitrary: m)
  case (Cons kv kvs)
  obtain k v where kv: "kv = (k, v)" by fastforce
  show ?case using Cons [of "omap_put k v m"] omap_put_members [of k v m] kv by auto
qed simp

lemma fold_put_ok: "omap_ok m \<Longrightarrow> omap_ok (fold (\<lambda>(k, v). omap_put k v) kvs m)"
  by (induction kvs arbitrary: m) (auto simp: omap_ok_put)

text \<open>The parameters of the \<^verbatim>\<open>test\<close> command arrive as they were written: for arguments \<^verbatim>\<open>key=value\<close> with different keys
  that have no equals sign, and values that are 64-bit integers, Booleans or texts that do not look like
  either, the command that is built has exactly these parameters with these values.\<close>

theorem cli_test_parameters:
  assumes "\<forall>(k, j) \<in> set kvs. CHR ''='' \<notin> set k \<and> arg_value j" and "distinct (map fst kvs)" and "kvs \<noteq> []"
  shows "\<exists>m pj ps. test_request stod config verb (map (\<lambda>(k, j). k @ ''='' @ arg_text j) kvs) = JObj m \<and>
    map_of m ''config_path'' = Some (JStr config) \<and> map_of m ''verb'' = Some (JStr verb) \<and>
    map_of m ''params'' = Some pj \<and> test_params L pj = Inr ps \<and>
    map_of ps = map_of (map (\<lambda>(k, j). (k, arg_param j)) kvs)"
proof -
  let ?p = "fold (\<lambda>(k, j). omap_put k j) kvs []"
  have "set ?p \<subseteq> set kvs" using fold_put_members [of kvs "[]"] by simp
  then have "\<forall>(k, j) \<in> set ?p. arg_value j" using assms(1) by blast
  then obtain ps where ps: "test_members L ?p [] = Inr ps" "map_of ps = map_of (rev (map (\<lambda>(k, j). (k, arg_param j)) ?p))"
    using test_members_args [of ?p L "[]"] by auto
  have "distinct (map fst ?p)" using omap_ok_distinct [OF fold_put_ok [of "[]" kvs]] by simp
  then have "distinct (map fst (map (\<lambda>(k, j). (k, arg_param j)) ?p))" by (simp add: comp_def case_prod_beta)
  then have "map_of ps = map_of (map (\<lambda>(k, j). (k, arg_param j)) ?p)" using ps(2) map_of_rev_distinct by metis
  then have eq: "map_of ps = map_of (map (\<lambda>(k, j). (k, arg_param j)) kvs)"
    using map_of_json_object [OF assms(2)] by (simp add: fun_eq_iff map_of_map_pair)
  have "dom (map_of ?p) = dom (map_of kvs)" using map_of_json_object [OF assms(2)] by simp
  then have "?p \<noteq> []" using assms(3) by (cases kvs) auto
  then show ?thesis
    using ps(1) eq test_options_params [OF assms(1), of stod] by (auto simp: test_request_def)
qed

section \<open>Instruments of another process\<close>

text \<open>The options of \<^verbatim>\<open>measure\<close> leave parameters the handler can read.\<close>

definition measure_params_ok :: "string \<Rightarrow> (string, json) omap \<Rightarrow> bool" where
  "measure_params_ok script m \<longleftrightarrow> map_of m ''script_path'' = Some (JStr script) \<and>
     (\<forall>v. map_of m ''log_level'' = Some v \<longrightarrow> (\<exists>t. v = JStr t)) \<and> (\<forall>v. map_of m ''json'' = Some v \<longrightarrow> (\<exists>b. v = JBool b))"

lemma measure_params_put:
  "measure_params_ok script m \<Longrightarrow> measure_params_ok script (omap_put ''log_level'' (JStr v) m)"
  "measure_params_ok script m \<Longrightarrow> measure_params_ok script (omap_put ''json'' (JBool b) m)"
  by (simp_all add: measure_params_ok_def map_of_omap_put)

lemma measure_options_ok: "measure_params_ok script m \<Longrightarrow> measure_params_ok script (measure_options opts m)"
proof (induction opts m rule: measure_options.induct)
  case (2 arg args m)
  then show ?case
    by (cases "arg = ''--log-level''"; cases args) (auto simp: measure_params_put)
qed simp

text \<open>A new process of the tool has no instruments, whatever instruments a daemon runs: listing, stopping, asking for the status
  and measuring then fail with status 1 and change nothing.\<close>

theorem cli_sees_no_instruments:
  assumes "sys_instruments s = []" and "name \<noteq> []" and "script \<noteq> []"
  shows "cli_main stod dump2 H [''list''] s = Some (Inr (1, [Stdout ''No instruments running'']), s) \<and>
    cli_main stod dump2 H [''stop'', name] s = Some (Inr (1, [Stderr ''instrument not found'']), s) \<and>
    cli_main stod dump2 H [''status'', name] s = Some (Inr (1, [Stderr ''instrument not found'']), s) \<and>
    cli_main stod dump2 H (''measure'' # script # opts) s = Some (Inr (1, [Stderr ''no instruments running'']), s)"
proof -
  have none: "map_of (ir_instruments (sv_registry (sy_server s))) name = None"
    using assms(1) by (simp add: list_instruments_def)
  have ok: "measure_params_ok script (measure_options opts [(''script_path'', JStr script)])"
    by (rule measure_options_ok) (simp add: measure_params_ok_def)
  have m: "handle_measure H (JObj (measure_options opts [(''script_path'', JStr script)])) s = Some (Inr (reply_error ''no instruments running''), s)"
    using ok assms(1,3) by (auto simp: handle_measure_def measure_params_ok_def split: option.split)
  have "cli_main stod dump2 H [''list''] s = Some (Inr (1, [Stdout ''No instruments running'']), s)"
    using assms(1) by (simp add: cli_main_def cli_commands handle_list_def answer_def print_list_def json_object_def)
  moreover have "cli_main stod dump2 H [''stop'', name] s = Some (Inr (1, [Stderr ''instrument not found'']), s)"
    using none assms(2) by (simp add: cli_main_def cli_commands handle_stop_def has_instrument_def answer_def print_stop_def print_member_def reply_error_def json_object_def)
  moreover have "cli_main stod dump2 H [''status'', name] s = Some (Inr (1, [Stderr ''instrument not found'']), s)"
    using none assms(2) by (simp add: cli_main_def cli_commands handle_status_def get_instrument_def answer_def print_status_def print_member_def reply_error_def json_object_def)
  moreover have "cli_main stod dump2 H (''measure'' # script # opts) s = Some (Inr (1, [Stderr ''no instruments running'']), s)"
    using m by (simp add: cli_main_def cli_commands answer_def print_measure_def reply_error_def json_object_def)
  ultimately show ?thesis by blast
qed

section \<open>Witnesses\<close>

theorem cli_test_parameters_witness:
  "\<exists>m pj ps. test_request Inl ''dmm.yaml'' ''SET'' [''range=-20'', ''auto=true'', ''mode=DC''] = JObj m \<and>
     map_of m ''params'' = Some pj \<and> test_params (docs_lib []) pj = Inr ps \<and>
     map_of ps ''range'' = Some (PInt64 (word_of_int (- 20))) \<and> map_of ps ''auto'' = Some (PBool True) \<and> map_of ps ''mode'' = Some (PString ''DC'')"
proof -
  let ?kvs = "[(''range'', JInt (- 20)), (''auto'', JBool True), (''mode'', JStr ''DC'')]"
  have dc: "stoll ''DC'' = Inl ''stoll''" and n: "show_int (- 20) = ''-20''" by code_simp+
  have "\<forall>(k, j) \<in> set ?kvs. CHR ''='' \<notin> set k \<and> arg_value j" by (simp add: dc)
  moreover have "distinct (map fst ?kvs)" by simp
  ultimately show ?thesis
    using cli_test_parameters [of ?kvs Inl "''dmm.yaml''" "''SET''" "docs_lib []"] by (auto simp: n)
qed

theorem cli_sees_no_instruments_witness:
  "cli_main Inl (\<lambda>_. Inl ''no text'') demo_http_env [''measure'', ''sweep.lua'', ''--json'']
     (demo_sys\<lparr>sy_server := \<lparr>sv_registry = new_instrument_registry, sv_shared = demo_shared\<rparr>\<rparr>) =
   Some (Inr (1, [Stderr ''no instruments running'']),
     demo_sys\<lparr>sy_server := \<lparr>sv_registry = new_instrument_registry, sv_shared = demo_shared\<rparr>\<rparr>)"
proof -
  have "sys_instruments (demo_sys\<lparr>sy_server := \<lparr>sv_registry = new_instrument_registry, sv_shared = demo_shared\<rparr>\<rparr>) = []"
    by (simp add: list_instruments_def new_instrument_registry_def)
  then show ?thesis
    using cli_sees_no_instruments [of _ "''dmm''" "''sweep.lua''" Inl "\<lambda>_. Inl ''no text''" demo_http_env "[''--json'']"] by simp
qed

end
