(* ===== verification/Schema_Validator.thy ===== *)
theory Schema_Validator
  imports Yaml
begin

text \<open>
  \<^verbatim>\<open>src/SchemaValidator.cpp\<close> and the validator programs around it: the checks of an instrument API, of an
  instrument configuration and of a quantum dot device. What the checks accept is compared with a
  direct description of the documents: the names a channel group stands for, the placeholders of a
  command template and the order of the gates of a dot group.
\<close>

section \<open>Reporting\<close>

definition quoted :: "string \<Rightarrow> string" where
  "quoted s = CHR 0x27 # s @ [CHR 0x27]"

definition node_path :: "string list \<Rightarrow> string" where
  "node_path path = concat (map (\<lambda>p. ''/'' @ p) path)"

text \<open>An error makes the result invalid and is appended to its list.\<close>

definition add_error :: "string list \<Rightarrow> string \<Rightarrow> unit check" where
  "add_error path msg = ([\<lparr>ve_path = node_path path, ve_message = msg, ve_line = 0, ve_column = 0\<rparr>], Inr ())"

text \<open>The result of a validator: valid at first, not valid after the first error; an exception of the YAML library ends the
  checks and is an error itself. \<^const>\<open>None\<close> when the run has undefined behaviour.\<close>

definition validation :: "unit check \<Rightarrow> validation_result option" where
  "validation m =
     (case m of
        (es, Inr _) \<Rightarrow> Some \<lparr>vr_valid = (es = []), vr_errors = es, vr_warnings = []\<rparr>
      | (es, Inl (Yaml_Exception e)) \<Rightarrow>
          Some \<lparr>vr_valid = False, vr_errors = es @ [\<lparr>ve_path = [], ve_message = ''YAML parse error: '' @ e,
            ve_line = 0, ve_column = 0\<rparr>], vr_warnings = []\<rparr>
      | (es, Inl Undefined_Behaviour) \<Rightarrow> None)"

text \<open>The loops over required keys.\<close>

definition require_fields :: "string \<Rightarrow> string list \<Rightarrow> string list \<Rightarrow> yaml \<Rightarrow> unit check" where
  "require_fields what path keys node =
     for_each (\<lambda>key. bindc (attempt (y_sub node key)) (\<lambda>v.
       if y_defined v then ret () else add_error path (''Missing required '' @ what @ quoted key))) keys"

definition as_text :: "yaml \<Rightarrow> string check" where
  "as_text n = attempt (yaml_as_string n)"

definition field_text :: "yaml \<Rightarrow> string \<Rightarrow> string check" where
  "field_text n k = bindc (attempt (y_sub n k)) as_text"

section \<open>Instrument APIs\<close>

definition channel_io_name :: "string \<Rightarrow> int \<Rightarrow> string \<Rightarrow> string" where
  "channel_io_name group_name ch suffix = group_name @ show_int ch @ ''_'' @ suffix"

text \<open>\<^verbatim>\<open>for (int ch = min_ch; ch <= max_ch; ++ch)\<close>: with the greatest \<^verbatim>\<open>int\<close> as its bound the counter overflows.\<close>

definition for_channels :: "(int \<Rightarrow> unit check) \<Rightarrow> int \<Rightarrow> int \<Rightarrow> unit check" where
  "for_channels body min_ch max_ch =
     bindc (for_each body [min_ch..max_ch]) (\<lambda>_.
       if min_ch \<le> max_ch \<and> max_ch = 2 ^ 31 - 1 then undefined_behaviour else ret ())"

definition channel_range :: "yaml_lib \<Rightarrow> yaml \<Rightarrow> (int \<times> int) check" where
  "channel_range Y grp =
     bindc (attempt (y_sub grp ''channel_parameter'')) (\<lambda>p1.
     bindc (attempt (y_sub p1 ''min'')) (\<lambda>lo.
     bindc (attempt (as_number (yl_as_int32 Y) lo)) (\<lambda>min_ch.
     bindc (attempt (y_sub p1 ''max'')) (\<lambda>hi.
     bindc (attempt (as_number (yl_as_int32 Y) hi)) (\<lambda>max_ch. ret (min_ch, max_ch))))))"

definition check_channel_io :: "string list \<Rightarrow> string list \<Rightarrow> string \<Rightarrow> int \<Rightarrow> yaml \<Rightarrow> unit check" where
  "check_channel_io io_names path group_name ch io_type =
     bindc (field_text io_type ''suffix'') (\<lambda>suffix.
       if channel_io_name group_name ch suffix \<in> set io_names then ret ()
       else add_error (path @ [''io''])
         (''Missing IO entry for channel group '' @ quoted group_name @ '', channel '' @ show_int ch @ '', suffix '' @
          quoted suffix @ '' (expected name: '' @ quoted (channel_io_name group_name ch suffix) @ '')''))"

definition check_group_io :: "yaml_lib \<Rightarrow> string list \<Rightarrow> string list \<Rightarrow> yaml \<Rightarrow> unit check" where
  "check_group_io Y io_names path grp =
     bindc (field_text grp ''name'') (\<lambda>group_name.
     bindc (channel_range Y grp) (\<lambda>(min_ch, max_ch).
     bindc (attempt (y_sub grp ''io_types'')) (\<lambda>io_types.
       for_channels (\<lambda>ch. for_each (check_channel_io io_names path group_name ch) (y_elems io_types)) min_ch max_ch)))"

definition validate_io_against_channel_groups :: "yaml_lib \<Rightarrow> yaml \<Rightarrow> yaml \<Rightarrow> string list \<Rightarrow> unit check" where
  "validate_io_against_channel_groups Y io channel_groups path =
     (if \<not> y_defined channel_groups then ret ()
      else bindc (collect (\<lambda>entry. field_text entry ''name'') (y_elems io)) (\<lambda>io_names.
        for_each (check_group_io Y io_names path) (y_elems channel_groups)))"

definition check_io_entry :: "nat \<times> yaml \<Rightarrow> unit check" where
  "check_io_entry e =
     (case e of (i, entry) \<Rightarrow>
        if \<not> is_map entry then add_error [''io'', show_nat i] ''IO entry must be a map''
        else require_fields ''IO field '' [''io'', show_nat i] [''name'', ''type'', ''role''] entry)"

definition check_io :: "yaml \<Rightarrow> unit check" where
  "check_io doc =
     bindc (attempt (y_sub doc ''io'')) (\<lambda>io.
       if is_sequence io then for_each check_io_entry (enumerate 0 (y_elems io))
       else add_error [''io''] ''IO must be a sequence'')"

definition check_channel_parameter :: "string list \<Rightarrow> yaml \<Rightarrow> unit check" where
  "check_channel_parameter group_path p =
     bindc (require_fields ''channel_parameter field '' group_path [''name'', ''type'', ''min'', ''max''] p) (\<lambda>_.
     bindc (attempt (y_sub p ''type'')) (\<lambda>t.
       if y_defined t
       then bindc (as_text t) (\<lambda>s. if s = ''int'' then ret () else add_error group_path (''channel_parameter type must be '' @ quoted ''int''))
       else ret ()))"

definition check_io_types :: "string list \<Rightarrow> yaml \<Rightarrow> unit check" where
  "check_io_types group_path ts =
     (if \<not> is_sequence ts then add_error group_path ''io_types must be a sequence''
      else for_each (\<lambda>(t, io_type).
        require_fields ''io_type field '' (group_path @ [''io_types'', show_nat t]) [''suffix'', ''type'', ''role''] io_type)
        (enumerate 0 (y_elems ts)))"

definition check_group :: "nat \<times> yaml \<Rightarrow> unit check" where
  "check_group e =
     (case e of (g, grp) \<Rightarrow>
        let group_path = [''channel_groups'', show_nat g] in
        bindc (require_fields ''channel_group field '' group_path [''name'', ''channel_parameter'', ''io_types''] grp) (\<lambda>_.
        bindc (attempt (y_sub grp ''channel_parameter'')) (\<lambda>p.
        bindc (if y_defined p then check_channel_parameter group_path p else ret ()) (\<lambda>_.
        bindc (attempt (y_sub grp ''io_types'')) (\<lambda>ts.
          if y_defined ts then check_io_types group_path ts else ret ())))))"

definition check_channel_groups :: "yaml_lib \<Rightarrow> yaml \<Rightarrow> unit check" where
  "check_channel_groups Y doc =
     bindc (attempt (y_sub doc ''channel_groups'')) (\<lambda>groups.
       if \<not> y_defined groups then ret ()
       else if \<not> is_sequence groups then add_error [''channel_groups''] ''channel_groups must be a sequence''
       else bindc (attempt (y_sub doc ''io'')) (\<lambda>io.
            bindc (validate_io_against_channel_groups Y io groups []) (\<lambda>_.
              for_each check_group (enumerate 0 (y_elems groups)))))"

text \<open>The matches of the regular expression \<^verbatim>\<open>\{([^}]+)\}\<close>, from left to right: what stands between a brace and the next
  closing brace, if that is not empty.\<close>

function placeholders :: "string \<Rightarrow> string list" where
  "placeholders [] = []"
| "placeholders (c # cs) =
     (case if c = CHR ''{'' then split_at_char (CHR ''}'') cs else None of
        Some (name, rest) \<Rightarrow> if name = [] then placeholders cs else name # placeholders rest
      | None \<Rightarrow> placeholders cs)"
  by pat_completeness auto
termination
  by (relation "measure length") (auto simp: split_at_char_Some split: if_splits)

definition parameter_names :: "yaml \<Rightarrow> string list check" where
  "parameter_names param =
     bindc (attempt (y_sub param ''name'')) (\<lambda>n.
       if y_defined n \<and> is_scalar n then bindc (as_text n) (\<lambda>s. ret [s])
       else bindc (attempt (y_sub param ''io'')) (\<lambda>io.
         if y_defined io \<and> is_scalar io then bindc (as_text io) (\<lambda>s. ret [s]) else ret []))"

definition check_placeholders :: "string list \<Rightarrow> string list \<Rightarrow> string \<Rightarrow> string \<Rightarrow> unit check" where
  "check_placeholders cmd_path allowed_names channel_group_name tmpl =
     bindc (for_each (\<lambda>name.
        if name \<in> set allowed_names then ret ()
        else add_error cmd_path (''Template placeholder {'' @ name @ ''} does not match any parameter or channel_group name''))
        (placeholders tmpl)) (\<lambda>_.
      if channel_group_name \<noteq> [] \<and> channel_group_name \<notin> set (placeholders tmpl)
      then add_error cmd_path (''Template for command with channel_group must include {'' @ channel_group_name @ ''} placeholder'')
      else ret ())"

text \<open>The channel group is read from \<^verbatim>\<open>doc["commands"][cmd_name]\<close> again. A command whose key is null is not found there, and the
  subscript then inserts a pair into the map that is being iterated.\<close>

definition check_template :: "yaml \<Rightarrow> string \<Rightarrow> yaml \<Rightarrow> yaml \<Rightarrow> unit check" where
  "check_template commands cmd_name params tmpl =
     bindc (as_text tmpl) (\<lambda>t.
     bindc (if y_defined params \<and> is_sequence params then collect parameter_names (y_elems params) else ret []) (\<lambda>names.
     bindc (attempt (y_sub commands cmd_name)) (\<lambda>cmd_fresh.
       if \<not> y_defined cmd_fresh then undefined_behaviour
       else bindc (attempt (y_sub cmd_fresh ''channel_group'')) (\<lambda>cg.
         if y_defined cg then
           if \<not> is_scalar cg then add_error [''commands'', cmd_name] ''channel_group must be a scalar string if defined''
           else bindc (as_text cg) (\<lambda>channel_group_name.
             check_placeholders [''commands'', cmd_name] (concat names @ [channel_group_name]) channel_group_name t)
         else check_placeholders [''commands'', cmd_name] (concat names) [] t))))"

definition check_command :: "yaml \<Rightarrow> yaml \<times> yaml \<Rightarrow> unit check" where
  "check_command commands e =
     (case e of (key, cmd) \<Rightarrow>
        bindc (as_text key) (\<lambda>cmd_name.
        let cmd_path = [''commands'', cmd_name] in
        bindc (require_fields ''command field '' cmd_path [''template'', ''parameters'', ''outputs''] cmd) (\<lambda>_.
        bindc (attempt (y_sub cmd ''parameters'')) (\<lambda>params.
          if y_defined params \<and> \<not> is_sequence params then add_error cmd_path ''parameters must be a sequence''
          else bindc (attempt (y_sub cmd ''outputs'')) (\<lambda>outputs.
            if y_defined outputs \<and> \<not> is_sequence outputs then add_error cmd_path ''outputs must be a sequence''
            else if \<not> y_defined outputs \<or> \<not> is_sequence outputs then
              bindc (attempt (y_sub cmd ''channel_group'')) (\<lambda>cg.
                if y_defined cg
                then add_error cmd_path ''outputs must be a sequence of suffixes when channel_group is set''
                else add_error cmd_path ''outputs must be a sequence of io names when channel_group is not set'')
            else bindc (attempt (y_sub cmd ''template'')) (\<lambda>tmpl.
              if y_defined tmpl \<and> is_scalar tmpl then check_template commands cmd_name params tmpl else ret ()))))))"

definition check_commands :: "yaml \<Rightarrow> unit check" where
  "check_commands doc =
     bindc (attempt (y_sub doc ''commands'')) (\<lambda>commands.
       if is_map commands then for_each (check_command commands) (y_pairs commands)
       else add_error [''commands''] ''commands must be a map/object'')"

definition check_api :: "yaml_lib \<Rightarrow> yaml \<Rightarrow> unit check" where
  "check_api Y doc =
     bindc (require_fields ''field '' [] [''api_version'', ''instrument'', ''protocol'', ''io'', ''commands''] doc) (\<lambda>_.
     bindc (check_io doc) (\<lambda>_.
     bindc (check_channel_groups Y doc) (\<lambda>_. check_commands doc)))"

definition validate_instrument_api :: "yaml_lib \<Rightarrow> string \<Rightarrow> validation_result option" where
  "validate_instrument_api Y yaml_path = validation (bindc (attempt (yl_load_file Y yaml_path)) (check_api Y))"

section \<open>Quantum dot devices\<close>

function split_semicolon :: "string \<Rightarrow> string list" where
  "split_semicolon s =
     (case split_at_char (CHR '';'') s of
        Some (a, rest) \<Rightarrow> a # split_semicolon rest
      | None \<Rightarrow> if s = [] then [] else [s])"
  by pat_completeness auto
termination
  by (relation "measure length") (auto simp: split_at_char_Some)

declare split_semicolon.simps [simp del]

type_synonym gates = "(string, string list) omap"

text \<open>\<^verbatim>\<open>global_gates[type]\<close>; an entry the subscript adds is empty and has no effect later.\<close>

definition gates_of :: "gates \<Rightarrow> string \<Rightarrow> string list" where
  "gates_of g ty = (case map_of g ty of None \<Rightarrow> [] | Some gs \<Rightarrow> gs)"

definition read_global_gates :: "yaml \<Rightarrow> (string \<times> string list) list check" where
  "read_global_gates global =
     bindc (collect (\<lambda>key. bindc (attempt (y_sub global key)) (\<lambda>v.
         if \<not> y_defined v
         then bindc (add_error [''global''] (''Missing required global field '' @ quoted key)) (\<lambda>_. ret [])
         else bindc (as_text v) (\<lambda>t. ret [(key, split_semicolon t)])))
       [''ScreeningGates'', ''PlungerGates'', ''Ohmics'', ''BarrierGates'', ''ReservoirGates'']) (\<lambda>gss. ret (concat gss))"

definition check_group_gates :: "gates \<Rightarrow> string list \<Rightarrow> yaml \<Rightarrow> string \<Rightarrow> string list check" where
  "check_group_gates global_gates gpath grp gate_type =
     bindc (attempt (y_sub grp gate_type)) (\<lambda>n.
       if y_defined n \<and> is_scalar n
       then bindc (as_text n) (\<lambda>t.
         bindc (for_each (\<lambda>gate.
             if gate \<in> set (gates_of global_gates gate_type) then ret ()
             else add_error gpath (''Gate '' @ quoted gate @ '' in '' @ gate_type @ '' not found in global '' @ gate_type))
           (split_semicolon t)) (\<lambda>_. ret (split_semicolon t)))
       else ret [])"

definition must_be :: "gates \<Rightarrow> string \<Rightarrow> string list \<Rightarrow> string \<Rightarrow> string \<Rightarrow> unit check" where
  "must_be global_gates ty gpath msg gate =
     (if gate \<in> set (gates_of global_gates ty) then ret () else add_error gpath msg)"

definition check_center :: "gates \<Rightarrow> string list \<Rightarrow> string list \<Rightarrow> nat \<Rightarrow> unit check" where
  "check_center global_gates gpath order i =
     (if i mod 2 = 0
      then must_be global_gates ''BarrierGates'' gpath (''Order entry '' @ show_nat i @ '' should be a BarrierGate'') (order ! i)
      else must_be global_gates ''PlungerGates'' gpath (''Order entry '' @ show_nat i @ '' should be a PlungerGate'') (order ! i))"

definition check_order :: "gates \<Rightarrow> string list \<Rightarrow> string list \<Rightarrow> unit check" where
  "check_order global_gates gpath order =
     (let n = length order in
      if n < 3 then add_error gpath ''Order must have at least 3 entries''
      else
        bindc (must_be global_gates ''Ohmics'' gpath ''First entry in Order must be an Ohmic'' (order ! 0)) (\<lambda>_.
        bindc (must_be global_gates ''Ohmics'' gpath ''Last entry in Order must be an Ohmic'' (order ! (n - 1))) (\<lambda>_.
        bindc (must_be global_gates ''ReservoirGates'' gpath ''Second entry in Order must be a ReservoirGate'' (order ! 1)) (\<lambda>_.
        bindc (must_be global_gates ''ReservoirGates'' gpath ''Second-to-last entry in Order must be a ReservoirGate''
          (order ! (n - 2))) (\<lambda>_.
        bindc (for_each (check_center global_gates gpath order) [2..<n - 2]) (\<lambda>_.
          let barrier_count = length (filter (\<lambda>i. i mod 2 = 0) [2..<n - 2]);
              plunger_count = length (filter (\<lambda>i. i mod 2 \<noteq> 0) [2..<n - 2])
          in if barrier_count \<noteq> plunger_count + 1
             then add_error gpath ''There must be exactly one more BarrierGate than PlungerGate in the Order''
             else ret ()))))))"

definition check_dot_group :: "gates \<Rightarrow> yaml \<times> yaml \<Rightarrow> string list check" where
  "check_dot_group global_gates e =
     (case e of (key, grp) \<Rightarrow>
        bindc (as_text key) (\<lambda>group_name.
        let gpath = [''groups'', group_name] in
        bindc (require_fields ''group field '' gpath
          [''Name'', ''NumDots'', ''ScreeningGates'', ''ReservoirGates'', ''PlungerGates'', ''BarrierGates'', ''Order''] grp) (\<lambda>_.
        bindc (collect (check_group_gates global_gates gpath grp)
          [''ScreeningGates'', ''ReservoirGates'', ''PlungerGates'', ''BarrierGates'']) (\<lambda>used.
        bindc (attempt (y_sub grp ''Order'')) (\<lambda>order.
        bindc (if y_defined order \<and> is_scalar order
               then bindc (as_text order) (\<lambda>t. check_order global_gates gpath (split_semicolon t))
               else ret ()) (\<lambda>_. ret (concat used)))))))"

definition check_all_used :: "gates \<Rightarrow> string list \<Rightarrow> unit check" where
  "check_all_used global_gates used =
     for_each (\<lambda>(ty, gates). if ty = ''Ohmics'' then ret ()
       else for_each (\<lambda>gate. if gate \<in> set used then ret ()
         else add_error [''global''] (''Global gate '' @ quoted gate @ '' of type '' @ quoted ty @ '' is not used in any group'')) gates)
       global_gates"

text \<open>\<^verbatim>\<open>d < 0\<close> on a binary64 value: negative, not a zero and not a NaN.\<close>

definition double_negative :: "double \<Rightarrow> bool" where
  "double_negative d \<longleftrightarrow> drop_bit 63 d = 1 \<and> take_bit 63 d \<noteq> 0 \<and> (double_finite d \<or> take_bit 52 d = 0)"

definition check_not_negative :: "yaml_lib \<Rightarrow> string list \<Rightarrow> yaml \<Rightarrow> string \<Rightarrow> unit check" where
  "check_not_negative Y wpath conn key =
     bindc (attempt (y_sub conn key)) (\<lambda>v.
       if y_defined v \<and> is_scalar v
       then bindc (attempt (as_number (yl_as_double Y) v)) (\<lambda>d.
         if double_negative d then add_error wpath (key @ '' must be >= 0'') else ret ())
       else ret ())"

definition check_connection :: "yaml_lib \<Rightarrow> yaml \<times> yaml \<Rightarrow> unit check" where
  "check_connection Y e =
     (case e of (key, conn) \<Rightarrow>
        bindc (as_text key) (\<lambda>conn_name.
        let wpath = [''wiringDC'', conn_name] in
        bindc (require_fields ''wiringDC field '' wpath [''resistance'', ''capacitance''] conn) (\<lambda>_.
        bindc (check_not_negative Y wpath conn ''resistance'') (\<lambda>_.
          check_not_negative Y wpath conn ''capacitance''))))"

definition check_wiring :: "yaml_lib \<Rightarrow> nat \<Rightarrow> yaml \<Rightarrow> unit check" where
  "check_wiring Y gate_count wiring =
     bindc (if \<not> is_map wiring then add_error [''wiringDC''] ''wiringDC must be a map/object''
            else if length (y_pairs wiring) \<noteq> 0 \<and> length (y_pairs wiring) \<noteq> gate_count
            then add_error [''wiringDC''] ''wiringDC must be empty or contain an entry for every global gate''
            else ret ()) (\<lambda>_.
       for_each (check_connection Y) (y_pairs wiring))"

definition check_device :: "yaml_lib \<Rightarrow> yaml \<Rightarrow> unit check" where
  "check_device Y doc =
     bindc (require_fields ''field '' [] [''global'', ''groups'', ''wiringDC''] doc) (\<lambda>_.
     bindc (attempt (y_sub doc ''global'')) (\<lambda>global.
     bindc (if y_defined global then read_global_gates global else ret []) (\<lambda>gs.
     let global_gates = fold (\<lambda>(k, v). omap_put k v) gs []; all_global_gates = concat (map snd gs) in
     bindc (attempt (y_sub doc ''groups'')) (\<lambda>groups.
     bindc (if \<not> y_defined groups then ret []
            else if \<not> is_map groups
            then bindc (add_error [''groups''] ''groups must be a map/object'') (\<lambda>_. ret [])
            else collect (check_dot_group global_gates) (y_pairs groups)) (\<lambda>used.
     bindc (check_all_used global_gates (concat used)) (\<lambda>_.
     bindc (attempt (y_sub doc ''wiringDC'')) (\<lambda>wiring.
       if y_defined wiring then check_wiring Y (length all_global_gates) wiring else ret ())))))))"

definition validate_quantum_dot_device :: "yaml_lib \<Rightarrow> string \<Rightarrow> validation_result option" where
  "validate_quantum_dot_device Y yaml_path = validation (bindc (attempt (yl_load_file Y yaml_path)) (check_device Y))"

section \<open>Instrument configurations\<close>

text \<open>The checks of a scalar field against a list of values.\<close>

definition one_of :: "string list \<Rightarrow> string \<Rightarrow> string list \<Rightarrow> string \<Rightarrow> yaml \<Rightarrow> unit check" where
  "one_of path key allowed msg entry =
     bindc (attempt (y_sub entry key)) (\<lambda>n.
       if y_defined n \<and> is_scalar n
       then bindc (as_text n) (\<lambda>t. if t \<in> set allowed then ret () else add_error path msg)
       else ret ())"

definition scalar_if_present :: "string list \<Rightarrow> string \<Rightarrow> yaml \<Rightarrow> unit check" where
  "scalar_if_present path key entry =
     bindc (attempt (y_sub entry key)) (\<lambda>n.
       if y_defined n \<and> \<not> is_scalar n then add_error path (key @ '' must be a number'') else ret ())"

definition check_config_io :: "yaml \<times> yaml \<Rightarrow> unit check" where
  "check_config_io e =
     (case e of (key, io_entry) \<Rightarrow>
        bindc (as_text key) (\<lambda>io_name.
        let io_path = [''io_config'', io_name] in
        bindc (require_fields ''IO field '' io_path [''type'', ''role''] io_entry) (\<lambda>_.
        bindc (one_of io_path ''type'' [''int'', ''float'', ''string'', ''bool'']
          ''type must be one of:  int, float, string, bool'' io_entry) (\<lambda>_.
        bindc (one_of io_path ''role'' [''input'', ''output'', ''inout'']
          ''role must be one of: input, output, inout'' io_entry) (\<lambda>_.
        bindc (scalar_if_present io_path ''offset'' io_entry) (\<lambda>_.
          scalar_if_present io_path ''scale'' io_entry))))))"

definition check_connection_type :: "yaml \<Rightarrow> unit check" where
  "check_connection_type conn =
     (if \<not> y_defined conn then ret ()
      else if \<not> is_map conn then add_error [''connection''] ''connection must be an object''
      else bindc (attempt (y_sub conn ''type'')) (\<lambda>t.
        if y_defined t then ret ()
        else add_error [''connection''] (''Missing required field '' @ quoted ''type'' @ '' in connection'')))"

definition check_configuration :: "yaml \<Rightarrow> unit check" where
  "check_configuration doc =
     bindc (require_fields ''field '' [] [''name'', ''api_ref'', ''connection'', ''io_config''] doc) (\<lambda>_.
     bindc (attempt (y_sub doc ''connection'')) (\<lambda>conn.
     bindc (check_connection_type conn) (\<lambda>_.
     bindc (attempt (y_sub doc ''io_config'')) (\<lambda>io_config.
       if is_map io_config then for_each check_config_io (y_pairs io_config)
       else add_error [''io_config''] ''io_config must be an object''))))"

definition validate_instrument_configuration :: "yaml_lib \<Rightarrow> string \<Rightarrow> validation_result option" where
  "validate_instrument_configuration Y yaml_path =
     validation (bindc (attempt (yl_load_file Y yaml_path)) check_configuration)"

section \<open>The validator programs\<close>

text \<open>The exit status and the lines printed, for the arguments after the program's name.\<close>

definition validator_main :: "(string \<Rightarrow> validation_result option) \<Rightarrow> string list \<Rightarrow> (int \<times> string list) option" where
  "validator_main validate args =
     (case args of
        [path] \<Rightarrow>
          map_option (\<lambda>r. if vr_valid r then (0, [''Validation succeeded.''])
            else (2, ''Validation failed:'' # map (\<lambda>e. ''  - '' @ ve_path e @ '': '' @ ve_message e) (vr_errors r)))
            (validate path)
      | _ \<Rightarrow> Some (1, []))"

definition api_validator_main :: "yaml_lib \<Rightarrow> string list \<Rightarrow> (int \<times> string list) option" where
  "api_validator_main Y = validator_main (validate_instrument_api Y)"

definition config_validator_main :: "yaml_lib \<Rightarrow> string list \<Rightarrow> (int \<times> string list) option" where
  "config_validator_main Y = validator_main (validate_instrument_configuration Y)"

definition quantum_dot_validator_main :: "yaml_lib \<Rightarrow> string list \<Rightarrow> (int \<times> string list) option" where
  "quantum_dot_validator_main Y = validator_main (validate_quantum_dot_device Y)"

end
