(* ===== verification/Schema_Meaning.thy ===== *)
theory Schema_Meaning
  imports Schema_Validator
begin

text \<open>
  What the validators accept. A run without a report is characterised by the collection
  \<^verbatim>\<open>clean_iff\<close>; from it follow the grammar of gate orders and the guarantees of a valid instrument API.
\<close>

lemma clean_add_error [clean_iff]: "\<not> clean (add_error path msg) x"
  by (simp add: add_error_def)

lemma clean_as_text [clean_iff]: "clean (as_text n) t \<longleftrightarrow> yaml_as_string n = Inr t"
  by (simp add: as_text_def clean_iff)

lemma clean_field_text [clean_iff]:
  "clean (field_text n k) t \<longleftrightarrow> (\<exists>v. y_sub n k = Inr v \<and> yaml_as_string v = Inr t)"
  by (simp add: field_text_def clean_iff)

lemma clean_require_fields [clean_iff]:
  "clean (require_fields what path keys n) u \<longleftrightarrow> (\<forall>k \<in> set keys. \<exists>v. y_sub n k = Inr v \<and> y_defined v)"
  by (auto simp: require_fields_def clean_iff)

lemma valid_iff_clean: "validation m = Some r \<Longrightarrow> vr_valid r \<longleftrightarrow> clean m (projr (snd m))"
  by (cases m; cases "snd m") (auto simp: validation_def split: sum.splits fault.splits)

section \<open>The order of the gates of a dot group\<close>

text \<open>Barrier gates and plunger gates in turn, with a barrier at both ends.\<close>

fun barrier_chain :: "string set \<Rightarrow> string set \<Rightarrow> string list \<Rightarrow> bool" where
  "barrier_chain B P [] \<longleftrightarrow> False"
| "barrier_chain B P [b] \<longleftrightarrow> b \<in> B"
| "barrier_chain B P (b # p # cs) \<longleftrightarrow> b \<in> B \<and> p \<in> P \<and> barrier_chain B P cs"

definition dot_order :: "gates \<Rightarrow> string list \<Rightarrow> bool" where
  "dot_order g order \<longleftrightarrow>
     (\<exists>o1 r1 center r2 o2. order = o1 # r1 # center @ [r2, o2] \<and>
        {o1, o2} \<subseteq> set (gates_of g ''Ohmics'') \<and> {r1, r2} \<subseteq> set (gates_of g ''ReservoirGates'') \<and>
        barrier_chain (set (gates_of g ''BarrierGates'')) (set (gates_of g ''PlungerGates'')) center)"

lemma barrier_chain_iff:
  "barrier_chain B P cs \<longleftrightarrow> odd (length cs) \<and> (\<forall>j < length cs. cs ! j \<in> (if even j then B else P))"
proof (induction B P cs rule: barrier_chain.induct)
  case (3 B P b p cs)
  have "(\<forall>j < length (b # p # cs). (b # p # cs) ! j \<in> (if even j then B else P)) \<longleftrightarrow>
      b \<in> B \<and> p \<in> P \<and> (\<forall>j < length cs. cs ! j \<in> (if even j then B else P))"
    by (auto simp: All_less_Suc2)
  then show ?case using 3 by (simp split del: if_split) blast
qed simp_all

lemma even_odd_count:
  assumes "2 \<le> m"
  shows "length (filter (\<lambda>i. i mod 2 = 0) [2..<m]) = length (filter (\<lambda>i. i mod 2 \<noteq> 0) [2..<m]) + (if even m then 0 else 1)"
  using assms by (induction m rule: dec_induct) (auto simp: even_iff_mod_2_eq_zero mod_Suc)

lemma clean_must_be [clean_iff]: "clean (must_be g ty path msg gate) u \<longleftrightarrow> gate \<in> set (gates_of g ty)"
  by (simp add: must_be_def clean_iff)

lemma clean_check_center [clean_iff]:
  "clean (check_center g path order i) u \<longleftrightarrow>
     order ! i \<in> (if even i then set (gates_of g ''BarrierGates'') else set (gates_of g ''PlungerGates''))"
  by (simp add: check_center_def clean_iff even_iff_mod_2_eq_zero)

lemma order_shape:
  assumes "4 \<le> length order"
  obtains o1 r1 center r2 o2 where "order = o1 # r1 # center @ [r2, o2]"
proof -
  obtain o1 r1 rest where a: "order = o1 # r1 # rest"
    using assms by (metis Suc_le_length_iff numeral_eq_Suc pred_numeral_simps(2) eval_nat_numeral(3))
  moreover obtain ys o2 where b: "rest = ys @ [o2]" using assms a by (cases rest rule: rev_cases) auto
  moreover obtain center r2 where "ys = center @ [r2]" using assms a b by (cases ys rule: rev_cases) auto
  ultimately show ?thesis using that by simp
qed

lemma check_order_center:
  assumes "order = o1 # r1 # center @ [r2, o2]"
  shows "clean (check_order g path order) () \<longleftrightarrow>
    o1 \<in> set (gates_of g ''Ohmics'') \<and> o2 \<in> set (gates_of g ''Ohmics'') \<and>
    r1 \<in> set (gates_of g ''ReservoirGates'') \<and> r2 \<in> set (gates_of g ''ReservoirGates'') \<and>
    barrier_chain (set (gates_of g ''BarrierGates'')) (set (gates_of g ''PlungerGates'')) center"
proof -
  let ?B = "set (gates_of g ''BarrierGates'')" and ?P = "set (gates_of g ''PlungerGates'')" and ?m = "length center"
  have nth: "order ! 0 = o1" "order ! 1 = r1" "order ! (length order - 1) = o2" "order ! (length order - 2) = r2"
      "length order - 2 = ?m + 2" "\<not> length order < 3" and mid: "j < ?m \<Longrightarrow> order ! (j + 2) = center ! j" for j
    using assms by (simp_all add: nth_append)
  have set: "set [2..<?m + 2] = (\<lambda>j. j + 2) ` {..<?m}"
    unfolding map_add_upt [of 2 ?m, symmetric] by (simp add: lessThan_atLeast0)
  have "(\<forall>i \<in> set [2..<?m + 2]. clean (check_center g path order i) ()) \<longleftrightarrow>
      (\<forall>j < ?m. center ! j \<in> (if even j then ?B else ?P))"
    unfolding set ball_simps clean_iff using mid by auto
  moreover have "length (filter (\<lambda>i. i mod 2 = 0) [2..<?m + 2]) = length (filter (\<lambda>i. i mod 2 \<noteq> 0) [2..<?m + 2]) + 1 \<longleftrightarrow> odd ?m"
    using even_odd_count [of "?m + 2"] by simp
  ultimately show ?thesis
    unfolding check_order_def Let_def barrier_chain_iff using nth
    by (simp add: clean_iff del: upt.simps)
qed

text \<open>C23: The check of the \<^verbatim>\<open>Order\<close> entry of a dot group, which works by index and counts, accepts exactly the orders of the
  form ohmic, reservoir, a chain of barriers with one plunger between any two, reservoir, ohmic, all gates
  being of the right kind in the global section.\<close>

theorem order_check_is_grammar:
  "check_order g path order = ([], Inr ()) \<longleftrightarrow> dot_order g order"
proof (cases "4 \<le> length order")
  case True
  then obtain o1 r1 center r2 o2 where o: "order = o1 # r1 # center @ [r2, o2]" by (rule order_shape)
  show ?thesis unfolding check_order_center [OF o] dot_order_def using o by auto
next
  case False
  then consider "length order < 3" | "length order = 3" by linarith
  then have "\<not> clean (check_order g path order) ()"
    by cases (simp_all add: check_order_def Let_def clean_iff)
  moreover have "\<not> dot_order g order" using False by (auto simp: dot_order_def)
  ultimately show ?thesis by simp
qed

section \<open>Instrument APIs\<close>

definition field_is :: "yaml \<Rightarrow> string \<Rightarrow> string \<Rightarrow> bool" where
  "field_is n k t \<longleftrightarrow> (\<exists>v. y_sub n k = Inr v \<and> yaml_as_string v = Inr t)"

text \<open>A parameter declares its \<^verbatim>\<open>name\<close>, or its \<^verbatim>\<open>io\<close> when it has no name.\<close>

definition declares :: "yaml \<Rightarrow> string \<Rightarrow> bool" where
  "declares param s \<longleftrightarrow> y_sub param ''name'' = Inr (YScalar s) \<or> y_sub param ''io'' = Inr (YScalar s)"

definition command_ok :: "(yaml \<times> yaml) list \<Rightarrow> yaml \<times> yaml \<Rightarrow> bool" where
  "command_ok cmds e \<longleftrightarrow>
     (\<exists>name kvs params outs. yaml_as_string (fst e) = Inr name \<and> snd e = YMap kvs \<and>
        y_lookup kvs ''parameters'' = YSeq params \<and> y_lookup kvs ''outputs'' = YSeq outs \<and>
        y_lookup kvs ''template'' \<noteq> YUndefined \<and>
        (\<forall>t. y_lookup kvs ''template'' = YScalar t \<longrightarrow>
           (\<forall>p \<in> set (placeholders t). (\<exists>q \<in> set params. declares q p) \<or>
              y_sub (y_lookup cmds name) ''channel_group'' = Inr (YScalar p)) \<and>
           (\<forall>c. y_sub (y_lookup cmds name) ''channel_group'' = Inr (YScalar c) \<longrightarrow> c \<noteq> [] \<longrightarrow> c \<in> set (placeholders t))))"

text \<open>Every name a channel group stands for is the name of an entry of \<^verbatim>\<open>io\<close>.\<close>

definition group_covered :: "yaml_lib \<Rightarrow> yaml list \<Rightarrow> yaml \<Rightarrow> bool" where
  "group_covered Y ios grp \<longleftrightarrow>
     (\<exists>name lo hi types. field_is grp ''name'' name \<and> channel_range Y grp = ([], Inr (lo, hi)) \<and> y_sub grp ''io_types'' = Inr types \<and>
        (lo \<le> hi \<longrightarrow> hi \<noteq> 2 ^ 31 - 1) \<and>
        (\<forall>ch \<in> {lo..hi}. \<forall>t \<in> set (y_elems types).
           \<exists>suffix. field_is t ''suffix'' suffix \<and> (\<exists>entry \<in> set ios. field_is entry ''name'' (channel_io_name name ch suffix))))"

lemma clean_for_channels [clean_iff]:
  "clean (for_channels body lo hi) u \<longleftrightarrow> (\<forall>ch \<in> {lo..hi}. clean (body ch) ()) \<and> (lo \<le> hi \<longrightarrow> hi \<noteq> 2 ^ 31 - 1)"
  by (auto simp: for_channels_def clean_iff)

lemma clean_field_is: "clean (field_text n k) t \<longleftrightarrow> field_is n k t"
  by (simp add: clean_iff field_is_def)

lemma clean_check_channel_io:
  "clean (check_channel_io names path g ch t) () \<longleftrightarrow>
     (\<exists>suffix. field_is t ''suffix'' suffix \<and> channel_io_name g ch suffix \<in> set names)"
  by (simp only: check_channel_io_def clean_bind clean_field_is clean_if clean_ret clean_add_error) auto

lemma clean_check_group_io:
  "clean (check_group_io Y names path grp) () \<longleftrightarrow>
     (\<exists>name lo hi types. field_is grp ''name'' name \<and> clean (channel_range Y grp) (lo, hi) \<and> y_sub grp ''io_types'' = Inr types \<and>
        (lo \<le> hi \<longrightarrow> hi \<noteq> 2 ^ 31 - 1) \<and>
        (\<forall>ch \<in> {lo..hi}. \<forall>t \<in> set (y_elems types). \<exists>suffix. field_is t ''suffix'' suffix \<and> channel_io_name name ch suffix \<in> set names))"
  by (simp only: check_group_io_def clean_bind clean_field_is clean_attempt clean_for_channels clean_for_each
      clean_check_channel_io split_paired_Ex prod.case) blast

lemma check_group_io_iff:
  assumes "clean (collect (\<lambda>entry. field_text entry ''name'') ios) names"
  shows "clean (check_group_io Y names path grp) () \<longleftrightarrow> group_covered Y ios grp"
proof -
  have "t \<in> set names \<longleftrightarrow> (\<exists>e \<in> set ios. field_is e ''name'' t)" for t
    using collect_set [OF assms] by (simp add: clean_field_is)
  then show ?thesis by (simp only: clean_check_group_io group_covered_def)
qed

lemma group_io_covered:
  assumes "clean (validate_io_against_channel_groups Y (YSeq ios) (YSeq groups) path) ()" and "grp \<in> set groups"
  shows "group_covered Y ios grp"
  using assms check_group_io_iff by (auto simp: validate_io_against_channel_groups_def clean_bind clean_for_each)

lemma channel_groups_covered:
  assumes "clean (check_channel_groups Y (YMap doc)) ()" and "y_lookup doc ''io'' = YSeq ios"
    and "grp \<in> set (y_elems (y_lookup doc ''channel_groups''))"
  shows "group_covered Y ios grp"
proof -
  have "y_defined (y_lookup doc ''channel_groups'')" using assms(3) by (auto simp: y_defined_def)
  then obtain groups where "y_lookup doc ''channel_groups'' = YSeq groups"
      "clean (validate_io_against_channel_groups Y (YSeq ios) (YSeq groups) []) ()"
    using assms(1,2) by (auto simp: check_channel_groups_def clean_bind clean_attempt clean_add_error is_sequence_iff split: if_splits)
  then show ?thesis using assms(3) group_io_covered by auto
qed

lemma clean_parameter_names:
  assumes "clean (collect parameter_names ps) names" and "p \<in> set (concat names)"
  shows "\<exists>q \<in> set ps. declares q p"
proof -
  obtain q n where q: "q \<in> set ps" "clean (parameter_names q) n" "p \<in> set n"
    using assms collect_set [OF assms(1)] by auto
  then have "declares q p"
    by (auto simp: parameter_names_def declares_def clean_iff is_scalar_iff split: if_splits)
  with q(1) show ?thesis by blast
qed

lemma clean_check_placeholders [clean_iff]:
  "clean (check_placeholders path allowed cg t) u \<longleftrightarrow>
     (\<forall>p \<in> set (placeholders t). p \<in> set allowed) \<and> (cg \<noteq> [] \<longrightarrow> cg \<in> set (placeholders t))"
  by (auto simp: check_placeholders_def clean_iff)

lemma clean_check_template:
  assumes "clean (check_template (YMap cmds) name (YSeq params) (YScalar t)) ()"
  shows "\<forall>p \<in> set (placeholders t). (\<exists>q \<in> set params. declares q p) \<or> y_sub (y_lookup cmds name) ''channel_group'' = Inr (YScalar p)"
    and "\<forall>c. y_sub (y_lookup cmds name) ''channel_group'' = Inr (YScalar c) \<longrightarrow> c \<noteq> [] \<longrightarrow> c \<in> set (placeholders t)"
proof -
  obtain names cg where n: "clean (collect parameter_names params) names"
      and c: "y_sub (y_lookup cmds name) ''channel_group'' = Inr cg"
      and r: "clean (if y_defined cg then
           if \<not> is_scalar cg then add_error [''commands'', name] ''channel_group must be a scalar string if defined''
           else bindc (as_text cg) (\<lambda>g. check_placeholders [''commands'', name] (concat names @ [g]) g t)
         else check_placeholders [''commands'', name] (concat names) [] t) ()"
    using assms unfolding check_template_def clean_bind clean_attempt clean_as_text
    by (simp only: yaml_as_string.simps y_sub.simps sum.inject y_defined_simps is_sequence.simps simp_thms if_True y_elems.simps)
      (auto simp: clean_bind clean_attempt clean_undefined split: if_split_asm)
  note d = clean_parameter_names [OF n]
  show "\<forall>p \<in> set (placeholders t). (\<exists>q \<in> set params. declares q p) \<or> y_sub (y_lookup cmds name) ''channel_group'' = Inr (YScalar p)"
  proof
    fix p assume p: "p \<in> set (placeholders t)"
    show "(\<exists>q \<in> set params. declares q p) \<or> y_sub (y_lookup cmds name) ''channel_group'' = Inr (YScalar p)"
    proof (cases "p \<in> set (concat names)")
      case False
      then have "cg = YScalar p"
        using r p by (auto simp: clean_iff is_scalar_iff split: if_split_asm)
      then show ?thesis using c by simp
    qed (use d in blast)
  qed
  show "\<forall>c. y_sub (y_lookup cmds name) ''channel_group'' = Inr (YScalar c) \<longrightarrow> c \<noteq> [] \<longrightarrow> c \<in> set (placeholders t)"
    using r c by (auto simp: clean_iff is_scalar_iff split: if_split_asm)
qed

lemma clean_check_command:
  assumes "clean (check_command (YMap cmds) e) ()"
  shows "command_ok cmds e"
proof -
  obtain key cmd where e: "e = (key, cmd)" by fastforce
  obtain name where k: "yaml_as_string key = Inr name"
      and f: "\<forall>k \<in> {''template'', ''parameters'', ''outputs''}. \<exists>v. y_sub cmd k = Inr v \<and> y_defined v"
    using assms unfolding e check_command_def Let_def by (auto simp: clean_bind clean_as_text clean_require_fields)
  then obtain kvs where m: "cmd = YMap kvs" by (cases cmd) auto
  have "is_sequence (y_lookup kvs ''parameters'')" "is_sequence (y_lookup kvs ''outputs'')"
      and t0: "is_scalar (y_lookup kvs ''template'') \<longrightarrow> clean (check_template (YMap cmds) name (y_lookup kvs ''parameters'') (y_lookup kvs ''template'')) ()"
    using assms k f unfolding e m check_command_def Let_def
    by (auto simp: clean_bind clean_as_text clean_require_fields clean_attempt clean_add_error split: if_splits)
  then obtain params outs where s: "y_lookup kvs ''parameters'' = YSeq params" "y_lookup kvs ''outputs'' = YSeq outs"
    unfolding is_sequence_iff by blast
  have "clean (check_template (YMap cmds) name (YSeq params) (YScalar t)) ()" if "y_lookup kvs ''template'' = YScalar t" for t
    using t0 that s(1) by simp
  note t = clean_check_template [OF this]
  show ?thesis
    unfolding command_ok_def using k s f t by (intro exI [of _ name] exI [of _ kvs] exI [of _ params] exI [of _ outs]) (simp add: e m y_defined_def)
qed

text \<open>C24: An instrument API that the validator accepts has the required sections; every entry of its \<^verbatim>\<open>io\<close> section is a
  map with a name, a type and a role; every name its channel groups stand for is in the \<^verbatim>\<open>io\<close> section; and
  every placeholder of a command template is a declared parameter or the channel group of the command,
  whose own placeholder is present. Every command has lists \<^verbatim>\<open>parameters\<close> and \<^verbatim>\<open>outputs\<close>, as the JSON schema says; \<^verbatim>\<open>docs/CONFIGURATION.md\<close>
  calls both optional, and says of channel groups that their \<^verbatim>\<open>io\<close> entries are created automatically, where the validator demands
  them.\<close>

theorem valid_api_guarantees:
  assumes "validate_instrument_api Y path = Some r" and "vr_valid r"
  shows "\<exists>doc ios cmds. yl_load_file Y path = Inr (YMap doc) \<and>
    (\<forall>k \<in> {''api_version'', ''instrument'', ''protocol''}. y_defined (y_lookup doc k)) \<and>
    y_lookup doc ''io'' = YSeq ios \<and> y_lookup doc ''commands'' = YMap cmds \<and>
    (\<forall>e \<in> set ios. \<exists>kvs. e = YMap kvs \<and> (\<forall>k \<in> {''name'', ''type'', ''role''}. y_defined (y_lookup kvs k))) \<and>
    (\<forall>grp \<in> set (y_elems (y_lookup doc ''channel_groups'')). group_covered Y ios grp) \<and>
    (\<forall>e \<in> set cmds. command_ok cmds e)"
proof -
  obtain root where l: "yl_load_file Y path = Inr root" and c: "clean (check_api Y root) ()"
    using assms by (auto simp: validate_instrument_api_def valid_iff_clean clean_bind clean_attempt)
  then have f: "\<forall>k \<in> {''api_version'', ''instrument'', ''protocol'', ''io'', ''commands''}. \<exists>v. y_sub root k = Inr v \<and> y_defined v"
      and io: "clean (check_io root) ()" and g: "clean (check_channel_groups Y root) ()" and cm: "clean (check_commands root) ()"
    by (auto simp: check_api_def clean_bind clean_require_fields)
  then obtain doc where m: "root = YMap doc" by (cases root) auto
  obtain ios where ios: "y_lookup doc ''io'' = YSeq ios" "\<forall>e \<in> set (enumerate 0 ios). clean (check_io_entry e) ()"
    using io by (auto simp: check_io_def m clean_iff is_sequence_iff split: if_splits)
  have e: "\<exists>kvs. e = YMap kvs \<and> (\<forall>k \<in> {''name'', ''type'', ''role''}. y_defined (y_lookup kvs k))" if "e \<in> set ios" for e
  proof -
    obtain i where "i < length ios" "ios ! i = e" using \<open>e \<in> set ios\<close> by (auto simp: in_set_conv_nth)
    then have "(i, e) \<in> set (enumerate 0 ios)" by (simp add: in_set_enumerate_eq)
    then have "clean (check_io_entry (i, e)) ()" using ios(2) by blast
    then show ?thesis by (auto simp: check_io_entry_def clean_iff is_map_iff split: if_splits)
  qed
  have gr: "group_covered Y ios grp" if "grp \<in> set (y_elems (y_lookup doc ''channel_groups''))" for grp
    using channel_groups_covered [OF g [unfolded m] ios(1) that] .
  obtain cmds where "y_lookup doc ''commands'' = YMap cmds" "\<forall>e \<in> set cmds. clean (check_command (YMap cmds) e) ()"
    using cm by (auto simp: check_commands_def m clean_iff is_map_iff split: if_splits)
  then show ?thesis
    using l m f ios(1) e gr clean_check_command
    by (intro exI [of _ doc] exI [of _ ios] exI [of _ cmds]) (simp add: y_defined_def)
qed

end
