(* ===== verification/Template_Tools.thy ===== *)
theory Template_Tools
  imports Schema_Meaning
begin

text \<open>
  The two generators: \<^verbatim>\<open>src/template_expander.cpp\<close> writes the entries a channel group stands for into the
  \<^verbatim>\<open>io\<close> section of an instrument API, and \<^verbatim>\<open>src/instrument_configuration_generator.cpp\<close> makes a configuration
  from an API. Their output is what the validators of \<^verbatim>\<open>Schema_Validator\<close> ask for.
\<close>

section \<open>The template expander\<close>

fun foldc :: "('a \<Rightarrow> 's \<Rightarrow> 's check) \<Rightarrow> 'a list \<Rightarrow> 's \<Rightarrow> 's check" where
  "foldc f [] s = ret s"
| "foldc f (x # xs) s = bindc (f x s) (foldc f xs)"

definition text_node :: "string \<Rightarrow> string \<Rightarrow> yaml \<times> yaml" where
  "text_node k t = (YScalar k, YScalar t)"

definition optional_text :: "string \<Rightarrow> yaml \<Rightarrow> (yaml \<times> yaml) list check" where
  "optional_text k n =
     bindc (attempt (y_sub n k)) (\<lambda>v. if y_defined v then bindc (as_text v) (\<lambda>t. ret [text_node k t]) else ret [])"

definition expanded_entry :: "string \<Rightarrow> int \<Rightarrow> yaml \<Rightarrow> yaml check" where
  "expanded_entry group_name ch io_type =
     bindc (field_text io_type ''suffix'') (\<lambda>suffix.
     bindc (field_text io_type ''type'') (\<lambda>ty.
     bindc (field_text io_type ''role'') (\<lambda>role.
     bindc (optional_text ''description'' io_type) (\<lambda>d.
     bindc (optional_text ''unit'' io_type) (\<lambda>u.
       ret (YMap ([text_node ''name'' (channel_io_name group_name ch suffix), text_node ''type'' ty, text_node ''role'' role] @ d @ u)))))))"

text \<open>\<^verbatim>\<open>root["io"].push_back(io_entry)\<close>.\<close>

definition push_io :: "yaml \<Rightarrow> yaml \<Rightarrow> yaml check" where
  "push_io entry root =
     bindc (attempt (y_sub root ''io'')) (\<lambda>io.
     bindc (attempt (y_push entry io)) (\<lambda>io'. attempt (y_set ''io'' io' root)))"

definition expand_group :: "yaml_lib \<Rightarrow> yaml \<Rightarrow> yaml \<Rightarrow> yaml check" where
  "expand_group Y grp root =
     bindc (field_text grp ''name'') (\<lambda>group_name.
     bindc (channel_range Y grp) (\<lambda>(min_ch, max_ch).
     bindc (attempt (y_sub grp ''io_types'')) (\<lambda>io_types.
     bindc (foldc (\<lambda>ch. foldc (\<lambda>io_type root. bindc (expanded_entry group_name ch io_type) (\<lambda>e. push_io e root)) (y_elems io_types))
       [min_ch..max_ch] root) (\<lambda>root'.
       if min_ch \<le> max_ch \<and> max_ch = 2 ^ 31 - 1 then undefined_behaviour else ret root'))))"

text \<open>The variable \<^verbatim>\<open>io\<close> refers to the node in the document, so that the assignment of an empty sequence to it adds the section.\<close>

definition expand_channel_groups :: "yaml_lib \<Rightarrow> yaml \<Rightarrow> yaml check" where
  "expand_channel_groups Y root =
     bindc (attempt (y_sub root ''io'')) (\<lambda>io.
     bindc (if y_defined io then ret root else attempt (y_set ''io'' (YSeq []) root)) (\<lambda>root1.
     bindc (attempt (y_sub root1 ''channel_groups'')) (\<lambda>groups.
       if \<not> y_defined groups then ret root1 else foldc (expand_group Y) (y_elems groups) root1)))"

fun unique_entries :: "yaml list \<Rightarrow> string list \<Rightarrow> yaml list check" where
  "unique_entries [] seen = ret []"
| "unique_entries (e # es) seen =
     bindc (field_text e ''name'') (\<lambda>name.
       if name \<in> set seen then unique_entries es seen
       else bindc (unique_entries es (name # seen)) (\<lambda>es'. ret (e # es')))"

definition deduplicate_io :: "yaml \<Rightarrow> yaml check" where
  "deduplicate_io root =
     bindc (attempt (y_sub root ''io'')) (\<lambda>io.
       if \<not> y_defined io \<or> \<not> is_sequence io then ret root
       else bindc (unique_entries (y_elems io) []) (\<lambda>es. attempt (y_set ''io'' (YSeq es) root)))"

text \<open>The exit status and the document that is written, with its path; an exception ends the program.\<close>

definition expander_main :: "yaml_lib \<Rightarrow> string list \<Rightarrow> (int \<times> (string \<times> yaml) option) check" where
  "expander_main Y args =
     (case args of
        [inp, outp] \<Rightarrow>
          bindc (attempt (yl_load_file Y inp)) (\<lambda>root.
          bindc (expand_channel_groups Y root) (\<lambda>root1.
          bindc (deduplicate_io root1) (\<lambda>root2. ret (0, Some (outp, root2)))))
      | _ \<Rightarrow> ret (1, None))"

section \<open>The configuration generator\<close>

definition config_entry :: "string \<Rightarrow> yaml \<Rightarrow> yaml check" where
  "config_entry role io =
     bindc (field_text io ''type'') (\<lambda>ty.
     bindc (optional_text ''unit'' io) (\<lambda>u.
       ret (YMap ([text_node ''type'' ty, text_node ''role'' role] @ u @ [text_node ''offset'' ''0'', text_node ''scale'' ''1'']))))"

definition generate_io :: "yaml \<Rightarrow> yaml \<Rightarrow> yaml check" where
  "generate_io io io_config =
     bindc (field_text io ''role'') (\<lambda>role.
       if role \<in> {''input'', ''output'', ''inout''}
       then bindc (field_text io ''name'') (\<lambda>name.
            bindc (config_entry role io) (\<lambda>e. attempt (y_set name e io_config)))
       else ret io_config)"

definition generate_instrument_configuration :: "yaml_lib \<Rightarrow> string \<Rightarrow> yaml check" where
  "generate_instrument_configuration Y api_yaml_path =
     bindc (attempt (yl_load_file Y api_yaml_path)) (\<lambda>api.
     bindc (attempt (y_sub api ''io'')) (\<lambda>ios.
     bindc (foldc generate_io (y_elems ios) YNull) (\<lambda>io_config.
       ret (YMap [text_node ''name'' ''INSTRUMENT_NAME'', text_node ''api_ref'' api_yaml_path,
         (YScalar ''connection'', YMap [text_node ''type'' ''VISA'', text_node ''address'' ''TCPIP::192.168.0.1::INSTR::0'']),
         (YScalar ''io_config'', io_config)]))))"

definition generator_main :: "yaml_lib \<Rightarrow> string list \<Rightarrow> (int \<times> (string \<times> yaml) option) check" where
  "generator_main Y args =
     (case args of
        [api, outp] \<Rightarrow> bindc (generate_instrument_configuration Y api) (\<lambda>config. ret (0, Some (outp, config)))
      | _ \<Rightarrow> ret (1, None))"

section \<open>Accumulating a document\<close>

text \<open>Both programs fold over the entries of a document. When a fold only ever moves along a transitive relation
  that its states are in with themselves, what each element brings about holds at the end.\<close>

locale accumulation =
  fixes le :: "'s \<Rightarrow> 's \<Rightarrow> bool"
  assumes trans: "le a b \<Longrightarrow> le b c \<Longrightarrow> le a c"
    and refl_right: "le a b \<Longrightarrow> le b b"
begin

lemma foldc_each:
  assumes "clean (foldc f xs s) t" and "le s s"
    and step: "\<And>x s t. x \<in> set xs \<Longrightarrow> le s s \<Longrightarrow> clean (f x s) t \<Longrightarrow> le s t \<and> Q x t"
    and mono: "\<And>x s t. Q x s \<Longrightarrow> le s t \<Longrightarrow> Q x t"
  shows "le s t \<and> (\<forall>x \<in> set xs. Q x t)"
  using assms(1,2) step
proof (induction xs arbitrary: s)
  case Nil
  then show ?case by (simp add: clean_iff)
next
  case (Cons x xs)
  then obtain u where u: "clean (f x s) u" "clean (foldc f xs u) t" by (auto simp: clean_bind)
  have a: "le s u \<and> Q x u" using Cons.prems(3) [of x s u] Cons.prems(2) u(1) by simp
  have "le u t \<and> (\<forall>x \<in> set xs. Q x t)"
  proof (rule Cons.IH [OF u(2)])
    show "le u u" using a refl_right by blast
    show "le v w \<and> Q y w" if "y \<in> set xs" "le v v" "clean (f y v) w" for y v w
      using Cons.prems(3) [of y v w] that by simp
  qed
  then show ?case using a trans mono by auto
qed

end

text \<open>The expander adds to the \<^verbatim>\<open>io\<close> sequence of a map and changes nothing else.\<close>

definition io_grows :: "yaml \<Rightarrow> yaml \<Rightarrow> bool" where
  "io_grows r r' \<longleftrightarrow> (\<exists>kvs kvs' ns more. r = YMap kvs \<and> r' = YMap kvs' \<and> y_lookup kvs ''io'' = YSeq ns \<and>
     y_lookup kvs' ''io'' = YSeq (ns @ more) \<and> (\<forall>k. k \<noteq> ''io'' \<longrightarrow> y_lookup kvs' k = y_lookup kvs k))"

interpretation io: accumulation io_grows
  by unfold_locales (fastforce simp: io_grows_def)+

definition ios_of :: "yaml \<Rightarrow> yaml list" where
  "ios_of r = (case y_sub r ''io'' of Inr n \<Rightarrow> y_elems n | Inl e \<Rightarrow> [])"

lemma io_grows_refl: "io_grows r r \<longleftrightarrow> (\<exists>kvs ns. r = YMap kvs \<and> y_lookup kvs ''io'' = YSeq ns)"
  by (auto simp: io_grows_def)

lemma io_grows_ios: "io_grows r r' \<Longrightarrow> set (ios_of r) \<subseteq> set (ios_of r')"
  by (auto simp: io_grows_def ios_of_def)

lemma push_io_grows:
  assumes "clean (push_io e r) r'" and "io_grows r r"
  shows "io_grows r r' \<and> e \<in> set (ios_of r')"
  using assms by (auto simp: push_io_def clean_iff io_grows_def ios_of_def)

lemma expanded_entry_name:
  assumes "clean (expanded_entry g ch t) e"
  shows "\<exists>suffix. field_is t ''suffix'' suffix \<and> field_is e ''name'' (channel_io_name g ch suffix)"
  using assms by (auto simp: expanded_entry_def clean_bind clean_field_is clean_ret) (auto simp: field_is_def text_node_def)

text \<open>Some entry of the document has the name for a channel and a type of entry.\<close>

definition has_channel :: "string \<Rightarrow> int \<Rightarrow> yaml \<Rightarrow> yaml \<Rightarrow> bool" where
  "has_channel g ch t r \<longleftrightarrow>
     (\<exists>suffix. field_is t ''suffix'' suffix \<and> (\<exists>e \<in> set (ios_of r). field_is e ''name'' (channel_io_name g ch suffix)))"

lemma has_channel_mono: "has_channel g ch t r \<Longrightarrow> io_grows r r' \<Longrightarrow> has_channel g ch t r'"
  using io_grows_ios by (fastforce simp: has_channel_def)

lemma expand_channel:
  assumes "clean (foldc (\<lambda>t root. bindc (expanded_entry g ch t) (\<lambda>e. push_io e root)) ts r) r'" and "io_grows r r"
  shows "io_grows r r' \<and> (\<forall>t \<in> set ts. has_channel g ch t r')"
proof (rule io.foldc_each [OF assms])
  fix t s s' assume "io_grows s s" "clean (bindc (expanded_entry g ch t) (\<lambda>e. push_io e s)) s'"
  then show "io_grows s s' \<and> has_channel g ch t s'"
    unfolding clean_bind has_channel_def using push_io_grows expanded_entry_name by meson
qed (rule has_channel_mono)

lemma expand_group_covers:
  assumes "clean (expand_group Y grp r) r'" and "io_grows r r"
  shows "io_grows r r' \<and> group_covered Y (ios_of r') grp"
proof -
  obtain name lo hi types where a: "field_is grp ''name'' name" "clean (channel_range Y grp) (lo, hi)" "y_sub grp ''io_types'' = Inr types"
      "lo \<le> hi \<longrightarrow> hi \<noteq> 2 ^ 31 - 1"
      and f: "clean (foldc (\<lambda>ch. foldc (\<lambda>t root. bindc (expanded_entry name ch t) (\<lambda>e. push_io e root)) (y_elems types)) [lo..hi] r) r'"
    using assms(1) by (auto simp: expand_group_def clean_bind clean_field_is clean_attempt clean_ret clean_undefined split: if_splits)
  have "io_grows r r' \<and> (\<forall>ch \<in> set [lo..hi]. \<forall>t \<in> set (y_elems types). has_channel name ch t r')"
    by (rule io.foldc_each [OF f assms(2)]) (use expand_channel has_channel_mono in blast)+
  then show ?thesis using a unfolding group_covered_def has_channel_def by auto
qed

lemma unique_entries_names:
  assumes "clean (unique_entries es seen) es'"
  shows "\<exists>names. list_all2 (\<lambda>e n. field_is e ''name'' n) es' names \<and> distinct names \<and>
    set names = {n. \<exists>e \<in> set es. field_is e ''name'' n} - set seen"
  using assms
proof (induction es arbitrary: seen es')
  case Nil
  then show ?case by (simp add: clean_iff)
next
  case (Cons e es)
  then obtain n where n: "field_is e ''name'' n"
      and r: "clean (if n \<in> set seen then unique_entries es seen else bindc (unique_entries es (n # seen)) (\<lambda>es'. ret (e # es'))) es'"
    by (auto simp: clean_bind clean_field_is)
  have u: "field_is e ''name'' m \<longleftrightarrow> m = n" for m using n by (auto simp: field_is_def)
  show ?case
  proof (cases "n \<in> set seen")
    case True
    then show ?thesis using Cons.IH [of seen es'] r u by auto
  next
    case False
    then obtain es'' where e: "es' = e # es''" "clean (unique_entries es (n # seen)) es''" using r by (auto simp: clean_iff)
    then obtain ns where "list_all2 (\<lambda>e n. field_is e ''name'' n) es'' ns" "distinct ns"
        "set ns = {m. \<exists>e \<in> set es. field_is e ''name'' m} - set (n # seen)"
      using Cons.IH by blast
    then show ?thesis using e(1) n u False by (intro exI [of _ "n # ns"]) auto
  qed
qed

lemma group_covered_names:
  assumes "group_covered Y ios grp" and "\<And>t e. e \<in> set ios \<Longrightarrow> field_is e ''name'' t \<Longrightarrow> \<exists>e \<in> set ios'. field_is e ''name'' t"
  shows "group_covered Y ios' grp"
  using assms unfolding group_covered_def by meson

lemma expand_covers:
  assumes "clean (expand_channel_groups Y (YMap doc)) r" and "y_lookup doc ''io'' = YUndefined \<or> y_lookup doc ''io'' = YSeq ns"
  shows "\<exists>kvs ios. r = YMap kvs \<and> y_lookup kvs ''io'' = YSeq ios \<and> (\<forall>k. k \<noteq> ''io'' \<longrightarrow> y_lookup kvs k = y_lookup doc k) \<and>
    set (y_elems (y_lookup doc ''io'')) \<subseteq> set ios \<and>
    (\<forall>grp \<in> set (y_elems (y_lookup doc ''channel_groups'')). group_covered Y ios grp)"
proof -
  let ?groups = "y_lookup doc ''channel_groups''"
  define kvs1 where "kvs1 = (if y_defined (y_lookup doc ''io'') then doc else y_put ''io'' (YSeq []) doc)"
  obtain ns1 where s: "y_lookup kvs1 ''io'' = YSeq ns1" "set (y_elems (y_lookup doc ''io'')) \<subseteq> set ns1"
      "\<forall>k. k \<noteq> ''io'' \<longrightarrow> y_lookup kvs1 k = y_lookup doc k"
    using assms(2) by (auto simp: kvs1_def)
  have f: "clean (if \<not> y_defined ?groups then ret (YMap kvs1) else foldc (expand_group Y) (y_elems ?groups) (YMap kvs1)) r"
    using assms by (auto simp: expand_channel_groups_def kvs1_def clean_bind clean_attempt clean_ret)
  have s1: "io_grows (YMap kvs1) (YMap kvs1)" using s(1) by (simp add: io_grows_refl)
  have "io_grows (YMap kvs1) r \<and> (\<forall>grp \<in> set (y_elems ?groups). group_covered Y (ios_of r) grp)"
  proof (cases "y_defined ?groups")
    case True
    then have "clean (foldc (expand_group Y) (y_elems ?groups) (YMap kvs1)) r" using f by simp
    then show ?thesis
    proof (rule io.foldc_each [OF _ s1])
      show "group_covered Y (ios_of v) grp" if "group_covered Y (ios_of u) grp" "io_grows u v" for grp u v
        using group_covered_names [OF that(1)] io_grows_ios [OF that(2)] by blast
    qed (rule expand_group_covers)
  qed (use f s1 in \<open>auto simp: clean_ret y_defined_def\<close>)
  then show ?thesis using s by (auto simp: io_grows_def ios_of_def)
qed

lemma clean_collect_ex: "(\<And>x. x \<in> set xs \<Longrightarrow> \<exists>y. clean (f x) y) \<Longrightarrow> \<exists>ys. clean (collect f xs) ys"
proof (induction xs)
  case (Cons x xs)
  then obtain y ys where "clean (f x) y" "clean (collect f xs) ys" by fastforce
  then show ?case by (auto simp: clean_bind clean_ret)
qed (simp add: ret_def)

text \<open>C25: What the template expander writes passes the check of the validator for the channel groups it was expanded from:
  every channel has its entries in \<^verbatim>\<open>io\<close>. The names there are distinct, no name that was there is lost, and
  the other sections are unchanged.\<close>

theorem expanded_template_covers_groups:
  assumes "yl_load_file Y inp = Inr (YMap doc)" and "y_lookup doc ''io'' = YUndefined \<or> y_lookup doc ''io'' = YSeq ns"
    and "expander_main Y [inp, outp] = ([], Inr (0, Some (outp, root)))"
  shows "\<exists>kvs ios names. root = YMap kvs \<and> y_lookup kvs ''io'' = YSeq ios \<and>
    validate_io_against_channel_groups Y (YSeq ios) (y_lookup kvs ''channel_groups'') path = ([], Inr ()) \<and>
    list_all2 (\<lambda>e n. field_is e ''name'' n) ios names \<and> distinct names \<and>
    (\<forall>e \<in> set (y_elems (y_lookup doc ''io'')). \<forall>n. field_is e ''name'' n \<longrightarrow> n \<in> set names) \<and>
    (\<forall>k. k \<noteq> ''io'' \<longrightarrow> y_lookup kvs k = y_lookup doc k)"
proof -
  obtain r where e: "clean (expand_channel_groups Y (YMap doc)) r" and d: "clean (deduplicate_io r) root"
    using assms(1,3) by (auto simp: expander_main_def clean_iff)
  obtain kvs1 es where r: "r = YMap kvs1" "y_lookup kvs1 ''io'' = YSeq es" "\<forall>k. k \<noteq> ''io'' \<longrightarrow> y_lookup kvs1 k = y_lookup doc k"
      "set (y_elems (y_lookup doc ''io'')) \<subseteq> set es" "\<forall>grp \<in> set (y_elems (y_lookup doc ''channel_groups'')). group_covered Y es grp"
    using expand_covers [OF e assms(2)] by blast
  obtain ios where u: "clean (unique_entries es []) ios" "root = YMap (y_put ''io'' (YSeq ios) kvs1)"
    using d r(1,2) by (auto simp: deduplicate_io_def clean_iff)
  obtain names where n: "list_all2 (\<lambda>e n. field_is e ''name'' n) ios names" "distinct names"
      "set names = {n. \<exists>e \<in> set es. field_is e ''name'' n}"
    using unique_entries_names [OF u(1)] by auto
  have nm: "\<exists>e \<in> set ios. field_is e ''name'' t" if "t \<in> set names" for t
    using n(1) that by (metis in_set_conv_nth list_all2_conv_all_nth)
  have each: "\<exists>n. field_is e ''name'' n" if "e \<in> set ios" for e
    using n(1) that by (metis in_set_conv_nth list_all2_conv_all_nth)
  obtain ts where ts: "clean (collect (\<lambda>entry. field_text entry ''name'') ios) ts"
    using clean_collect_ex [of ios "\<lambda>entry. field_text entry ''name''"] each by (auto simp: clean_field_is)
  have "group_covered Y ios grp" if "grp \<in> set (y_elems (y_lookup doc ''channel_groups''))" for grp
    using group_covered_names r(5) that nm n(3) by blast
  then have "clean (validate_io_against_channel_groups Y (YSeq ios) (y_lookup doc ''channel_groups'') path) ()"
    using ts check_group_io_iff [OF ts]
    by (auto simp: validate_io_against_channel_groups_def clean_bind clean_for_each clean_ret)
  then show ?thesis using u(2) n r(3,4) by (intro exI [of _ "y_put ''io'' (YSeq ios) kvs1"] exI [of _ ios] exI [of _ names]) auto
qed

section \<open>Generated configurations\<close>

abbreviation config_roles :: "string set" where
  "config_roles \<equiv> {''input'', ''output'', ''inout''}"

abbreviation config_types :: "string set" where
  "config_types \<equiv> {''int'', ''float'', ''string'', ''bool''}"

text \<open>A configuration section whose entries all pass.\<close>

fun io_config_ok :: "yaml \<Rightarrow> bool" where
  "io_config_ok YNull = True"
| "io_config_ok (YMap kvs) = (\<forall>e \<in> set kvs. check_config_io e = ([], Inr ()))"
| "io_config_ok _ = False"

text \<open>The section stays correct, and once it is a map it stays one.\<close>

definition config_grows :: "yaml \<Rightarrow> yaml \<Rightarrow> bool" where
  "config_grows c c' \<longleftrightarrow> io_config_ok c \<and> io_config_ok c' \<and> (is_map c \<longrightarrow> is_map c')"

interpretation cfg: accumulation config_grows
  by unfold_locales (auto simp: config_grows_def)

lemma y_put_set: "set (y_put k v kvs) \<subseteq> insert (YScalar k, v) (set kvs)"
  by (induction k v kvs rule: y_put.induct) auto

lemma config_io_passes:
  assumes "y_lookup kvs ''type'' = YScalar ty" "ty \<in> config_types" "y_lookup kvs ''role'' = YScalar role" "role \<in> config_roles"
    and "y_lookup kvs ''offset'' = YScalar x" "y_lookup kvs ''scale'' = YScalar y"
  shows "clean (check_config_io (YScalar name, YMap kvs)) ()"
proof -
  have "clean (one_of path k allowed msg (YMap kvs)) ()" if "y_lookup kvs k = YScalar t" "t \<in> set allowed" for path k allowed msg t
    using that by (simp add: one_of_def clean_bind clean_attempt clean_as_text clean_ret)
  moreover have "clean (scalar_if_present path k (YMap kvs)) ()" if "y_lookup kvs k = YScalar t" for path k t
    using that by (simp add: scalar_if_present_def clean_bind clean_attempt clean_ret)
  ultimately show ?thesis
    using assms by (simp add: check_config_io_def Let_def clean_bind clean_as_text clean_require_fields)
qed

lemma config_entry_ok:
  assumes "clean (config_entry role io) e" and "role \<in> config_roles" and "field_is io ''type'' ty" and "ty \<in> config_types"
  shows "clean (check_config_io (YScalar name, e)) ()"
proof -
  obtain ty' u where u: "clean (optional_text ''unit'' io) u" "field_is io ''type'' ty'"
      and e: "e = YMap ([text_node ''type'' ty', text_node ''role'' role] @ u @ [text_node ''offset'' ''0'', text_node ''scale'' ''1''])"
    using assms(1) by (auto simp: config_entry_def clean_bind clean_field_is clean_ret)
  have ty: "ty' = ty" using u(2) assms(3) by (auto simp: field_is_def)
  have "u = [] \<or> (\<exists>t. u = [text_node ''unit'' t])"
    using u(1) by (auto simp: optional_text_def clean_bind clean_attempt clean_ret split: if_split_asm)
  then show ?thesis
    unfolding e ty using assms(2,4) by (intro config_io_passes [where ty = ty and role = role]) (auto simp: text_node_def)
qed

lemma generate_io_step:
  assumes "clean (generate_io io c) c'" and "io_config_ok c"
    and "\<And>role. field_is io ''role'' role \<Longrightarrow> role \<in> config_roles \<Longrightarrow> \<exists>ty \<in> config_types. field_is io ''type'' ty"
  shows "config_grows c c' \<and> (\<forall>role. field_is io ''role'' role \<longrightarrow> role \<in> config_roles \<longrightarrow> is_map c')"
proof -
  obtain role where r: "field_is io ''role'' role"
      and rest: "clean (if role \<in> config_roles then bindc (field_text io ''name'') (\<lambda>name.
        bindc (config_entry role io) (\<lambda>e. attempt (y_set name e c))) else ret c) c'"
    using assms(1) by (auto simp: generate_io_def clean_bind clean_field_is)
  have one: "role' = role" if "field_is io ''role'' role'" for role' using that r by (auto simp: field_is_def)
  show ?thesis
  proof (cases "role \<in> config_roles")
    case True
    then obtain name e ty where "clean (config_entry role io) e" "y_set name e c = Inr c'" "field_is io ''type'' ty" "ty \<in> config_types"
      using rest assms(3) [OF r True] by (auto simp: clean_bind clean_attempt)
    then have "clean (check_config_io (YScalar name, e)) ()" "y_set name e c = Inr c'" using config_entry_ok True by blast+
    then show ?thesis
      using assms(2) y_put_set [of name e] by (cases c) (auto simp: config_grows_def, blast+)
  next
    case False
    then show ?thesis using rest assms(2) one by (auto simp: clean_ret config_grows_def)
  qed
qed

lemma generate_all:
  assumes "clean (foldc generate_io ios YNull) c"
    and "\<And>io role. io \<in> set ios \<Longrightarrow> field_is io ''role'' role \<Longrightarrow> role \<in> config_roles \<Longrightarrow> \<exists>ty \<in> config_types. field_is io ''type'' ty"
  shows "io_config_ok c \<and> (\<forall>io \<in> set ios. \<forall>role. field_is io ''role'' role \<longrightarrow> role \<in> config_roles \<longrightarrow> is_map c)"
proof -
  have "config_grows YNull c \<and> (\<forall>io \<in> set ios. \<forall>role. field_is io ''role'' role \<longrightarrow> role \<in> config_roles \<longrightarrow> is_map c)"
    using assms(1)
  proof (rule cfg.foldc_each)
    show "config_grows YNull YNull" by (simp add: config_grows_def)
    show "config_grows s t \<and> (\<forall>role. field_is x ''role'' role \<longrightarrow> role \<in> config_roles \<longrightarrow> is_map t)"
      if "x \<in> set ios" "config_grows s s" "clean (generate_io x s) t" for x s t
      using generate_io_step [OF that(3)] that(1,2) assms(2) by (simp add: config_grows_def)
  qed (auto simp: config_grows_def)
  then show ?thesis by (simp add: config_grows_def)
qed

lemma generated_sections:
  assumes "clean (generate_instrument_configuration Y api) config" and "yl_load_file Y api = Inr doc" and "y_sub doc ''io'' = Inr ios"
  shows "\<exists>c. clean (foldc generate_io (y_elems ios) YNull) c \<and>
    (check_configuration config = ([], Inr ()) \<longleftrightarrow> is_map c \<and> io_config_ok c)"
proof -
  obtain c where f: "clean (foldc generate_io (y_elems ios) YNull) c"
      and c: "config = YMap [text_node ''name'' ''INSTRUMENT_NAME'', text_node ''api_ref'' api,
         (YScalar ''connection'', YMap [text_node ''type'' ''VISA'', text_node ''address'' ''TCPIP::192.168.0.1::INSTR::0'']),
         (YScalar ''io_config'', c)]"
    using assms by (auto simp: generate_instrument_configuration_def clean_bind clean_attempt clean_ret)
  have "clean (check_configuration config) () \<longleftrightarrow> is_map c \<and> io_config_ok c"
    unfolding c check_configuration_def check_connection_type_def
    by (cases c) (auto simp: clean_bind clean_attempt clean_ret clean_require_fields clean_for_each clean_add_error text_node_def)
  then show ?thesis using f by blast
qed

text \<open>C39: The configuration generated from an instrument API passes the configuration validator once it is written and read back,
  when the API has an input, an output or an entry that is both, and the types of these entries are the four types of
  a configuration.\<close>

theorem generated_configuration_valid:
  assumes "yl_load_file Y api = Inr doc" and "y_sub doc ''io'' = Inr ios"
    and "\<forall>io \<in> set (y_elems ios). \<forall>role \<in> config_roles. field_is io ''role'' role \<longrightarrow> (\<exists>ty \<in> config_types. field_is io ''type'' ty)"
    and "io0 \<in> set (y_elems ios)" and "field_is io0 ''role'' role0" and "role0 \<in> config_roles"
    and "generator_main Y [api, outp] = ([], Inr (0, Some (outp, config)))" and "yl_load_file Y' outp = Inr config"
  shows "config_validator_main Y' [outp] = Some (0, [''Validation succeeded.''])"
proof -
  have g: "clean (generate_instrument_configuration Y api) config"
    using assms(7) by (auto simp: generator_main_def clean_bind clean_ret)
  obtain c where c: "clean (foldc generate_io (y_elems ios) YNull) c" "clean (check_configuration config) () \<longleftrightarrow> is_map c \<and> io_config_ok c"
    using generated_sections [OF g assms(1,2)] by blast
  then have "clean (check_configuration config) ()" using generate_all [OF c(1)] assms(3-6) by blast
  then show ?thesis
    using assms(8) by (simp add: config_validator_main_def validator_main_def validate_instrument_configuration_def validation_def attempt_def)
qed

text \<open>An API without such an entry gives a configuration that the validator rejects: its \<^verbatim>\<open>io_config\<close> is null.\<close>

lemma configuration_without_io_invalid:
  assumes "yl_load_file Y api = Inr doc" and "y_sub doc ''io'' = Inr ios" and "y_elems ios = []"
    and "generate_instrument_configuration Y api = ([], Inr config)"
  shows "check_configuration config \<noteq> ([], Inr ())"
  using generated_sections [OF assms(4,1,2)] assms(3) by (auto simp: clean_ret)

section \<open>Witnesses\<close>

definition demo_template :: yaml where
  "demo_template = YMap
     [text_node ''api_version'' ''1.0.0'', (YScalar ''instrument'', YMap []), (YScalar ''protocol'', YMap [text_node ''type'' ''VISA'']),
      (YScalar ''channel_groups'', YSeq [YMap
         [text_node ''name'' ''ch'',
          (YScalar ''channel_parameter'', YMap [text_node ''name'' ''c'', text_node ''type'' ''int'', text_node ''min'' ''1'', text_node ''max'' ''2'']),
          (YScalar ''io_types'', YSeq [YMap [text_node ''suffix'' ''v'', text_node ''type'' ''float'', text_node ''role'' ''output'']])]]),
      (YScalar ''commands'', YMap [(YScalar ''READ'', YMap
         [text_node ''template'' ''R{ch} {n}'', (YScalar ''parameters'', YSeq [YMap [text_node ''name'' ''n'']]),
          (YScalar ''outputs'', YSeq []), text_node ''channel_group'' ''ch''])])]"

definition demo_expanded :: yaml where
  "demo_expanded = projr (y_set ''io'' (YSeq
     [YMap [text_node ''name'' ''ch1_v'', text_node ''type'' ''float'', text_node ''role'' ''output''],
      YMap [text_node ''name'' ''ch2_v'', text_node ''type'' ''float'', text_node ''role'' ''output'']]) demo_template)"

definition demo_yaml :: yaml_lib where
  "demo_yaml = \<lparr>yl_load_file = (\<lambda>p. if p = ''in'' then Inr demo_template else if p = ''api'' then Inr demo_expanded else Inl ''bad file''),
     yl_as_int = (\<lambda>_. None), yl_as_int32 = (\<lambda>s. if s = ''1'' then Some 1 else if s = ''2'' then Some 2 else None),
     yl_as_double = (\<lambda>_. None), yl_as_bool = (\<lambda>_. None)\<rparr>"

lemma demo_expander: "expander_main demo_yaml [''in'', ''api''] = ([], Inr (0, Some (''api'', demo_expanded)))"
  by code_simp

lemma demo_api_valid: "validate_instrument_api demo_yaml ''api'' = Some \<lparr>vr_valid = True, vr_errors = [], vr_warnings = []\<rparr>"
  by code_simp

theorem valid_api_guarantees_witness:
  "\<exists>doc ios. yl_load_file demo_yaml ''api'' = Inr (YMap doc) \<and> y_lookup doc ''io'' = YSeq ios \<and>
     (\<forall>grp \<in> set (y_elems (y_lookup doc ''channel_groups'')). group_covered demo_yaml ios grp)"
  using valid_api_guarantees [OF demo_api_valid] by auto

theorem expanded_template_covers_groups_witness:
  "\<exists>kvs ios. demo_expanded = YMap kvs \<and> y_lookup kvs ''io'' = YSeq ios \<and>
     validate_io_against_channel_groups demo_yaml (YSeq ios) (y_lookup kvs ''channel_groups'') [] = ([], Inr ())"
proof -
  obtain doc where d: "demo_template = YMap doc" "y_lookup doc ''io'' = YUndefined"
    by (auto simp: demo_template_def text_node_def)
  then have "yl_load_file demo_yaml ''in'' = Inr (YMap doc)" by (simp add: demo_yaml_def)
  then show ?thesis
    using expanded_template_covers_groups [OF _ _ demo_expander, of doc "[]" "[]"] d(2) by blast
qed

definition demo_config :: yaml where
  "demo_config = projr (snd (generate_instrument_configuration demo_yaml ''api''))"

theorem generated_configuration_valid_witness:
  "generator_main demo_yaml [''api'', ''cfg''] = ([], Inr (0, Some (''cfg'', demo_config))) \<and>
   config_validator_main (demo_yaml\<lparr>yl_load_file := (\<lambda>_. Inr demo_config)\<rparr>) [''cfg''] = Some (0, [''Validation succeeded.''])"
proof -
  let ?ios = "[YMap [text_node ''name'' ''ch1_v'', text_node ''type'' ''float'', text_node ''role'' ''output''],
      YMap [text_node ''name'' ''ch2_v'', text_node ''type'' ''float'', text_node ''role'' ''output'']]"
  have g: "generator_main demo_yaml [''api'', ''cfg''] = ([], Inr (0, Some (''cfg'', demo_config)))" by code_simp
  have l: "yl_load_file demo_yaml ''api'' = Inr demo_expanded" by (simp add: demo_yaml_def)
  have i: "y_sub demo_expanded ''io'' = Inr (YSeq ?ios)" by (simp add: demo_expanded_def demo_template_def)
  have t: "\<forall>io \<in> set (y_elems (YSeq ?ios)). \<forall>role \<in> config_roles. field_is io ''role'' role \<longrightarrow> (\<exists>ty \<in> config_types. field_is io ''type'' ty)"
    by (simp add: field_is_def text_node_def)
  have r: "field_is (hd ?ios) ''role'' ''output''" by (simp add: field_is_def text_node_def)
  show ?thesis
    using generated_configuration_valid [OF l i t _ r _ g, of "demo_yaml\<lparr>yl_load_file := (\<lambda>_. Inr demo_config)\<rparr>"] g by simp
qed

end
