(* ===== verification/Worker_Shutdown.thy ===== *)
theory Worker_Shutdown
  imports Worker
begin

text \<open>
  The end of a worker process. A worker whose queues are open keeps serving its request queue, one message a round, until it
  reads a \<^verbatim>\<open>SHUTDOWN\<close>; then it leaves its loop, shuts its plugin down and exits.
\<close>

section \<open>A worker with open queues\<close>

text \<open>The worker holds its end of the queues, its request queue has the capacity and contents \<open>q\<close>, and its response queue exists.\<close>

definition serving :: "('w \<Rightarrow> string \<Rightarrow> (nat \<times> ipc_message list) option) \<Rightarrow> string \<Rightarrow> nat \<times> ipc_message list \<Rightarrow> ('p, 'w) worker \<Rightarrow> bool" where
  "serving view i q s \<longleftrightarrow> wk_ipc_queue s = Some (worker_end i) \<and> view (wk_shm s) (req_of i) = Some q \<and> view (wk_shm s) (resp_of i) \<noteq> None"

lemma serving_fields [simp]:
  "serving view i q (s\<lparr>wk_plugin_state := p\<rparr>) = serving view i q s"
  "serving view i q (s\<lparr>wk_waiting_sync_token := t\<rparr>) = serving view i q s"
  "serving view i q (s\<lparr>wk_last_heartbeat := h\<rparr>) = serving view i q s"
  "serving view i q (s\<lparr>wk_running := r\<rparr>) = serving view i q s"
  by (simp_all add: serving_def)

text \<open>Sending leaves the request queue alone, whether or not the response queue has room.\<close>

lemma serving_send:
  assumes "mq_lib_ok mq view" and "serving view i q s"
  shows "serving view i q (worker_send mq m t s)"
proof -
  obtain c ms where r: "wk_ipc_queue s = Some (worker_end i)" "view (wk_shm s) (resp_of i) = Some (c, ms)"
    using assms(2) by (auto simp: serving_def)
  have "view (wk_shm (worker_send mq m t s)) \<in> {view (wk_shm s), (view (wk_shm s))(resp_of i \<mapsto> (c, ms @ [m]))}"
    using worker_send_view [OF assms(1) r] send_msg_full [OF assms(1), of "worker_end i" "resp_of i" "wk_shm s" c ms m t] r
    by (cases "length ms < c") (simp_all add: worker_send_def)
  then show ?thesis
    using assms(2) queue_name_inject(3) [of i i] by (auto simp: serving_def)
qed

lemma serving_heartbeat:
  assumes "mq_lib_ok mq view" and "serving view i q s"
  shows "serving view i q (send_heartbeat_if_needed mq now s)"
  using serving_send [OF assms] assms(2) by (simp add: send_heartbeat_if_needed_def)

lemma handle_command_serving:
  assumes "mq_lib_ok mq view" and "serving view i q s" and "handle_command L mq now msg s = Inr s'"
  shows "serving view i q s' \<and> wk_running s' = wk_running s"
proof -
  obtain cmd presp p' where e: "deserialize_command_from_msg L now msg = Inr cmd" "execute_in_plugin cmd s = (presp, p')"
    using assms(3) by (cases "execute_in_plugin (projr (deserialize_command_from_msg L now msg)) s")
      (auto simp: handle_command_def bind_result_Inr_iff)
  then show ?thesis
    using assms(2,3)
    by (cases "sc_sync_token cmd"; cases "sc_is_sync_barrier cmd")
      (auto simp: handle_command_def send_command_response_def send_sync_ack_def Let_def bind_result_Inr_iff
        intro!: serving_send [OF assms(1)])
qed

lemma process_message_serving:
  assumes "mq_lib_ok mq view" and "serving view i q s" and "process_message L mq now msg s = Inr s'"
  shows "serving view i q s' \<and> (wk_running s' \<longleftrightarrow> wk_running s \<and> im_type msg \<noteq> SHUTDOWN)"
  using assms(2,3) handle_command_serving [OF assms(1,2), of L now msg s']
  by (auto simp: process_message_def handle_shutdown_def handle_sync_continue_def split: msg_type.splits if_splits)

lemma process_message_plugin: "process_message L mq now msg s = Inr s' \<Longrightarrow> wk_plugin s' = wk_plugin s"
  by (auto simp: process_message_def handle_shutdown_def handle_sync_continue_def handle_command_def send_command_response_def
      send_sync_ack_def bind_result_Inr_iff Let_def case_prod_unfold split: msg_type.splits if_splits option.splits)

text \<open>What may throw: reading a command, and writing the plugin's answer to it. A message is answerable by a worker if its command decodes and the
  answer of the worker's plugin to that command, in any state of the plugin, can be encoded.\<close>

definition answerable :: "json_lib \<Rightarrow> ('p, 'w) worker \<Rightarrow> ipc_message \<Rightarrow> bool" where
  "answerable L s msg \<longleftrightarrow>
     (im_type msg = COMMAND \<longrightarrow> (\<forall>now p. \<exists>cmd t. deserialize_command_from_msg L now msg = Inr cmd \<and>
        serialize_response L (from_plugin_response (fst (execute_in_plugin cmd (s\<lparr>wk_plugin_state := p\<rparr>)))) = Inr t))"

lemma process_message_total:
  assumes "answerable L s0 msg" and "wk_plugin s = wk_plugin s0"
  shows "\<exists>s'. process_message L mq now msg s = Inr s'"
proof (cases "im_type msg = COMMAND")
  case True
  have same: "execute_in_plugin cmd (s0\<lparr>wk_plugin_state := wk_plugin_state s\<rparr>) = execute_in_plugin cmd s" for cmd
    using assms(2) by (auto simp: execute_in_plugin_def split: prod.split)
  obtain cmd t where d: "deserialize_command_from_msg L now msg = Inr cmd"
      "serialize_response L (from_plugin_response (fst (execute_in_plugin cmd s))) = Inr t"
    using assms(1) True same unfolding answerable_def by metis
  then show ?thesis
    using True by (simp add: process_message_def handle_command_def send_command_response_def Let_def case_prod_unfold)
qed (cases "im_type msg", simp_all add: process_message_def)

section \<open>The loop\<close>

text \<open>A round takes the first message of the request queue and processes it.\<close>

lemma main_round_takes:
  assumes "mq_lib_ok mq view" and "serving view i (c, msg # ms) s"
  shows "\<exists>s1. main_round L mq now s = process_message L mq now msg s1 \<and> serving view i (c, ms) s1 \<and>
    wk_running s1 = wk_running s \<and> wk_plugin s1 = wk_plugin s"
proof -
  define s0 where "s0 = send_heartbeat_if_needed mq (int now) s"
  have s0: "serving view i (c, msg # ms) s0" using serving_heartbeat [OF assms] by (simp add: s0_def)
  have run: "wk_running s0 = wk_running s" "wk_plugin s0 = wk_plugin s" by (simp_all add: s0_def send_heartbeat_if_needed_def)
  obtain w where r: "receive_msg mq 100 (worker_end i) (wk_shm s0) = (Some msg, w)" "view w = (view (wk_shm s0))(req_of i \<mapsto> (c, ms))"
    using receive_msg_ok [OF assms(1), of "worker_end i" "req_of i" "wk_shm s0" c msg ms 100] s0
    by (cases "receive_msg mq 100 (worker_end i) (wk_shm s0)") (auto simp: serving_def)
  have "main_round L mq now s = process_message L mq now msg (s0\<lparr>wk_shm := w\<rparr>)"
    using r(1) s0 by (simp add: main_round_def Let_def serving_def flip: s0_def)
  moreover have "serving view i (c, ms) (s0\<lparr>wk_shm := w\<rparr>)"
    using s0 r(2) queue_name_inject(3) [of i i] by (simp add: serving_def)
  ultimately show ?thesis using run by auto
qed

text \<open>The loop reaches the first \<^verbatim>\<open>SHUTDOWN\<close> in as many rounds as there are messages up to it, unless a message before it throws.\<close>

lemma main_loop_ends:
  assumes "mq_lib_ok mq view" and "serving view i (c, ms @ sd # rest) s" and "wk_running s"
    and "im_type sd = SHUTDOWN" and "\<forall>m \<in> set ms. im_type m \<noteq> SHUTDOWN" and "length ms < length nows"
    and "wk_plugin s = wk_plugin s0"
  shows "(\<exists>s'. main_loop L mq nows s = Inr s' \<and> \<not> wk_running s' \<and> serving view i (c, rest) s') \<or>
    (\<exists>e. main_loop L mq nows s = Inl e) \<and> \<not> (\<forall>m \<in> set ms. answerable L s0 m)"
  using assms(2,3,5-)
proof (induction ms arbitrary: s nows)
  case Nil
  then obtain now ns where n: "nows = now # ns" by (cases nows) auto
  obtain s1 where "main_round L mq now s = process_message L mq now sd s1" "serving view i (c, rest) s1"
    using main_round_takes [OF assms(1)] Nil(1) by fastforce
  then show ?case
    using n Nil(2) assms(4) by (cases ns) (auto simp: process_message_def handle_shutdown_def)
next
  case (Cons m ms)
  then obtain now ns where n: "nows = now # ns" "length ms < length ns" by (cases nows) auto
  obtain s1 where s1: "main_round L mq now s = process_message L mq now m s1" "serving view i (c, ms @ sd # rest) s1" "wk_running s1"
      "wk_plugin s1 = wk_plugin s0"
    using main_round_takes [OF assms(1)] Cons(2,3,6) by fastforce
  show ?case
  proof (cases "process_message L mq now m s1")
    case (Inl e)
    then show ?thesis
      using n(1) s1(1,4) Cons(3) process_message_total [of L s0 m s1 mq now] by auto
  next
    case (Inr s2)
    then have "serving view i (c, ms @ sd # rest) s2" "wk_running s2" "wk_plugin s2 = wk_plugin s0"
      using process_message_serving [OF assms(1) s1(2) Inr] process_message_plugin [OF Inr] s1(3,4) Cons(4) by simp_all
    from Cons(1) [OF this(1,2) _ n(2) this(3)] show ?thesis
      using n(1) s1(1) Cons(3,4) Inr by auto
  qed
qed

section \<open>The process\<close>

lemma worker_run_ends:
  assumes "mq_lib_ok mq view" and "plain_name (wk_instrument_name s)" and "wk_running s"
    and "view (wk_shm s) (req_of (wk_instrument_name s)) = Some (c, ms @ sd # rest)"
    and "view (wk_shm s) (resp_of (wk_instrument_name s)) \<noteq> None"
    and "im_type sd = SHUTDOWN" and "\<forall>m \<in> set ms. im_type m \<noteq> SHUTDOWN" and "length ms < length nows"
  shows "\<exists>code s'. worker_run L mq nows s = (Some code, s') \<and> (code = 0 \<or> code = 1) \<and>
    (code = 0 \<longrightarrow> wk_ipc_queue s' = None \<and> view (wk_shm s') (req_of (wk_instrument_name s)) = Some (c, rest)) \<and>
    (fst (load_and_init_plugin s) \<and> (\<forall>m \<in> set ms. answerable L s m) \<longrightarrow> code = 0)"
proof -
  let ?i = "wk_instrument_name s"
  obtain ok s1 where s1: "load_and_init_plugin s = (ok, s1)" by fastforce
  then have same: "wk_instrument_name s1 = ?i" "wk_shm s1 = wk_shm s" "wk_running s1" "wk_plugin s1 = wk_plugin s"
    using assms(3) by (auto simp: load_and_init_plugin_def Let_def split: if_splits prod.splits)
  let ?s2 = "s1\<lparr>wk_ipc_queue := Some (worker_end ?i)\<rparr>"
  have q: "connect_ipc_queue mq s1 = (Inr True, ?s2)"
    using create_worker_queue_ok [OF assms(1,2), of "wk_shm s"] assms(4,5) same by (simp add: connect_ipc_queue_def)
  have "serving view ?i (c, ms @ sd # rest) ?s2" "wk_running ?s2" and pl: "wk_plugin ?s2 = wk_plugin s"
    using assms(4,5) same by (simp_all add: serving_def)
  note ends = main_loop_ends [OF assms(1) this(1,2) assms(6-8) pl, of L]
  show ?thesis
  proof (cases ok)
    case True
    then have run: "worker_run L mq nows s = (case main_loop L mq nows ?s2 of
        Inl e \<Rightarrow> (Some 1, loop_left L mq nows ?s2) | Inr s3 \<Rightarrow> if wk_running s3 then (None, s3) else (Some 0, worker_cleanup s3))"
      using s1 q by (simp add: worker_run_def)
    show ?thesis
      using ends unfolding run by (elim disjE exE conjE) (auto simp: worker_cleanup_def serving_def simp del: not_all)
  qed (use s1 in \<open>simp add: worker_run_def\<close>)
qed

text \<open>C15: A worker process ends. Once a \<^verbatim>\<open>SHUTDOWN\<close> is in its request queue, the process exits after at most as many rounds as
  there are messages up to it: with status 0 after it has taken exactly those messages and closed its queue, or with status 1. It is status 0
  whenever the plugin initialises, each command before the \<^verbatim>\<open>SHUTDOWN\<close> decodes and the plugin's answer to that command can be
  encoded as JSON.\<close>

theorem worker_ends_after_shutdown:
  assumes "mq_lib_ok mq view" and "plain_name (wk_instrument_name s)" and "wk_running s"
    and "view (wk_shm s) (req_of (wk_instrument_name s)) = Some (c, ms @ sd # rest)"
    and "view (wk_shm s) (resp_of (wk_instrument_name s)) \<noteq> None"
    and "im_type sd = SHUTDOWN" and "\<forall>m \<in> set ms. im_type m \<noteq> SHUTDOWN" and "length ms < length nows"
  shows "\<exists>code s'. worker_run L mq nows s = (Some code, s') \<and> (code = 0 \<or> code = 1) \<and>
    (code = 0 \<longrightarrow> wk_ipc_queue s' = None \<and> view (wk_shm s') (req_of (wk_instrument_name s)) = Some (c, rest)) \<and>
    (fst (load_and_init_plugin s) \<and> (\<forall>m \<in> set ms. answerable L s m) \<longrightarrow> code = 0)"
  using assms by (rule worker_run_ends)

section \<open>The program\<close>

text \<open>\<^verbatim>\<open>main\<close>: the instrument of its two arguments, with the clock reading \<open>t0\<close> at its construction; the exit status. Loading the plugin
  may throw, which gives status 1 as well.\<close>

definition new_worker :: "string \<Rightarrow> 'p plugin_loader \<Rightarrow> 'p \<Rightarrow> int \<Rightarrow> 'w \<Rightarrow> ('p, 'w) worker" where
  "new_worker instrument_name loader p t0 w =
     \<lparr>wk_instrument_name = instrument_name, wk_plugin = loader, wk_plugin_state = p, wk_ipc_queue = None,
      wk_waiting_sync_token = None, wk_last_heartbeat = t0, wk_running = True, wk_shm = w\<rparr>"

definition worker_main :: "'p dl \<Rightarrow> json_lib \<Rightarrow> 'w mq_lib \<Rightarrow> nat list \<Rightarrow> int \<Rightarrow> string list \<Rightarrow> 'p \<Rightarrow> 'w \<Rightarrow> int option" where
  "worker_main dlopen L mq nows t0 argv p w =
     (if length argv < 3 then Some 1
      else case new_plugin_loader dlopen (argv ! 2) of
          Inl e \<Rightarrow> Some 1
        | Inr loader \<Rightarrow> fst (worker_run L mq nows (new_worker (argv ! 1) loader p t0 w)))"

text \<open>So the program that the server starts for an instrument ends, whatever the library at the given path is.\<close>

lemma worker_main_ends:
  assumes "mq_lib_ok mq view" and "plain_name i" and "view w (req_of i) = Some (c, ms @ sd # rest)" and "view w (resp_of i) \<noteq> None"
    and "im_type sd = SHUTDOWN" and "\<forall>m \<in> set ms. im_type m \<noteq> SHUTDOWN" and "length ms < length nows"
  shows "worker_main dlopen L mq nows t0 [prog, i, path] p w \<in> {Some 0, Some 1}"
proof (cases "new_plugin_loader dlopen path")
  case (Inr loader)
  let ?s = "new_worker i loader p t0 w"
  have "\<exists>code s'. worker_run L mq nows ?s = (Some code, s') \<and> (code = 0 \<or> code = 1)"
    using worker_run_ends [OF assms(1), of ?s c ms sd rest nows L] assms(2-7) by (auto simp: new_worker_def)
  then show ?thesis using Inr by (auto simp: worker_main_def)
qed (simp add: worker_main_def)

section \<open>Signals\<close>

text \<open>A signal may arrive between two rounds, or during one, which then ends as it would have; \<^verbatim>\<open>main\<close> installs the handler for SIGINT and
  SIGTERM.\<close>

datatype worker_event = Round nat | Signal int

fun event_loop :: "json_lib \<Rightarrow> 'w mq_lib \<Rightarrow> worker_event list \<Rightarrow> ('p, 'w) worker \<Rightarrow> ('p, 'w) worker result" where
  "event_loop L mq [] s = Inr s"
| "event_loop L mq (Round now # es) s =
     (if wk_running s then bind_result (main_round L mq now s) (event_loop L mq es) else event_loop L mq es s)"
| "event_loop L mq (Signal sig # es) s = event_loop L mq es (signal_handler sig s)"

lemma event_loop_stopped: "\<not> wk_running s \<Longrightarrow> event_loop L mq es s = Inr s"
proof (induction es)
  case (Cons e es)
  have "signal_handler sig s = s" for sig using Cons.prems by (simp add: signal_handler_def)
  then show ?case using Cons by (cases e) simp_all
qed simp

text \<open>Without signals this is \<^verbatim>\<open>main_loop\<close>; with one, the worker leaves the loop no later than at the first signal, in
  the state the rounds before it reached, unless one of them throws.\<close>

lemma event_loop_rounds: "event_loop L mq (map Round nows) s = main_loop L mq nows s"
proof (induction nows arbitrary: s)
  case (Cons now nows)
  show ?case
  proof (cases "wk_running s")
    case True
    then show ?thesis by (cases "main_round L mq now s") (simp_all add: Cons)
  qed (simp add: event_loop_stopped)
qed simp

lemma event_loop_append:
  "event_loop L mq (es @ es') s = bind_result (event_loop L mq es s) (event_loop L mq es')"
proof (induction L mq es s rule: event_loop.induct)
  case (2 L mq now es s)
  then show ?case by (cases "main_round L mq now s") auto
qed simp_all

lemma signal_ends_loop:
  "event_loop L mq (map Round nows @ Signal sig # es) s = bind_result (main_loop L mq nows s) (\<lambda>s'. Inr (s'\<lparr>wk_running := False\<rparr>))"
  by (cases "main_loop L mq nows s")
    (simp_all add: event_loop_append event_loop_rounds event_loop_stopped signal_handler_def)

section \<open>Witness\<close>

definition stopping_worker :: "(unit, queues) worker" where
  "stopping_worker = demo_worker\<lparr>wk_shm :=
     [req_of ''dmm'' \<mapsto> (100, [demo_msg, demo_msg, new_message\<lparr>im_type := SHUTDOWN\<rparr>]), resp_of ''dmm'' \<mapsto> (100, [])]\<rparr>"

lemma stopping_answerable: "answerable demo_lib stopping_worker demo_msg"
proof -
  have "\<exists>cmd. deserialize_command_from_msg demo_lib now demo_msg = Inr cmd \<and>
      fst (execute_in_plugin cmd (stopping_worker\<lparr>wk_plugin_state := p\<rparr>)) = barrier_nop_response demo_nop" for now p
    using demo_decodes [of now] by (auto simp: execute_in_plugin_def demo_nop_def barrier_nop_response_def)
  then show ?thesis unfolding answerable_def using demo_lib_simps(3) by metis
qed

theorem worker_ends_after_shutdown_witness:
  "\<exists>s'. worker_run demo_lib list_mq [1, 2, 3] stopping_worker = (Some 0, s') \<and> wk_shm s' (req_of ''dmm'') = Some (100, [])"
proof -
  have a: "wk_instrument_name stopping_worker = ''dmm''" "wk_running stopping_worker" "plain_name ''dmm''"
      "wk_shm stopping_worker (resp_of ''dmm'') \<noteq> None"
    by (simp_all add: stopping_worker_def demo_worker_def plain_name_def)
  have b: "wk_shm stopping_worker (req_of ''dmm'') = Some (100, [demo_msg, demo_msg] @ (new_message\<lparr>im_type := SHUTDOWN\<rparr>) # [])"
    using queue_name_inject(3) [of "''dmm''" "''dmm''"] by (simp add: stopping_worker_def)
  have c: "im_type demo_msg = COMMAND" by (simp add: demo_msg_def new_message_def)
  have e: "fst (load_and_init_plugin stopping_worker)"
    by (simp add: load_and_init_plugin_def stopping_worker_def demo_worker_def is_loaded_def loader_initialize_def demo_symbols_def Let_def)
  obtain code s' where "worker_run demo_lib list_mq [1, 2, 3] stopping_worker = (Some code, s')"
      "code = 0 \<longrightarrow> wk_shm s' (req_of ''dmm'') = Some (100, [])" "code = 0"
    using worker_ends_after_shutdown [OF list_mq_ok, of stopping_worker 100 "[demo_msg, demo_msg]" "new_message\<lparr>im_type := SHUTDOWN\<rparr>" "[]" "[1, 2, 3]" demo_lib]
      a b c e stopping_answerable by auto
  then show ?thesis by auto
qed

end
