(* ===== verification/Command_Path.thy ===== *)
theory Command_Path
  imports Worker_Shutdown Worker_Proxy "HOL-Library.Sublist"
begin

text \<open>
  A proxy and its worker together: client threads that call \<^verbatim>\<open>execute\<close>, the rounds of the response thread, the rounds of the
  worker process and everything else in the server interleave in any order, over the pair of queues
  of the instrument. What the theory shows holds in every state such an interleaving can reach, with full
  queues, lost responses and failing commands included.
\<close>

section \<open>What a round of the worker runs\<close>

text \<open>A round of \<^verbatim>\<open>main_loop\<close> is a heartbeat and a message taken from the request queue, which is then processed.\<close>

definition take_message :: "'w mq_lib \<Rightarrow> nat \<Rightarrow> ('p, 'w) worker \<Rightarrow> ipc_message option \<times> ('p, 'w) worker" where
  "take_message mq now s =
     (let s1 = send_heartbeat_if_needed mq (int now) s in
      case wk_ipc_queue s1 of
        None \<Rightarrow> (None, s1)
      | Some q \<Rightarrow> (case receive_msg mq 100 q (wk_shm s1) of (m, w) \<Rightarrow> (m, s1\<lparr>wk_shm := w\<rparr>)))"

lemma main_round_take:
  "main_round L mq now s =
     (case take_message mq now s of (None, s1) \<Rightarrow> Inr s1 | (Some m, s1) \<Rightarrow> process_message L mq now m s1)"
  by (simp add: main_round_def take_message_def Let_def split: option.split prod.split)

text \<open>For the proofs: the command that processing a message executes, with the message's identifier and the response, and those of the
  commands that go to the plugin, in the form the plugin gets them; \<^verbatim>\<open>__BARRIER_NOP__\<close> is answered by the worker itself.\<close>

definition plugin_runs :: "json_lib \<Rightarrow> nat \<Rightarrow> ipc_message \<Rightarrow> ('p, 'w) worker \<Rightarrow> (u64 \<times> serialized_command \<times> plugin_response) list" where
  "plugin_runs L now m s =
     (if im_type m = COMMAND \<and> wk_waiting_sync_token s = None
      then case deserialize_command_from_msg L now m of
          Inl e \<Rightarrow> []
        | Inr d \<Rightarrow> [(im_id m, d, fst (execute_in_plugin d s))]
      else [])"

definition round_runs :: "json_lib \<Rightarrow> 'w mq_lib \<Rightarrow> nat \<Rightarrow> ('p, 'w) worker \<Rightarrow> (u64 \<times> serialized_command \<times> plugin_response) list" where
  "round_runs L mq now s =
     (case take_message mq now s of (None, s1) \<Rightarrow> [] | (Some m, s1) \<Rightarrow> plugin_runs L now m s1)"

definition plugin_part :: "(u64 \<times> serialized_command \<times> plugin_response) list \<Rightarrow> (u64 \<times> plugin_command \<times> plugin_response) list" where
  "plugin_part runs = map (\<lambda>(c, d, presp). (c, to_plugin_command d, presp))
     (filter (\<lambda>(c, d, presp). sc_verb d \<noteq> ''__BARRIER_NOP__'') runs)"

lemma plugin_part_simps [simp]:
  "plugin_part [] = []" "plugin_part (xs @ ys) = plugin_part xs @ plugin_part ys"
  by (simp_all add: plugin_part_def)

text \<open>The worker's queues, by their contents, and its fixed fields.\<close>

definition on_queues ::
  "('w \<Rightarrow> string \<Rightarrow> (nat \<times> ipc_message list) option) \<Rightarrow> string \<Rightarrow> nat \<times> ipc_message list \<Rightarrow> nat \<times> ipc_message list \<Rightarrow> ('p, 'w) worker \<Rightarrow> bool"
where
  "on_queues view i q r s \<longleftrightarrow> wk_ipc_queue s = Some (worker_end i) \<and> wk_waiting_sync_token s = None \<and>
     view (wk_shm s) (req_of i) = Some q \<and> view (wk_shm s) (resp_of i) = Some r"

lemma on_queues_send:
  assumes "mq_lib_ok mq view" and "on_queues view i q (c, R) s"
  shows "\<exists>R'. on_queues view i q (c, R') (worker_send mq m t s) \<and> set R' \<subseteq> insert m (set R)"
proof -
  have r: "wk_ipc_queue s = Some (worker_end i)" "view (wk_shm s) (resp_of i) = Some (c, R)"
    using assms(2) by (auto simp: on_queues_def)
  show ?thesis
  proof (cases "length R < c")
    case True
    then show ?thesis
      using worker_send_view [OF assms(1) r] assms(2) queue_name_inject(3) [of i i]
      by (intro exI [of _ "R @ [m]"]) (auto simp: on_queues_def)
  next
    case False
    then show ?thesis
      using send_msg_full [OF assms(1), of "worker_end i" "resp_of i" "wk_shm s" c R m t] r assms(2)
      by (intro exI [of _ R]) (auto simp: on_queues_def worker_send_def)
  qed
qed

lemma on_queues_fields [simp]:
  "on_queues view i q r (s\<lparr>wk_plugin_state := p\<rparr>) = on_queues view i q r s"
  "on_queues view i q r (s\<lparr>wk_last_heartbeat := h\<rparr>) = on_queues view i q r s"
  "on_queues view i q r (s\<lparr>wk_running := b\<rparr>) = on_queues view i q r s"
  by (simp_all add: on_queues_def)

lemma take_message_queues:
  assumes "mq_lib_ok mq view" and "on_queues view i (c, Q) (c', R) s"
  shows "\<exists>s1 R1. take_message mq now s = ((case Q of [] \<Rightarrow> None | m # Q' \<Rightarrow> Some m), s1) \<and>
    on_queues view i (c, tl Q) (c', R1) s1 \<and> (\<forall>m \<in> set R1. m \<in> set R \<or> im_type m = HEARTBEAT) \<and>
    wk_plugin s1 = wk_plugin s \<and> wk_plugin_state s1 = wk_plugin_state s"
proof -
  define s0 where "s0 = send_heartbeat_if_needed mq (int now) s"
  have f: "wk_plugin s0 = wk_plugin s" "wk_plugin_state s0 = wk_plugin_state s"
    by (simp_all add: s0_def send_heartbeat_if_needed_def)
  obtain R1 where R1: "on_queues view i (c, Q) (c', R1) s0" "\<forall>m \<in> set R1. m \<in> set R \<or> im_type m = HEARTBEAT"
  proof (cases "int now - wk_last_heartbeat s \<ge> 500")
    case True
    then show thesis
      using that on_queues_send [OF assms, of "new_message\<lparr>im_type := HEARTBEAT, im_id := 0, im_payload_size := 0\<rparr>" 100]
      by (fastforce simp: s0_def send_heartbeat_if_needed_def)
  qed (use that assms(2) in \<open>auto simp: s0_def send_heartbeat_if_needed_def\<close>)
  obtain m w where r: "receive_msg mq 100 (worker_end i) (wk_shm s0) = (m, w)" by fastforce
  have "m = (case Q of [] \<Rightarrow> None | m # Q' \<Rightarrow> Some m) \<and> view w = (view (wk_shm s0))(req_of i \<mapsto> (c, tl Q))"
    using R1(1) receive_msg_ok [OF assms(1), of "worker_end i" "req_of i" "wk_shm s0" c "hd Q" "tl Q" 100]
      receive_msg_empty [OF assms(1), of "worker_end i" "req_of i" "wk_shm s0" c 100] r
    by (cases Q) (auto simp: on_queues_def fun_upd_idem)
  then show ?thesis
    using R1 r f queue_name_inject(3) [of i i]
    by (intro exI [of _ "s0\<lparr>wk_shm := w\<rparr>"] exI [of _ R1]) (auto simp: take_message_def on_queues_def simp flip: s0_def)
qed

text \<open>Processing a message leaves the request queue alone and adds at most its acknowledgement and the response of the command it runs.\<close>

definition answers :: "json_lib \<Rightarrow> (u64 \<times> serialized_command \<times> plugin_response) list \<Rightarrow> ipc_message \<Rightarrow> bool" where
  "answers L runs m \<longleftrightarrow>
     (\<exists>d presp rt. (im_id m, d, presp) \<in> set runs \<and> serialize_response L (from_plugin_response presp) = Inr rt \<and>
        read_payload m = Some (take IPC_MAX_PAYLOAD rt))"

lemma answers_append: "answers L runs m \<Longrightarrow> answers L (runs @ xs) m" "answers L xs m \<Longrightarrow> answers L (runs @ xs) m"
  unfolding answers_def by auto

lemma process_message_queues:
  assumes "mq_lib_ok mq view" and "on_queues view i q (c, R) s" and "process_message L mq now m s = Inr s'"
  shows "\<exists>R'. on_queues view i q (c, R') s' \<and> wk_plugin s' = wk_plugin s \<and>
    plugin_trace (wk_plugin s) (wk_plugin_state s) (map snd (plugin_part (plugin_runs L now m s))) (wk_plugin_state s') \<and>
    (\<forall>x \<in> set R'. x \<in> set R \<or> im_type x \<noteq> RESPONSE \<or> answers L (plugin_runs L now m s) x)"
proof (cases "im_type m = COMMAND")
  case False
  then have "s' = s \<or> (\<exists>b. s' = s\<lparr>wk_running := b\<rparr>)"
    using assms(2,3) by (auto simp: process_message_def handle_shutdown_def handle_sync_continue_def on_queues_def split: msg_type.splits)
  then show ?thesis using assms(2) False by (auto simp: plugin_runs_def)
next
  case True
  have w: "wk_waiting_sync_token s = None" using assms(2) by (simp add: on_queues_def)
  then have h: "handle_command L mq now m s = Inr s'" using True assms(3) by (simp add: process_message_def)
  then obtain d where d: "deserialize_command_from_msg L now m = Inr d" by (auto simp: handle_command_def bind_result_Inr_iff)
  then have nb: "\<not> sc_is_sync_barrier d"
    using deserialize_command_no_barrier by (auto simp: deserialize_command_from_msg_def split: option.splits)
  obtain presp p' where e: "execute_in_plugin d s = (presp, p')" by fastforce
  obtain rt where rt: "serialize_response L (from_plugin_response presp) = Inr rt"
    using h d e by (auto simp: handle_command_def send_command_response_def bind_result_Inr_iff Let_def)
  define s2 where "s2 = worker_send mq (response_message m d rt) 1000 (s\<lparr>wk_plugin_state := p'\<rparr>)"
  have s': "s' = (case sc_sync_token d of None \<Rightarrow> s2 | Some t \<Rightarrow> worker_send mq (sync_ack_message m t) 1000 s2)"
    using h d e rt nb by (cases "sc_sync_token d")
      (simp_all add: handle_command_def send_command_response_def send_sync_ack_def Let_def s2_def)
  have "read_payload (response_message m d rt) = Some (take IPC_MAX_PAYLOAD rt)" "im_id (response_message m d rt) = im_id m"
    unfolding response_message_def by (subst read_put_payload) (simp_all add: new_message_def)
  then have ans: "answers L (plugin_runs L now m s) (response_message m d rt)"
    using True w d e rt by (auto simp: answers_def plugin_runs_def)
  obtain R2 where R2: "on_queues view i q (c, R2) s2" "set R2 \<subseteq> insert (response_message m d rt) (set R)"
    using on_queues_send [OF assms(1), of i q c R "s\<lparr>wk_plugin_state := p'\<rparr>"] assms(2) unfolding s2_def by fastforce
  obtain R3 where R3: "on_queues view i q (c, R3) s'" "\<forall>x \<in> set R3. x \<in> set R2 \<or> im_type x = SYNC_ACK"
  proof (cases "sc_sync_token d")
    case (Some t)
    then show thesis
      using that on_queues_send [OF assms(1) R2(1), of "sync_ack_message m t" 1000] s' by (fastforce simp: sync_ack_message_def)
  qed (use that R2(1) s' in auto)
  have "wk_plugin s' = wk_plugin s" "wk_plugin_state s' = p'" unfolding s' s2_def by (simp_all split: option.split)
  moreover have "plugin_trace (wk_plugin s) (wk_plugin_state s) (map snd (plugin_part (plugin_runs L now m s))) p'"
    using True w d e execute_in_plugin_trace [OF e] by (auto simp: plugin_runs_def plugin_part_def split: if_splits)
  ultimately show ?thesis using R2(2) R3 ans by (intro exI [of _ R3]) auto
qed

section \<open>The two ends together\<close>

text \<open>\<open>ln_sent\<close> records the commands clients gave to \<^verbatim>\<open>execute\<close>, with their identifiers; the program does not keep it. The
  shared memory is that of \<open>ln_shared\<close>.\<close>

record ('p, 'w, 'o) link =
  ln_proxy :: proxy
  ln_shared :: "('w, 'o) shared"
  ln_worker :: "('p, 'w) worker"
  ln_sent :: "(u64 \<times> serialized_command) list"

definition numbered_command :: "string \<Rightarrow> u64 \<Rightarrow> serialized_command \<Rightarrow> serialized_command" where
  "numbered_command i c cmd = cmd\<lparr>sc_id := command_id_string i c\<rparr>"

text \<open>Commands with finite arrays whose text, if they have one, fits the payload.\<close>

definition fits_wire :: "json_lib \<Rightarrow> serialized_command \<Rightarrow> bool" where
  "fits_wire L cmd \<longleftrightarrow> umap_ok (sc_params cmd) \<and> arrays_finite (sc_params cmd) \<and>
     (\<forall>t. serialize_command L cmd = Inr t \<longrightarrow> length t \<le> IPC_MAX_PAYLOAD)"

text \<open>The steps. \<open>others\<close> is any change to the shared state outside the queues of this instrument: other instruments, the
  coordinator, the process table. A throw in the response thread or in the worker ends that process and has no successor.\<close>

inductive link_step ::
  "json_lib \<Rightarrow> 'w mq_lib \<Rightarrow> ('w \<Rightarrow> string \<Rightarrow> (nat \<times> ipc_message list) option) \<Rightarrow> ('p, 'w, 'o) link \<Rightarrow> ('p, 'w, 'o) link \<Rightarrow> bool"
for L mq view where
  execute: "c = px_next_message_id (ln_proxy l) \<Longrightarrow> Suc (unat c) < 2 ^ 64 \<Longrightarrow>
    fits_wire L (numbered_command (px_instrument_name (ln_proxy l)) c cmd) \<Longrightarrow>
    proxy_execute L mq cmd (ln_proxy l, ln_shared l) = (r, px', sh') \<Longrightarrow>
    link_step L mq view l (l\<lparr>ln_proxy := px', ln_shared := sh', ln_sent := ln_sent l @ [(c, cmd)]\<rparr>)"
| work: "s = (ln_worker l)\<lparr>wk_shm := sh_shm (ln_shared l)\<rparr> \<Longrightarrow> main_round L mq now s = Inr s' \<Longrightarrow>
    link_step L mq view l (l\<lparr>ln_worker := s', ln_shared := (ln_shared l)\<lparr>sh_shm := wk_shm s'\<rparr>\<rparr>)"
| listen: "listener_round L mq t (ln_proxy l, ln_shared l) = Inr (px', sh') \<Longrightarrow>
    link_step L mq view l (l\<lparr>ln_proxy := px', ln_shared := sh'\<rparr>)"
| death: "link_step L mq view l (l\<lparr>ln_proxy := handle_worker_death (ln_proxy l)\<rparr>)"
| others: "(\<And>n. n \<in> {req_of (px_instrument_name (ln_proxy l)), resp_of (px_instrument_name (ln_proxy l))} \<Longrightarrow>
      view (sh_shm sh') n = view (sh_shm (ln_shared l)) n) \<Longrightarrow>
    link_step L mq view l (l\<lparr>ln_shared := sh'\<rparr>)"

text \<open>A new link: the queues are open and empty, nothing was sent.\<close>

definition link_new :: "('w \<Rightarrow> string \<Rightarrow> (nat \<times> ipc_message list) option) \<Rightarrow> ('p, 'w, 'o) link \<Rightarrow> bool" where
  "link_new view l \<longleftrightarrow>
     (let px = ln_proxy l; i = px_instrument_name px; w = sh_shm (ln_shared l) in
      px_ipc_queue px = Some (server_end i) \<and> px_ready px = [] \<and>
      wk_ipc_queue (ln_worker l) = Some (worker_end i) \<and> wk_waiting_sync_token (ln_worker l) = None \<and>
      view w (req_of i) = Some (100, []) \<and> view w (resp_of i) = Some (100, []) \<and> ln_sent l = [])"

inductive link_reachable ::
  "json_lib \<Rightarrow> 'w mq_lib \<Rightarrow> ('w \<Rightarrow> string \<Rightarrow> (nat \<times> ipc_message list) option) \<Rightarrow> ('p, 'w, 'o) link \<Rightarrow> ('p, 'w, 'o) link \<Rightarrow> bool"
for L mq view l0 where
  init: "link_reachable L mq view l0 l0"
| step: "link_reachable L mq view l0 l \<Longrightarrow> link_step L mq view l l' \<Longrightarrow> link_reachable L mq view l0 l'"

section \<open>The invariant\<close>

abbreviation command_ids :: "ipc_message list \<Rightarrow> u64 list" where
  "command_ids Q \<equiv> map im_id (filter (\<lambda>m. im_type m = COMMAND) Q)"

text \<open>A message in the request queue carries a command that was sent.\<close>

definition carries :: "json_lib \<Rightarrow> string \<Rightarrow> (u64 \<times> serialized_command) list \<Rightarrow> ipc_message \<Rightarrow> bool" where
  "carries L i sent m \<longleftrightarrow>
     (\<exists>cmd t. (im_id m, cmd) \<in> set sent \<and> fits_wire L (numbered_command i (im_id m) cmd) \<and>
        serialize_command L (numbered_command i (im_id m) cmd) = Inr t \<and>
        m = command_message (im_id m) (numbered_command i (im_id m) cmd) t)"

text \<open>What the worker executed is a command that was sent, with its identifier, verb and parameters as the wire keeps them.\<close>

definition decoded_as :: "string \<Rightarrow> u64 \<Rightarrow> serialized_command \<Rightarrow> serialized_command \<Rightarrow> bool" where
  "decoded_as i c cmd d \<longleftrightarrow> sc_id d = command_id_string i c \<and> sc_instrument_name d = sc_instrument_name cmd \<and>
     sc_verb d = sc_verb cmd \<and> sc_expects_response d = sc_expects_response cmd \<and> sc_sync_token d = sc_sync_token cmd \<and>
     umap_ok (sc_params d) \<and> map_of (sc_params d) = wire_params (sc_params cmd)"

text \<open>What the plugin has to get for a command that was sent under the identifier \<open>c\<close>.\<close>

abbreviation receives :: "string \<Rightarrow> u64 \<Rightarrow> serialized_command \<Rightarrow> plugin_command \<Rightarrow> bool" where
  "receives i c cmd \<equiv> plugin_receives (command_id_string i c) (sc_instrument_name cmd) (sc_verb cmd) (sc_params cmd) (sc_expects_response cmd)"

lemma decoded_receives: "decoded_as i c cmd d \<Longrightarrow> receives i c cmd (to_plugin_command d)"
  using to_plugin_command_received [of d "sc_params cmd"] by (simp add: decoded_as_def)

definition runs_sent :: "string \<Rightarrow> (u64 \<times> serialized_command) list \<Rightarrow> u64 \<times> serialized_command \<times> plugin_response \<Rightarrow> bool" where
  "runs_sent i sent x \<longleftrightarrow>
     (case x of (c, d, presp) \<Rightarrow>
        \<exists>cmd. (c, cmd) \<in> set sent \<and> decoded_as i c cmd d \<and>
          (sc_verb d = ''__BARRIER_NOP__'' \<longrightarrow> presp = barrier_nop_response d))"

definition true_answer :: "(u64 \<times> serialized_command \<times> plugin_response) list \<Rightarrow> u64 \<Rightarrow> command_response \<Rightarrow> bool" where
  "true_answer runs c r \<longleftrightarrow> (\<exists>d presp. (c, d, presp) \<in> set runs \<and> r = response_on_wire (from_plugin_response presp))"

text \<open>A response that can be encoded fits the payload and reads back.\<close>

definition response_fits :: "json_lib \<Rightarrow> plugin_response \<Rightarrow> bool" where
  "response_fits L presp \<longleftrightarrow>
     (\<forall>rt. serialize_response L (from_plugin_response presp) = Inr rt \<longrightarrow>
        length rt \<le> IPC_MAX_PAYLOAD \<and> return_value_finite (from_plugin_response presp))"

definition plugin_fits :: "json_lib \<Rightarrow> 'p plugin_loader \<Rightarrow> bool" where
  "plugin_fits L ld \<longleftrightarrow> (\<forall>cmd p. response_fits L (fst (snd (loader_execute_command cmd zero_response ld p)))) \<and>
     (\<forall>cmd. response_fits L (barrier_nop_response cmd))"

lemma plugin_fitsD: "plugin_fits L (wk_plugin s) \<Longrightarrow> response_fits L (fst (execute_in_plugin d s))"
  unfolding plugin_fits_def execute_in_plugin_def by (auto split: prod.split) (metis fst_conv snd_conv)

text \<open>The invariant, for the contents of the two queues and what the worker has executed since the plugin was in state \<open>p0\<close>.\<close>

definition link_ok ::
  "json_lib \<Rightarrow> ('w \<Rightarrow> string \<Rightarrow> (nat \<times> ipc_message list) option) \<Rightarrow> 'p plugin_loader \<Rightarrow> 'p \<Rightarrow> nat \<Rightarrow> ipc_message list \<Rightarrow> nat \<Rightarrow> ipc_message list \<Rightarrow>
   (u64 \<times> serialized_command \<times> plugin_response) list \<Rightarrow> ('p, 'w, 'o) link \<Rightarrow> bool"
where
  "link_ok L view ld p0 c Q c' R runs l \<longleftrightarrow>
     (let px = ln_proxy l; i = px_instrument_name px; sent = ln_sent l in
        plugin_trace ld p0 (map snd (plugin_part runs)) (wk_plugin_state (ln_worker l)) \<and>
        px_ipc_queue px = Some (server_end i) \<and> wk_plugin (ln_worker l) = ld \<and>
        on_queues view i (c, Q) (c', R) ((ln_worker l)\<lparr>wk_shm := sh_shm (ln_shared l)\<rparr>) \<and>
        (\<forall>x \<in> set sent. fst x < px_next_message_id px) \<and> distinct (map fst sent) \<and>
        subseq (map fst runs @ command_ids Q) (map fst sent) \<and>
        (\<forall>m \<in> set Q. im_type m = COMMAND \<longrightarrow> carries L i sent m) \<and>
        (\<forall>x \<in> set runs. runs_sent i sent x \<and> response_fits L (snd (snd x))) \<and>
        (\<forall>m \<in> set R. im_type m = RESPONSE \<longrightarrow> answers L runs m) \<and>
        (\<forall>n r. map_of (px_ready px) n = Some r \<and> cr_success r \<longrightarrow> true_answer runs n r))"

definition link_inv :: "json_lib \<Rightarrow> ('w \<Rightarrow> string \<Rightarrow> (nat \<times> ipc_message list) option) \<Rightarrow> 'p plugin_loader \<Rightarrow> 'p \<Rightarrow> ('p, 'w, 'o) link \<Rightarrow> bool" where
  "link_inv L view ld p0 l \<longleftrightarrow> (\<exists>c Q c' R runs. link_ok L view ld p0 c Q c' R runs l)"

lemma link_inv_new: "link_new view l \<Longrightarrow> link_inv L view (wk_plugin (ln_worker l)) (wk_plugin_state (ln_worker l)) l"
  unfolding link_inv_def
  by (intro exI [of _ 100] exI [of _ "[]"]) (simp add: link_ok_def link_new_def on_queues_def Let_def)

lemma carries_append: "carries L i sent m \<Longrightarrow> carries L i (sent @ xs) m"
  unfolding carries_def by auto

lemma runs_sent_append: "runs_sent i sent x \<Longrightarrow> runs_sent i (sent @ xs) x"
  unfolding runs_sent_def by (cases x) auto

lemma true_answer_append: "true_answer runs n r \<Longrightarrow> true_answer (runs @ xs) n r"
  unfolding true_answer_def by auto

lemma command_message_decodes:
  assumes "json_lib_ok L" and "umap_ok (sc_params cmd)" and "arrays_finite (sc_params cmd)"
    and "serialize_command L cmd = Inr text" and "length text \<le> IPC_MAX_PAYLOAD"
  shows "\<exists>ps. deserialize_command_from_msg L now (command_message c cmd text) =
      Inr (cmd\<lparr>sc_params := ps, sc_created_at := now, sc_is_sync_barrier := False\<rparr>) \<and>
    umap_ok ps \<and> map_of ps = wire_params (sc_params cmd)"
proof -
  have "jl_parse L text = Inr (json_norm (command_to_json cmd))"
    using assms(1,4) by (simp add: serialize_command_def json_lib_okD)
  moreover have "read_payload (command_message c cmd text) = Some text"
    unfolding command_message_def
    by (subst read_put_payload) (simp_all add: new_message_def assms(5))
  ultimately obtain ps where ps: "deserialize_command_from_msg L now (command_message c cmd text) =
      Inr (cmd\<lparr>sc_params := ps, sc_created_at := now, sc_is_sync_barrier := False\<rparr>)"
      "map_of ps = wire_params (sc_params cmd)"
    using command_json_roundtrip [OF assms(2,3), of L now]
    by (auto simp: deserialize_command_from_msg_def deserialize_command_def wire_params_def)
  then have "umap_ok ps"
    using deserialize_command_params_ok by (fastforce simp: deserialize_command_from_msg_def split: option.splits)
  then show ?thesis using ps by blast
qed

lemma execute_in_plugin_shm [simp]: "execute_in_plugin cmd (s\<lparr>wk_shm := w\<rparr>) = execute_in_plugin cmd s"
  by (simp add: execute_in_plugin_def split: prod.split)

lemma proxy_execute_sends:
  assumes "mq_lib_ok mq view" and "px_ipc_queue px = Some (server_end i)"
    and "view (sh_shm sh) (req_of i) = Some (c, ms)" and "length ms < c"
    and "serialize_command L (cmd\<lparr>sc_id := command_id_string (px_instrument_name px) (px_next_message_id px)\<rparr>) = Inr text"
  shows "\<exists>px1 sh1. proxy_execute L mq cmd (px, sh) = (Inr (px_next_message_id px), px1, sh1) \<and>
    px_ipc_queue px1 = px_ipc_queue px \<and> px_next_message_id px \<in> set (px_pending px1) \<and>
    view (sh_shm sh1) = (view (sh_shm sh))(req_of i \<mapsto> (c, ms @ [command_message (px_next_message_id px)
      (cmd\<lparr>sc_id := command_id_string (px_instrument_name px) (px_next_message_id px)\<rparr>) text]))"
proof -
  let ?cmd = "cmd\<lparr>sc_id := command_id_string (px_instrument_name px) (px_next_message_id px)\<rparr>"
  let ?m = "command_message (px_next_message_id px) ?cmd text"
  obtain w where w: "send_msg mq ?m (sint (sc_timeout cmd)) (server_end i) (sh_shm sh) = (True, w)"
      and v: "view w = (view (sh_shm sh))(req_of i \<mapsto> (c, ms @ [?m]))"
    using send_msg_ok [OF assms(1), of "server_end i" "req_of i" "sh_shm sh" c ms ?m "sint (sc_timeout cmd)"] assms(3,4)
    by (cases "send_msg mq ?m (sint (sc_timeout cmd)) (server_end i) (sh_shm sh)") auto
  then show ?thesis
    using assms(2,5) by (simp add: proxy_execute_def Let_def proxy_send_def)
qed

lemma process_message_keeps:
  assumes "process_message L mq now m s = Inr s'"
  shows "wk_plugin s' = wk_plugin s" and "wk_last_heartbeat s' = wk_last_heartbeat s" and "wk_ipc_queue s' = wk_ipc_queue s"
  using assms
  by (auto simp: process_message_def handle_shutdown_def handle_sync_continue_def handle_command_def send_command_response_def
      send_sync_ack_def bind_result_Inr_iff Let_def case_prod_unfold split: msg_type.splits if_splits option.splits)

text \<open>The worker's part: a round takes the command, runs it and puts the response at the front of an empty response queue.\<close>

lemma worker_round_answers:
  assumes "mq_lib_ok mq view" and "wk_ipc_queue s = Some (worker_end i)" and "wk_waiting_sync_token s = None"
    and "int now - wk_last_heartbeat s < 500"
    and "view (wk_shm s) (req_of i) = Some (c, msg # ms)" and "view (wk_shm s) (resp_of i) = Some (100, [])"
    and "im_type msg = COMMAND" and "deserialize_command_from_msg L now msg = Inr d"
    and "execute_in_plugin d s = (presp, p')" and "serialize_response L (from_plugin_response presp) = Inr rt"
  shows "\<exists>s2 resp. main_round L mq now s = Inr s2 \<and> wk_plugin_state s2 = p' \<and> wk_plugin s2 = wk_plugin s \<and>
    wk_last_heartbeat s2 = wk_last_heartbeat s \<and>
    im_type resp = RESPONSE \<and> im_id resp = im_id msg \<and> read_payload resp = Some (take IPC_MAX_PAYLOAD rt) \<and>
    on_queues view i (c, ms) (100, resp # (case sc_sync_token d of None \<Rightarrow> [] | Some t \<Rightarrow> [sync_ack_message msg t])) s2"
proof -
  let ?w = "snd (receive_msg mq 100 (worker_end i) (wk_shm s))"
  let ?s1 = "s\<lparr>wk_shm := ?w\<rparr>"
  have r: "fst (receive_msg mq 100 (worker_end i) (wk_shm s)) = Some msg" "view ?w = (view (wk_shm s))(req_of i \<mapsto> (c, ms))"
    using receive_msg_ok [OF assms(1), of "worker_end i" "req_of i" "wk_shm s" c msg ms 100] assms(5) by auto
  have round: "main_round L mq now s = process_message L mq now msg ?s1"
    using assms(2,4) r(1)
    by (cases "receive_msg mq 100 (worker_end i) (wk_shm s)") (simp add: main_round_def send_heartbeat_if_needed_def Let_def)
  have ne: "req_of i \<noteq> resp_of i" using queue_name_inject(3) [of i i] by simp
  have v: "view (wk_shm ?s1) (resp_of i) = Some (100, [])" "view (wk_shm ?s1) (req_of i) = Some (c, ms)" using r(2) assms(6) ne by simp_all
  obtain s2 resp where s2: "process_message L mq now msg ?s1 = Inr s2" "wk_plugin_state s2 = p'"
      "im_type resp = RESPONSE" "im_id resp = im_id msg" "read_payload resp = Some (take IPC_MAX_PAYLOAD rt)"
      "view (wk_shm s2) = (view ?w)(resp_of i \<mapsto> (100, resp # (case sc_sync_token d of None \<Rightarrow> [] | Some t \<Rightarrow> [sync_ack_message msg t])))"
    using process_command_answers [OF assms(1), of ?s1 i 100 "[]" msg L now d presp p' rt] assms(2,3,7-10) v(1) by fastforce
  have "wk_plugin s2 = wk_plugin s" "wk_last_heartbeat s2 = wk_last_heartbeat s" "wk_ipc_queue s2 = wk_ipc_queue s"
    using process_message_keeps [OF s2(1)] by simp_all
  moreover have "wk_waiting_sync_token s2 = None" using process_message_never_waits [OF _ s2(1)] assms(3) by simp
  ultimately show ?thesis
    using s2 assms(2) v ne unfolding round by (intro exI [of _ s2] exI [of _ resp]) (simp add: on_queues_def)
qed

section \<open>Sending\<close>

lemma proxy_execute_queues:
  assumes "mq_lib_ok mq view" and "px_ipc_queue px = Some (server_end i)" and "i = px_instrument_name px"
    and "view (sh_shm sh) (req_of i) = Some (c, Q)"
    and "proxy_execute L mq cmd (px, sh) = (r, px', sh')"
  shows "px_ipc_queue px' = px_ipc_queue px" and "px_instrument_name px' = px_instrument_name px"
    and "px_next_message_id px' = px_next_message_id px + 1"
    and "map_of (px_ready px') n = Some v \<Longrightarrow> cr_success v \<Longrightarrow> map_of (px_ready px) n = Some v"
    and "view (sh_shm sh') = view (sh_shm sh) \<or>
      (\<exists>t. serialize_command L (numbered_command i (px_next_message_id px) cmd) = Inr t \<and>
         view (sh_shm sh') = (view (sh_shm sh))(req_of i \<mapsto> (c, Q @
           [command_message (px_next_message_id px) (numbered_command i (px_next_message_id px) cmd) t])))"
proof -
  let ?c = "px_next_message_id px"
  let ?cmd = "numbered_command i ?c cmd"
  have cmd: "cmd\<lparr>sc_id := command_id_string (px_instrument_name px) ?c\<rparr> = ?cmd" by (simp add: numbered_command_def assms(3))
  have to: "sc_timeout ?cmd = sc_timeout cmd" by (simp add: numbered_command_def)
  consider e where "serialize_command L ?cmd = Inl e" | t where "serialize_command L ?cmd = Inr t"
    by (cases "serialize_command L ?cmd") auto
  then have "px_ipc_queue px' = px_ipc_queue px \<and> px_instrument_name px' = px_instrument_name px \<and> px_next_message_id px' = ?c + 1 \<and>
    (map_of (px_ready px') n = Some v \<longrightarrow> cr_success v \<longrightarrow> map_of (px_ready px) n = Some v) \<and>
    (view (sh_shm sh') = view (sh_shm sh) \<or> (\<exists>t. serialize_command L ?cmd = Inr t \<and>
      view (sh_shm sh') = (view (sh_shm sh))(req_of i \<mapsto> (c, Q @ [command_message ?c ?cmd t]))))" for n v
  proof cases
    case 1
    then show ?thesis using assms(5) by (auto simp: proxy_execute_def Let_def cmd)
  next
    case (2 t)
    let ?m = "command_message ?c ?cmd t"
    obtain ok w where w: "send_msg mq ?m (sint (sc_timeout cmd)) (server_end i) (sh_shm sh) = (ok, w)" by fastforce
    have v: "if ok then view w = (view (sh_shm sh))(req_of i \<mapsto> (c, Q @ [?m])) else view w = view (sh_shm sh)"
      using send_msg_ok [OF assms(1), of "server_end i" "req_of i" "sh_shm sh" c Q ?m "sint (sc_timeout cmd)"]
        send_msg_full [OF assms(1), of "server_end i" "req_of i" "sh_shm sh" c Q ?m "sint (sc_timeout cmd)"] assms(4) w
      by (cases "length Q < c") auto
    show ?thesis
      using assms(2,5) 2 w v to
      by (cases ok) (auto simp: proxy_execute_def Let_def cmd proxy_send_def fulfil_def error_response_def split: if_splits)
  qed
  then show "px_ipc_queue px' = px_ipc_queue px" "px_instrument_name px' = px_instrument_name px" "px_next_message_id px' = ?c + 1"
    "map_of (px_ready px') n = Some v \<Longrightarrow> cr_success v \<Longrightarrow> map_of (px_ready px) n = Some v"
    "view (sh_shm sh') = view (sh_shm sh) \<or> (\<exists>t. serialize_command L ?cmd = Inr t \<and>
      view (sh_shm sh') = (view (sh_shm sh))(req_of i \<mapsto> (c, Q @ [command_message ?c ?cmd t])))"
    by blast+
qed

lemma command_message_fields [simp]: "im_type (command_message c cmd t) = COMMAND" "im_id (command_message c cmd t) = c"
  by (simp_all add: command_message_def)

lemma link_inv_execute:
  assumes "mq_lib_ok mq view" and "link_inv L view ld p0 l" and "n = px_next_message_id (ln_proxy l)" and "Suc (unat n) < 2 ^ 64"
    and "fits_wire L (numbered_command (px_instrument_name (ln_proxy l)) n cmd)"
    and "proxy_execute L mq cmd (ln_proxy l, ln_shared l) = (r, px', sh')"
  shows "link_inv L view ld p0 (l\<lparr>ln_proxy := px', ln_shared := sh', ln_sent := ln_sent l @ [(n, cmd)]\<rparr>)"
proof -
  let ?i = "px_instrument_name (ln_proxy l)"
  obtain c Q c' R runs where ok: "link_ok L view ld p0 c Q c' R runs l" using assms(2) unfolding link_inv_def by blast
  then have q: "px_ipc_queue (ln_proxy l) = Some (server_end ?i)" "view (sh_shm (ln_shared l)) (req_of ?i) = Some (c, Q)"
    by (simp_all add: link_ok_def on_queues_def Let_def)
  note ex = proxy_execute_queues [OF assms(1) q(1) refl q(2) assms(6)]
  have new: "\<forall>x \<in> set (ln_sent l @ [(n, cmd)]). fst x < n + 1" "n \<notin> fst ` set (ln_sent l)"
    using ok unat_inc [of n] assms(3,4)
    by (force simp: link_ok_def Let_def word_less_nat_alt)+
  obtain Q' where Q': "view (sh_shm sh') (req_of ?i) = Some (c, Q')" "view (sh_shm sh') (resp_of ?i) = Some (c', R)"
      "Q' = Q \<or> (\<exists>m. Q' = Q @ [m] \<and> im_id m = n \<and> im_type m = COMMAND \<and> carries L ?i (ln_sent l @ [(n, cmd)]) m)"
    using ex(5) ok q(2) assms(3,5) queue_name_inject(3) [of ?i ?i]
    by (elim disjE exE conjE)
      (fastforce simp: link_ok_def on_queues_def Let_def carries_def, fastforce simp: link_ok_def on_queues_def Let_def carries_def)
  have "subseq (map fst runs @ command_ids Q') (map fst (ln_sent l) @ [n])"
  proof -
    have s: "subseq (map fst runs @ command_ids Q) (map fst (ln_sent l))" using ok by (simp add: link_ok_def Let_def)
    from list_emb_append_mono [OF s, of "[n]" "[n]"]
    have "subseq (map fst runs @ command_ids Q @ [n]) (map fst (ln_sent l) @ [n])" by simp
    moreover from list_emb_prefix [OF s] have "subseq (map fst runs @ command_ids Q) (map fst (ln_sent l) @ [n])" .
    ultimately show ?thesis using Q'(3) by auto
  qed
  moreover have "\<forall>m \<in> set Q'. im_type m = COMMAND \<longrightarrow> carries L ?i (ln_sent l @ [(n, cmd)]) m"
    using Q'(3) ok by (auto simp: link_ok_def Let_def intro: carries_append)
  ultimately have "link_ok L view ld p0 c Q' c' R runs (l\<lparr>ln_proxy := px', ln_shared := sh', ln_sent := ln_sent l @ [(n, cmd)]\<rparr>)"
    using ok ex(1-4) new assms(3) Q'(1,2)
    by (auto simp: link_ok_def Let_def on_queues_def intro: runs_sent_append)
  then show ?thesis unfolding link_inv_def by blast
qed

section \<open>Working\<close>

text \<open>The plugin runs the command a message carries.\<close>

lemma plugin_runs_carried:
  assumes "json_lib_ok L" and "carries L i sent m" and "wk_waiting_sync_token s = None" and "plugin_fits L (wk_plugin s)"
  shows "\<exists>d presp. plugin_runs L now m s = [(im_id m, d, presp)] \<and> runs_sent i sent (im_id m, d, presp) \<and> response_fits L presp"
proof -
  let ?n = "\<lambda>cmd. numbered_command i (im_id m) cmd"
  obtain cmd t where cmd: "(im_id m, cmd) \<in> set sent" "fits_wire L (?n cmd)" "serialize_command L (?n cmd) = Inr t"
      "m = command_message (im_id m) (?n cmd) t"
    using assms(2) unfolding carries_def by blast
  have "\<exists>ps. deserialize_command_from_msg L now (command_message (im_id m) (?n cmd) t) =
      Inr ((?n cmd)\<lparr>sc_params := ps, sc_created_at := now, sc_is_sync_barrier := False\<rparr>) \<and>
    umap_ok ps \<and> map_of ps = wire_params (sc_params (?n cmd))"
    using cmd(2,3) by (intro command_message_decodes [OF assms(1)]) (auto simp: fits_wire_def)
  then obtain ps where ps: "deserialize_command_from_msg L now m = Inr ((?n cmd)\<lparr>sc_params := ps, sc_created_at := now, sc_is_sync_barrier := False\<rparr>)"
      "umap_ok ps" "map_of ps = wire_params (sc_params cmd)"
    unfolding cmd(4) [symmetric] by (auto simp: numbered_command_def)
  let ?d = "(?n cmd)\<lparr>sc_params := ps, sc_created_at := now, sc_is_sync_barrier := False\<rparr>"
  have "im_type m = COMMAND" using cmd(4) command_message_fields(1) by metis
  then have "plugin_runs L now m s = [(im_id m, ?d, fst (execute_in_plugin ?d s))]"
    using assms(3) ps(1) by (simp add: plugin_runs_def)
  moreover have "runs_sent i sent (im_id m, ?d, fst (execute_in_plugin ?d s))"
    using cmd(1) ps(2,3) by (auto simp: runs_sent_def decoded_as_def numbered_command_def execute_in_plugin_def)
  ultimately show ?thesis using plugin_fitsD [OF assms(4)] by blast
qed

lemma link_inv_work:
  assumes "json_lib_ok L" and "mq_lib_ok mq view" and "plugin_fits L ld" and "link_inv L view ld p0 l"
    and "s = (ln_worker l)\<lparr>wk_shm := sh_shm (ln_shared l)\<rparr>" and "main_round L mq now s = Inr s'"
  shows "link_inv L view ld p0 (l\<lparr>ln_worker := s', ln_shared := (ln_shared l)\<lparr>sh_shm := wk_shm s'\<rparr>\<rparr>)"
proof -
  let ?i = "px_instrument_name (ln_proxy l)"
  obtain c Q c' R runs where ok: "link_ok L view ld p0 c Q c' R runs l" using assms(4) unfolding link_inv_def by blast
  then have s: "on_queues view ?i (c, Q) (c', R) s" "wk_plugin s = ld" by (simp_all add: link_ok_def assms(5) Let_def)
  obtain s1 R1 where s1: "take_message mq now s = ((case Q of [] \<Rightarrow> None | m # Q' \<Rightarrow> Some m), s1)" "on_queues view ?i (c, tl Q) (c', R1) s1"
      "\<forall>m \<in> set R1. m \<in> set R \<or> im_type m = HEARTBEAT" "wk_plugin s1 = ld" "wk_plugin_state s1 = wk_plugin_state s"
    using take_message_queues [OF assms(2) s(1), of now] s(2) by blast
  have old: "\<forall>m \<in> set R1. im_type m = RESPONSE \<longrightarrow> answers L runs m"
    using s1(3) ok by (fastforce simp: link_ok_def Let_def)
  let ?trace = "plugin_trace ld (wk_plugin_state s) (map snd (plugin_part (round_runs L mq now s))) (wk_plugin_state s')"
  have "\<exists>R2. on_queues view ?i (c, tl Q) (c', R2) s' \<and> wk_plugin s' = ld \<and> ?trace \<and>
      (\<forall>m \<in> set R2. im_type m = RESPONSE \<longrightarrow> answers L (runs @ round_runs L mq now s) m) \<and>
      (\<forall>x \<in> set (round_runs L mq now s). runs_sent ?i (ln_sent l) x \<and> response_fits L (snd (snd x))) \<and>
      map fst (round_runs L mq now s) @ command_ids (tl Q) = command_ids Q"
  proof (cases Q)
    case Nil
    then have "s' = s1" "round_runs L mq now s = []" using assms(6) s1(1) by (simp_all add: main_round_take round_runs_def)
    then show ?thesis using s1(2,4,5) old Nil by (intro exI [of _ R1]) simp
  next
    case (Cons m Q')
    then have pm: "process_message L mq now m s1 = Inr s'" and runs: "round_runs L mq now s = plugin_runs L now m s1"
      using assms(6) s1(1) by (simp_all add: main_round_take round_runs_def)
    obtain R2 where R2: "on_queues view ?i (c, tl Q) (c', R2) s'" "wk_plugin s' = ld" "?trace"
        "\<forall>x \<in> set R2. x \<in> set R1 \<or> im_type x \<noteq> RESPONSE \<or> answers L (plugin_runs L now m s1) x"
      using process_message_queues [OF assms(2) s1(2) pm] s1(4,5) runs by auto
    have ans: "\<forall>m \<in> set R2. im_type m = RESPONSE \<longrightarrow> answers L (runs @ round_runs L mq now s) m"
      using R2(4) old runs answers_append by metis
    have w: "wk_waiting_sync_token s1 = None" using s1(2) by (simp add: on_queues_def)
    have "(\<forall>x \<in> set (round_runs L mq now s). runs_sent ?i (ln_sent l) x \<and> response_fits L (snd (snd x))) \<and>
        map fst (round_runs L mq now s) @ command_ids (tl Q) = command_ids Q"
    proof (cases "im_type m = COMMAND")
      case True
      then have "carries L ?i (ln_sent l) m" using ok Cons by (simp add: link_ok_def Let_def)
      then show ?thesis
        using plugin_runs_carried [OF assms(1) _ w, of ?i "ln_sent l" m now] s1(4) assms(3) runs True Cons by auto
    next
      case False
      then show ?thesis using runs Cons by (simp add: plugin_runs_def)
    qed
    then show ?thesis using R2(1-3) ans by blast
  qed
  then obtain R2 where R2: "on_queues view ?i (c, tl Q) (c', R2) s'" "wk_plugin s' = ld" "?trace"
      "\<forall>m \<in> set R2. im_type m = RESPONSE \<longrightarrow> answers L (runs @ round_runs L mq now s) m"
      "\<forall>x \<in> set (round_runs L mq now s). runs_sent ?i (ln_sent l) x \<and> response_fits L (snd (snd x))"
      "map fst (round_runs L mq now s) @ command_ids (tl Q) = command_ids Q"
    by blast
  have "wk_plugin_state (ln_worker l) = wk_plugin_state s" by (simp add: assms(5))
  then have "plugin_trace ld p0 (map snd (plugin_part (runs @ round_runs L mq now s))) (wk_plugin_state s')"
    using ok R2(3) by (auto simp: link_ok_def Let_def plugin_trace_append)
  moreover have "\<forall>m \<in> set (tl Q). m \<in> set Q" by (cases Q) auto
  ultimately have "link_ok L view ld p0 c (tl Q) c' R2 (runs @ round_runs L mq now s) (l\<lparr>ln_worker := s', ln_shared := (ln_shared l)\<lparr>sh_shm := wk_shm s'\<rparr>\<rparr>)"
    using ok R2 by (auto simp: link_ok_def Let_def on_queues_def intro: true_answer_append)
  then show ?thesis unfolding link_inv_def by blast
qed

section \<open>Listening\<close>

lemma sync_ack_queues:
  assumes "mq_lib_ok mq view" and "px_ipc_queue px = Some (server_end i)" and "view (sh_shm sh) (req_of i) = Some (c, Q)"
  shows "\<exists>Q'. view (sh_shm (handle_sync_ack_message mq msg px sh)) = (view (sh_shm sh))(req_of i \<mapsto> (c, Q')) \<and>
    (Q' = Q \<or> (\<exists>m. im_type m = SYNC_CONTINUE \<and> Q' = Q @ [m]))"
proof -
  let ?m = "new_message\<lparr>im_type := SYNC_CONTINUE, im_id := 0, im_sync_token := im_sync_token msg, im_payload_size := 0\<rparr>"
  let ?v = "view (snd (send_msg mq ?m 1000 (server_end i) (sh_shm sh)))"
  have "?v = (if length Q < c then (view (sh_shm sh))(req_of i \<mapsto> (c, Q @ [?m])) else (view (sh_shm sh))(req_of i \<mapsto> (c, Q)))"
    using send_msg_ok [OF assms(1), of "server_end i" "req_of i" "sh_shm sh" c Q ?m 1000]
      send_msg_full [OF assms(1), of "server_end i" "req_of i" "sh_shm sh" c Q ?m 1000] assms(3)
    by (auto simp: fun_upd_idem)
  then have "?v = (view (sh_shm sh))(req_of i \<mapsto> (c, Q @ [?m])) \<or> ?v = (view (sh_shm sh))(req_of i \<mapsto> (c, Q))" by (simp split: if_splits)
  moreover have "view (sh_shm sh) = (view (sh_shm sh))(req_of i \<mapsto> (c, Q))" using assms(3) by (simp add: fun_upd_idem)
  moreover have "view (sh_shm (handle_sync_ack_message mq msg px sh)) \<in> {?v, view (sh_shm sh)}"
    using assms(2) by (auto simp: handle_sync_ack_message_def send_sync_continue_def proxy_send_def Let_def case_prod_unfold)
  moreover have "im_type ?m = SYNC_CONTINUE" by simp
  ultimately show ?thesis by (metis insertE singletonD)
qed

text \<open>A response in the queue decodes to what the plugin answered.\<close>

lemma answers_decode:
  assumes "json_lib_ok L" and "answers L runs m" and "\<forall>x \<in> set runs. response_fits L (snd (snd x))"
  shows "\<exists>t r. read_payload m = Some t \<and> deserialize_response L t = Inr r \<and> true_answer runs (im_id m) r"
proof -
  obtain d presp rt where x: "(im_id m, d, presp) \<in> set runs" "serialize_response L (from_plugin_response presp) = Inr rt"
      "read_payload m = Some (take IPC_MAX_PAYLOAD rt)"
    using assms(2) unfolding answers_def by blast
  then have f: "length rt \<le> IPC_MAX_PAYLOAD" "return_value_finite (from_plugin_response presp)"
    using assms(3) unfolding response_fits_def by fastforce+
  have "deserialize_response L rt = Inr (response_on_wire (from_plugin_response presp))"
    using json_lib_okD [OF assms(1)] x(2) response_json_roundtrip [OF f(2), of L]
    by (simp add: serialize_response_def deserialize_response_def)
  then show ?thesis using x f(1) by (auto simp: true_answer_def)
qed

lemma handle_response_ready:
  assumes "handle_response_message L msg px = Inr px'"
  shows "px_ipc_queue px' = px_ipc_queue px" "px_instrument_name px' = px_instrument_name px" "px_next_message_id px' = px_next_message_id px"
    "map_of (px_ready px') n = Some r \<Longrightarrow> map_of (px_ready px) n = Some r \<or>
      n = im_id msg \<and> (\<exists>t. read_payload msg = Some t \<and> deserialize_response L t = Inr r)"
  using assms
  by (auto simp: handle_response_message_def bind_result_Inr_iff fulfil_def Let_def split: option.splits if_splits)

lemma listener_queues:
  assumes "mq_lib_ok mq view" and "px_ipc_queue px = Some (server_end i)"
    and "view (sh_shm sh) (req_of i) = Some (c, Q)" and "view (sh_shm sh) (resp_of i) = Some (c', R)"
    and "listener_round L mq t (px, sh) = Inr (px', sh')"
  shows "\<exists>Q'. view (sh_shm sh') (req_of i) = Some (c, Q') \<and> view (sh_shm sh') (resp_of i) = Some (c', tl R) \<and>
      (Q' = Q \<or> (\<exists>m. im_type m = SYNC_CONTINUE \<and> Q' = Q @ [m]))"
    and "px_ipc_queue px' = px_ipc_queue px" and "px_instrument_name px' = px_instrument_name px"
    and "px_next_message_id px' = px_next_message_id px"
    and "map_of (px_ready px') n = Some r \<Longrightarrow> map_of (px_ready px) n = Some r \<or>
      (\<exists>m u. m \<in> set R \<and> im_type m = RESPONSE \<and> n = im_id m \<and> read_payload m = Some u \<and> deserialize_response L u = Inr r)"
proof -
  have ne: "req_of i \<noteq> resp_of i" "resp_of i \<noteq> req_of i" using queue_name_inject(3) [of i i] by simp_all
  obtain m w where rm: "receive_msg mq 100 (server_end i) (sh_shm sh) = (m, w)" by fastforce
  have m: "m = (case R of [] \<Rightarrow> None | m # R' \<Rightarrow> Some m) \<and> view w = (view (sh_shm sh))(resp_of i \<mapsto> (c', tl R))"
    using assms(4) receive_msg_ok [OF assms(1), of "server_end i" "resp_of i" "sh_shm sh" c' "hd R" "tl R" 100]
      receive_msg_empty [OF assms(1), of "server_end i" "resp_of i" "sh_shm sh" c' 100] rm
    by (cases R) (auto simp: fun_upd_idem)
  define sh1 where "sh1 = sh\<lparr>sh_shm := w\<rparr>"
  have v1: "view (sh_shm sh1) (req_of i) = Some (c, Q)" "view (sh_shm sh1) (resp_of i) = Some (c', tl R)"
    using m assms(3) ne by (simp_all add: sh1_def)
  obtain Q' where Q': "view (sh_shm (handle_sync_ack_message mq msg px sh1)) (req_of i) = Some (c, Q' msg)"
      "view (sh_shm (handle_sync_ack_message mq msg px sh1)) (resp_of i) = Some (c', tl R)"
      "Q' msg = Q \<or> (\<exists>m. im_type m = SYNC_CONTINUE \<and> Q' msg = Q @ [m])" for msg
    using sync_ack_queues [OF assms(1,2) v1(1)] v1(2) ne by (metis fun_upd_same fun_upd_other)
  have "((px', sh') = (px, sh1) \<or> (\<exists>x. im_type x = RESPONSE \<and> x \<in> set R \<and> handle_response_message L x px = Inr px' \<and> sh' = sh1) \<or>
      (\<exists>x. (px', sh') = (px, handle_sync_ack_message mq x px sh1)) \<or> (\<exists>y. (px', sh') = (px, sh1\<lparr>sh_processes := y\<rparr>)))"
    using assms(2,5) rm m
    by (cases R) (auto simp: listener_round_def handle_ipc_message_def bind_result_Inr_iff simp flip: sh1_def split: msg_type.splits)
  then show "\<exists>Q'. view (sh_shm sh') (req_of i) = Some (c, Q') \<and> view (sh_shm sh') (resp_of i) = Some (c', tl R) \<and>
      (Q' = Q \<or> (\<exists>m. im_type m = SYNC_CONTINUE \<and> Q' = Q @ [m]))"
    and "px_ipc_queue px' = px_ipc_queue px" and "px_instrument_name px' = px_instrument_name px"
    and "px_next_message_id px' = px_next_message_id px"
    and "map_of (px_ready px') n = Some r \<Longrightarrow> map_of (px_ready px) n = Some r \<or>
      (\<exists>m u. m \<in> set R \<and> im_type m = RESPONSE \<and> n = im_id m \<and> read_payload m = Some u \<and> deserialize_response L u = Inr r)"
    using v1 Q' handle_response_ready [of L _ px px'] by (auto, blast+)
qed

lemma link_inv_listen:
  assumes "json_lib_ok L" and "mq_lib_ok mq view" and "link_inv L view ld p0 l"
    and "listener_round L mq t (ln_proxy l, ln_shared l) = Inr (px', sh')"
  shows "link_inv L view ld p0 (l\<lparr>ln_proxy := px', ln_shared := sh'\<rparr>)"
proof -
  let ?i = "px_instrument_name (ln_proxy l)"
  obtain c Q c' R runs where ok: "link_ok L view ld p0 c Q c' R runs l" using assms(3) unfolding link_inv_def by blast
  then have q: "px_ipc_queue (ln_proxy l) = Some (server_end ?i)" "view (sh_shm (ln_shared l)) (req_of ?i) = Some (c, Q)"
      "view (sh_shm (ln_shared l)) (resp_of ?i) = Some (c', R)"
    by (simp_all add: link_ok_def on_queues_def Let_def)
  note li = listener_queues [OF assms(2) q assms(4)]
  obtain Q' where Q': "view (sh_shm sh') (req_of ?i) = Some (c, Q')" "view (sh_shm sh') (resp_of ?i) = Some (c', tl R)"
      "Q' = Q \<or> (\<exists>m. im_type m = SYNC_CONTINUE \<and> Q' = Q @ [m])"
    using li(1) by blast
  have fits: "\<forall>x \<in> set runs. response_fits L (snd (snd x))" using ok by (simp add: link_ok_def Let_def)
  have ready: "true_answer runs n r" if n: "map_of (px_ready px') n = Some r" "cr_success r" for n r
    using li(5) [OF n(1)]
  proof (elim disjE exE conjE)
    assume "map_of (px_ready (ln_proxy l)) n = Some r"
    then show ?thesis using ok n(2) by (simp add: link_ok_def Let_def)
  next
    fix m u assume m: "m \<in> set R" "im_type m = RESPONSE" "n = im_id m" "read_payload m = Some u" "deserialize_response L u = Inr r"
    then have "answers L runs m" using ok by (simp add: link_ok_def Let_def)
    then show ?thesis using answers_decode [OF assms(1) _ fits] m(3-5) by fastforce
  qed
  have "set (tl R) \<subseteq> set R" by (cases R) auto
  moreover have "command_ids Q' = command_ids Q" "\<forall>m \<in> set Q'. im_type m = COMMAND \<longrightarrow> m \<in> set Q" using Q'(3) by auto
  ultimately have "link_ok L view ld p0 c Q' c' (tl R) runs (l\<lparr>ln_proxy := px', ln_shared := sh'\<rparr>)"
    using ok li(2-4) Q'(1,2) ready by (auto simp: link_ok_def Let_def on_queues_def)
  then show ?thesis unfolding link_inv_def by blast
qed

section \<open>Every interleaving\<close>

lemma subseq_distinct: "subseq xs ys \<Longrightarrow> distinct ys \<Longrightarrow> distinct xs"
  by (induction rule: list_emb.induct) (auto dest: list_emb_set)

lemma link_inv_step:
  assumes "json_lib_ok L" and "mq_lib_ok mq view" and "plugin_fits L ld" and "link_inv L view ld p0 l" and "link_step L mq view l l'"
  shows "link_inv L view ld p0 l'"
  using assms(5)
proof (cases rule: link_step.cases)
  case (execute c cmd r px' sh')
  then show ?thesis using link_inv_execute [OF assms(2,4)] by simp
next
  case (work s now s')
  then show ?thesis using link_inv_work [OF assms(1-4)] by simp
next
  case (listen t px' sh')
  then show ?thesis using link_inv_listen [OF assms(1,2,4)] by simp
next
  case death
  obtain c Q c' R runs where ok: "link_ok L view ld p0 c Q c' R runs l" using assms(4) unfolding link_inv_def by blast
  have "px_ipc_queue (handle_worker_death px) = px_ipc_queue px" for px by (simp add: handle_worker_death_def fail_pending_def)
  then have "link_ok L view ld p0 c Q c' R runs l'"
    using ok unfolding death by (auto simp: link_ok_def Let_def handle_worker_death_def error_response_def split: if_splits)
  then show ?thesis unfolding link_inv_def by blast
next
  case (others sh')
  then show ?thesis using assms(4) by (auto simp: link_inv_def link_ok_def Let_def on_queues_def)
qed

lemma link_reachable_inv:
  assumes "json_lib_ok L" and "mq_lib_ok mq view" and "link_new view l0" and "plugin_fits L (wk_plugin (ln_worker l0))"
    and "link_reachable L mq view l0 l"
  shows "link_inv L view (wk_plugin (ln_worker l0)) (wk_plugin_state (ln_worker l0)) l"
  using assms(5)
  by induction (use link_inv_new [OF assms(3)] link_inv_step [OF assms(1,2,4)] in blast)+

section \<open>Properties\<close>

lemma subseq_map_plugin_part: "subseq (map fst (plugin_part runs)) (map fst runs)"
  by (induction runs) (auto simp: plugin_part_def)

lemma numbered_nop_response:
  "decoded_as i c cmd d \<Longrightarrow> barrier_nop_response d = barrier_nop_response (numbered_command i c cmd)"
  by (simp add: decoded_as_def barrier_nop_response_def numbered_command_def)

text \<open>C3: The plugin executes commands at most once, in the order they were sent, and a future gets the answer to its own command. In every
  state that client threads, the worker, the response thread and the rest of the server can reach in any interleaving,
  the plugin has gone from its first state to its present one by executing a list of commands, and nothing else: each of
  them has another identifier, they are some of the commands sent, in the same order, and what the plugin was given
  for each is its identifier, instrument, verb and parameters as far as they fit the plugin's C structure
  (\<^const>\<open>plugin_receives\<close>). A future whose value reports success holds exactly what the plugin answered to the
  command of that future; only the synthetic \<^verbatim>\<open>__BARRIER_NOP__\<close>, which no plugin sees, is answered by the worker. The responses of
  the plugin that can be encoded fit the 4096-byte payload.\<close>

theorem commands_matched:
  assumes "json_lib_ok L" and "mq_lib_ok mq view" and "link_new view l0" and "plugin_fits L (wk_plugin (ln_worker l0))"
    and "link_reachable L mq view l0 l" and "i = px_instrument_name (ln_proxy l)"
  shows "\<exists>runs.
    plugin_trace (wk_plugin (ln_worker l0)) (wk_plugin_state (ln_worker l0)) (map snd runs) (wk_plugin_state (ln_worker l)) \<and>
    distinct (map fst runs) \<and> subseq (map fst runs) (map fst (ln_sent l)) \<and>
    (\<forall>c pc presp. (c, pc, presp) \<in> set runs \<longrightarrow>
      (\<exists>cmd. (c, cmd) \<in> set (ln_sent l) \<and>
        plugin_receives (command_id_string i c) (sc_instrument_name cmd) (sc_verb cmd) (sc_params cmd) (sc_expects_response cmd) pc)) \<and>
    (\<forall>c r. map_of (px_ready (ln_proxy l)) c = Some r \<and> cr_success r \<longrightarrow>
      (\<exists>pc presp. (c, pc, presp) \<in> set runs \<and> r = response_on_wire (from_plugin_response presp)) \<or>
      (\<exists>cmd. (c, cmd) \<in> set (ln_sent l) \<and> sc_verb cmd = ''__BARRIER_NOP__'' \<and>
        r = response_on_wire (from_plugin_response (barrier_nop_response (numbered_command i c cmd)))))"
proof -
  obtain n Q n' R runs where ok: "link_ok L view (wk_plugin (ln_worker l0)) (wk_plugin_state (ln_worker l0)) n Q n' R runs l"
    using link_reachable_inv [OF assms(1-5)] unfolding link_inv_def by blast
  then have s: "subseq (map fst runs @ command_ids Q) (map fst (ln_sent l))" "distinct (map fst (ln_sent l))"
    by (simp_all add: link_ok_def Let_def)
  have "subseq (map fst runs) (map fst runs @ command_ids Q)" by (intro list_emb_prefix) simp
  then have sub: "subseq (map fst (plugin_part runs)) (map fst (ln_sent l))"
    using s(1) subseq_map_plugin_part subseq_order.order_trans by blast
  then have dist: "distinct (map fst (plugin_part runs))" using s(2) by (rule subseq_distinct)
  have sent: "\<exists>cmd. (c, cmd) \<in> set (ln_sent l) \<and> decoded_as i c cmd d \<and> (sc_verb d = ''__BARRIER_NOP__'' \<longrightarrow> presp = barrier_nop_response d)"
    if "(c, d, presp) \<in> set runs" for c d presp
    using ok that unfolding assms(6) by (fastforce simp: link_ok_def Let_def runs_sent_def)
  have part: "(c, to_plugin_command d, presp) \<in> set (plugin_part runs)"
    if "(c, d, presp) \<in> set runs" "sc_verb d \<noteq> ''__BARRIER_NOP__''" for c d presp
    using that by (force simp: plugin_part_def)
  have "\<exists>cmd. (c, cmd) \<in> set (ln_sent l) \<and> receives i c cmd pc" if "(c, pc, presp) \<in> set (plugin_part runs)" for c pc presp
    using that sent decoded_receives by (fastforce simp: plugin_part_def)
  moreover have "(\<exists>pc presp. (c, pc, presp) \<in> set (plugin_part runs) \<and> r = response_on_wire (from_plugin_response presp)) \<or>
      (\<exists>cmd. (c, cmd) \<in> set (ln_sent l) \<and> sc_verb cmd = ''__BARRIER_NOP__'' \<and>
        r = response_on_wire (from_plugin_response (barrier_nop_response (numbered_command i c cmd))))"
    if r: "map_of (px_ready (ln_proxy l)) c = Some r" "cr_success r" for c r
  proof -
    have "true_answer runs c r" using ok r by (simp add: link_ok_def Let_def)
    then obtain d presp where d: "(c, d, presp) \<in> set runs" "r = response_on_wire (from_plugin_response presp)"
      unfolding true_answer_def by blast
    show ?thesis
    proof (cases "sc_verb d = ''__BARRIER_NOP__''")
      case True
      then show ?thesis using sent [OF d(1)] d(2) numbered_nop_response by (auto simp: decoded_as_def)
    next
      case False
      then show ?thesis using part [OF d(1)] d(2) by blast
    qed
  qed
  moreover have "plugin_trace (wk_plugin (ln_worker l0)) (wk_plugin_state (ln_worker l0)) (map snd (plugin_part runs)) (wk_plugin_state (ln_worker l))"
    using ok by (simp add: link_ok_def Let_def)
  ultimately show ?thesis using sub dist by (intro exI [of _ "plugin_part runs"]) blast
qed

section \<open>One command\<close>

text \<open>What the worker's plugin must do for its response to a command to fit the wire: when it is given that command, the response encodes,
  the text fits the payload and a numeric return value is finite.\<close>

definition plugin_answers_ok :: "json_lib \<Rightarrow> string \<Rightarrow> u64 \<Rightarrow> serialized_command \<Rightarrow> ('p, 'w) worker \<Rightarrow> bool" where
  "plugin_answers_ok L i c cmd s \<longleftrightarrow>
     (\<forall>pc presp p'. receives i c cmd pc \<longrightarrow> plugin_trace (wk_plugin s) (wk_plugin_state s) [(pc, presp)] p' \<longrightarrow>
        return_value_finite (from_plugin_response presp) \<and>
        (\<exists>t. serialize_response L (from_plugin_response presp) = Inr t \<and> length t \<le> IPC_MAX_PAYLOAD))"

lemma numbered_message_decodes:
  assumes "json_lib_ok L" and "umap_ok (sc_params cmd)" and "arrays_finite (sc_params cmd)"
    and "serialize_command L (numbered_command i c cmd) = Inr text" and "length text \<le> IPC_MAX_PAYLOAD"
  shows "\<exists>d. deserialize_command_from_msg L now (command_message c (numbered_command i c cmd) text) = Inr d \<and> decoded_as i c cmd d"
  using command_message_decodes [OF assms(1) _ _ assms(4,5), of now c] assms(2,3)
  by (auto simp: numbered_command_def decoded_as_def)

text \<open>The plugin runs a decoded command once, and its answer reads back.\<close>

lemma plugin_answer:
  assumes "json_lib_ok L" and "decoded_as i c cmd d" and "sc_verb cmd \<noteq> ''__BARRIER_NOP__''" and "plugin_answers_ok L i c cmd s"
  obtains presp p' rt where "execute_in_plugin d s = (presp, p')"
    and "plugin_trace (wk_plugin s) (wk_plugin_state s) [(to_plugin_command d, presp)] p'"
    and "serialize_response L (from_plugin_response presp) = Inr rt" and "length rt \<le> IPC_MAX_PAYLOAD"
    and "deserialize_response L rt = Inr (response_on_wire (from_plugin_response presp))"
proof -
  obtain presp p' where run: "execute_in_plugin d s = (presp, p')" by fastforce
  have "sc_verb d \<noteq> ''__BARRIER_NOP__''" using assms(2,3) by (simp add: decoded_as_def)
  then have tr: "plugin_trace (wk_plugin s) (wk_plugin_state s) [(to_plugin_command d, presp)] p'"
    using execute_in_plugin_trace [OF run] by simp
  then obtain rt where rt: "serialize_response L (from_plugin_response presp) = Inr rt" "length rt \<le> IPC_MAX_PAYLOAD"
    and fin: "return_value_finite (from_plugin_response presp)"
    using assms(4) decoded_receives [OF assms(2)] unfolding plugin_answers_ok_def by blast
  have "deserialize_response L rt = Inr (response_on_wire (from_plugin_response presp))"
    using json_lib_okD [OF assms(1)] rt(1) response_json_roundtrip [OF fin, of L]
    by (simp add: serialize_response_def deserialize_response_def)
  then show thesis using that run tr rt by blast
qed

text \<open>A round of the worker and a round of the response thread bring the answer back.\<close>

lemma command_round_trip:
  fixes s :: "('p, 'w) worker" and sh :: "('w, 'o) shared"
  assumes "json_lib_ok L" and "mq_lib_ok mq view"
    and "px_ipc_queue px = Some (server_end i)"
    and "view (sh_shm sh) (req_of i) = Some (100, [])" and "view (sh_shm sh) (resp_of i) = Some (100, [])"
    and "wk_ipc_queue s = Some (worker_end i)" and "wk_waiting_sync_token s = None"
    and "int now - wk_last_heartbeat s < 500"
    and "sc_verb cmd \<noteq> ''__BARRIER_NOP__''"
    and "plugin_answers_ok L (px_instrument_name px) (px_next_message_id px) cmd s"
    and "umap_ok (sc_params cmd)" and "arrays_finite (sc_params cmd)"
    and "serialize_command L (numbered_command (px_instrument_name px) (px_next_message_id px) cmd) = Inr text"
    and "length text \<le> IPC_MAX_PAYLOAD"
  shows "\<exists>c px1 sh1 s2 px2 sh2 pc presp.
    proxy_execute L mq cmd (px, sh) = (Inr c, px1, sh1) \<and>
    main_round L mq now (s\<lparr>wk_shm := sh_shm sh1\<rparr>) = Inr s2 \<and>
    listener_round L mq t (px1, sh1\<lparr>sh_shm := wk_shm s2\<rparr>) = Inr (px2, sh2) \<and>
    receives (px_instrument_name px) c cmd pc \<and>
    plugin_trace (wk_plugin s) (wk_plugin_state s) [(pc, presp)] (wk_plugin_state s2) \<and>
    map_of (px_ready px2) c = Some (response_on_wire (from_plugin_response presp)) \<and>
    c \<notin> set (px_pending px2)"
proof -
  let ?c = "px_next_message_id px"
  let ?cmd = "numbered_command (px_instrument_name px) ?c cmd"
  let ?msg = "command_message ?c ?cmd text"
  have eq: "cmd\<lparr>sc_id := command_id_string (px_instrument_name px) ?c\<rparr> = ?cmd" by (simp add: numbered_command_def)
  obtain px1 sh1 where ex: "proxy_execute L mq cmd (px, sh) = (Inr ?c, px1, sh1)"
    and q1: "px_ipc_queue px1 = Some (server_end i)" and pend: "?c \<in> set (px_pending px1)"
    and v1: "view (sh_shm sh1) = (view (sh_shm sh))(req_of i \<mapsto> (100, [?msg]))"
    using proxy_execute_sends [OF assms(2,3,4) _ assms(13) [folded eq]] assms(3) unfolding eq by auto
  obtain d where dec: "deserialize_command_from_msg L now ?msg = Inr d" and d: "decoded_as (px_instrument_name px) ?c cmd d"
    using numbered_message_decodes [OF assms(1,11-14)] by blast
  obtain presp p' rt where run: "execute_in_plugin d s = (presp, p')"
    and tr: "plugin_trace (wk_plugin s) (wk_plugin_state s) [(to_plugin_command d, presp)] p'"
    and rt: "serialize_response L (from_plugin_response presp) = Inr rt" "length rt \<le> IPC_MAX_PAYLOAD"
      "deserialize_response L rt = Inr (response_on_wire (from_plugin_response presp))"
    by (rule plugin_answer [OF assms(1) d assms(9,10)])
  let ?s1 = "s\<lparr>wk_shm := sh_shm sh1\<rparr>"
  have v1': "view (wk_shm ?s1) (req_of i) = Some (100, [?msg])" "view (wk_shm ?s1) (resp_of i) = Some (100, [])"
    using v1 assms(5) queue_name_inject(3) [of i i] by simp_all
  have run': "execute_in_plugin d ?s1 = (presp, p')" using run by simp
  obtain s2 resp rest where s2: "main_round L mq now ?s1 = Inr s2" "wk_plugin_state s2 = p'"
    and resp: "im_type resp = RESPONSE" "im_id resp = ?c" "read_payload resp = Some rt"
    and v2: "view (wk_shm s2) (resp_of i) = Some (100, resp # rest)"
    using worker_round_answers [OF assms(2) _ _ _ v1' command_message_fields(1) dec run' rt(1)] assms(6-8) rt(2)
    by (auto simp: on_queues_def)
  have front: "view (sh_shm (sh1\<lparr>sh_shm := wk_shm s2\<rparr>)) (resp_of i) = Some (100, resp # rest)" by (simp add: v2)
  have pend': "im_id resp \<in> set (px_pending px1)" using pend resp(2) by simp
  obtain px2 sh2 where l: "listener_round L mq t (px1, sh1\<lparr>sh_shm := wk_shm s2\<rparr>) = Inr (px2, sh2)"
    and rd: "map_of (px_ready px2) = (map_of (px_ready px1))(?c \<mapsto> response_on_wire (from_plugin_response presp))"
    and pd: "set (px_pending px2) = set (px_pending px1) - {?c}"
    using listener_delivers [OF assms(2) q1 front resp(1,3) rt(3) pend', of t] resp(2) by auto
  show ?thesis
    using ex s2 l tr rd pd decoded_receives [OF d]
    by (intro exI [of _ ?c] exI [of _ px1] exI [of _ sh1] exI [of _ s2] exI [of _ px2] exI [of _ sh2]
        exI [of _ "to_plugin_command d"] exI [of _ presp]) simp
qed

section \<open>Witness\<close>

text \<open>A plugin that answers every command with \<^verbatim>\<open>true\<close> and whose state is the list of the commands it was given.\<close>

definition yes_response :: plugin_response where
  "yes_response = zero_response\<lparr>pr_success := True, pr_return_value := PARAM_TYPE_BOOL True\<rparr>"

definition log_loader :: "plugin_command list plugin_loader" where
  "log_loader = \<lparr>ld_handle = True, ld_plugin_path = ''/p/serial.so'', ld_error_message = [],
     ld_symbols = \<lparr>ps_get_metadata = Some demo_metadata, ps_initialize = Some (\<lambda>_ p. (0, p)),
       ps_execute_command = Some (\<lambda>pc _ p. (0, yes_response, p @ [pc])), ps_shutdown = Some (\<lambda>p. p)\<rparr>\<rparr>"

definition log_worker :: "(plugin_command list, queues) worker" where
  "log_worker = \<lparr>wk_instrument_name = ''dmm'', wk_plugin = log_loader, wk_plugin_state = [],
     wk_ipc_queue = Some (worker_end ''dmm''), wk_waiting_sync_token = None, wk_last_heartbeat = 0, wk_running = True,
     wk_shm = [req_of ''dmm'' \<mapsto> (100, []), resp_of ''dmm'' \<mapsto> (100, [])]\<rparr>"

lemma log_trace: "plugin_trace log_loader p xs p' \<longleftrightarrow> p' = p @ map fst xs \<and> (\<forall>x \<in> set xs. snd x = yes_response)"
  by (induction log_loader p xs p' rule: plugin_trace.induct) (auto simp: loader_execute_command_def log_loader_def)

definition read_command :: serialized_command where
  "read_command = default_command\<lparr>sc_id := ''dmm-1'', sc_instrument_name := ''dmm'', sc_verb := ''READ'',
     sc_params := [(''range'', PInt64 10)], sc_expects_response := True\<rparr>"

definition read_lib :: json_lib where
  "read_lib = docs_lib [command_to_json read_command, response_to_json (from_plugin_response yes_response)]"

lemma docs_lib_short:
  assumes "length docs \<le> 10" and "jl_dump (docs_lib docs) j = Inr t"
  shows "length t \<le> IPC_MAX_PAYLOAD"
proof -
  obtain i where i: "doc_index j docs = Some i" "t = show_nat i"
    using assms(2) by (auto simp: docs_lib_def split: option.splits)
  then have "i < 10 ^ Suc 0" using doc_index_Some [OF i(1)] assms(1) by simp
  then show ?thesis using show_nat_length [of i 0] i(2) by (simp add: IPC_MAX_PAYLOAD_def)
qed

lemma yes_response_ok:
  "return_value_finite (from_plugin_response yes_response)"
  "cr_success (response_on_wire (from_plugin_response yes_response))"
  by (simp_all add: return_value_finite_def response_on_wire_def from_plugin_response_def yes_response_def zero_response_def
      default_response_def Let_def)

lemma read_lib_fits: "plugin_fits read_lib log_loader"
proof -
  have "response_fits read_lib presp" if "return_value_finite (from_plugin_response presp)" for presp
    using that docs_lib_short [OF _, of "[command_to_json read_command, response_to_json (from_plugin_response yes_response)]"]
    by (auto simp: response_fits_def read_lib_def serialize_response_def)
  moreover have "return_value_finite (from_plugin_response (barrier_nop_response cmd))" for cmd
    by (simp add: return_value_finite_def from_plugin_response_def zero_response_def barrier_nop_response_def Let_def)
  ultimately show ?thesis
    using yes_response_ok(1) by (simp add: plugin_fits_def loader_execute_command_def log_loader_def)
qed

text \<open>What the plugin is given for the example command.\<close>

lemma read_received:
  assumes "receives i c read_command pc"
  shows "pc_verb pc = ''READ''" and "pc_params pc = [\<lparr>pp_name = ''range'', pp_value = PARAM_TYPE_INT64 10\<rparr>]"
proof -
  have wire: "wire_params (sc_params read_command) = [''range'' \<mapsto> PInt64 10]"
    by (auto simp: wire_params_def read_command_def)
  obtain ks where "list_all2 (param_received (sc_params read_command)) ks (pc_params pc)" "length (pc_params pc) = 1"
    using assms by (auto simp: plugin_receives_def wire)
  then obtain k p where p: "pc_params pc = [p]" "param_received (sc_params read_command) k p"
    by (auto simp: length_Suc_conv list_all2_Cons2)
  then show "pc_params pc = [\<lparr>pp_name = ''range'', pp_value = PARAM_TYPE_INT64 10\<rparr>]"
    by (cases p) (auto simp: param_received_def wire plugin_text_def split: if_splits)
  show "pc_verb pc = ''READ''" using assms by (simp add: plugin_receives_def read_command_def plugin_text_def)
qed

lemma read_answers: "plugin_answers_ok read_lib i c cmd log_worker"
proof -
  let ?docs = "[command_to_json read_command, response_to_json (from_plugin_response yes_response)]"
  obtain t where t: "jl_dump (docs_lib ?docs) (response_to_json (from_plugin_response yes_response)) = Inr t"
    using docs_lib_dump_in [of _ ?docs] by auto
  moreover have "wk_plugin log_worker = log_loader" "wk_plugin_state log_worker = []" by (simp_all add: log_worker_def)
  ultimately show ?thesis
    using yes_response_ok(1) docs_lib_short [OF _ t]
    by (auto simp: plugin_answers_ok_def log_trace serialize_response_def read_lib_def simp del: plugin_trace.simps)
qed

lemma read_setup:
  "json_lib_ok read_lib" "px_ipc_queue demo_px = Some (server_end ''dmm'')"
  "sh_shm (demo_shared\<lparr>sh_shm := demo_shm\<rparr>) (req_of ''dmm'') = Some (100, [])"
  "sh_shm (demo_shared\<lparr>sh_shm := demo_shm\<rparr>) (resp_of ''dmm'') = Some (100, [])"
  "wk_ipc_queue log_worker = Some (worker_end ''dmm'')" "wk_waiting_sync_token log_worker = None"
  "int 9 - wk_last_heartbeat log_worker < 500" "sc_verb read_command \<noteq> ''__BARRIER_NOP__''"
  "plugin_answers_ok read_lib i c cmd log_worker"
  "umap_ok (sc_params read_command)" "arrays_finite (sc_params read_command)"
  "px_instrument_name demo_px = ''dmm''" "px_next_message_id demo_px = 1" "wk_plugin log_worker = log_loader" "wk_plugin_state log_worker = []"
  using read_answers
  by (simp_all add: demo_px_def new_proxy_def demo_shm_def queue_name_inject)
    (simp_all add: read_lib_def log_worker_def read_command_def umap_ok_def arrays_finite_def)

lemma read_text:
  "\<exists>t. serialize_command read_lib (numbered_command (px_instrument_name demo_px) (px_next_message_id demo_px) read_command) = Inr t \<and>
     length t \<le> IPC_MAX_PAYLOAD"
proof -
  have one: "show_nat (Suc 0) = ''1''" by code_simp
  have "numbered_command (px_instrument_name demo_px) (px_next_message_id demo_px) read_command = read_command"
    by (simp add: read_setup numbered_command_def command_id_string_def one) (simp add: read_command_def)
  moreover obtain t where t: "jl_dump read_lib (command_to_json read_command) = Inr t"
    unfolding read_lib_def using docs_lib_dump_in [of "command_to_json read_command"] by fastforce
  ultimately show ?thesis
    using docs_lib_short [OF _ t [unfolded read_lib_def]] t by (simp add: serialize_command_def)
qed

lemma read_id:
  assumes "proxy_execute L mq cmd (demo_px, sh) = (Inr c, px1, sh1)"
  shows "c = 1"
  using assms by (auto simp: proxy_execute_def Let_def demo_px_def new_proxy_def split: sum.splits option.splits prod.splits bool.splits)

definition demo_link :: "(plugin_command list, queues, process_table) link" where
  "demo_link = \<lparr>ln_proxy = demo_px, ln_shared = demo_shared\<lparr>sh_shm := demo_shm\<rparr>, ln_worker = log_worker, ln_sent = []\<rparr>"

text \<open>One command is sent, run and answered: a history of the link.\<close>

lemma demo_link_history:
  "\<exists>l r. link_reachable read_lib list_mq (\<lambda>w. w) demo_link l \<and> ln_sent l = [(1, read_command)] \<and> px_instrument_name (ln_proxy l) = ''dmm'' \<and>
     map_of (px_ready (ln_proxy l)) 1 = Some r \<and> cr_success r"
proof -
  let ?sh = "demo_shared\<lparr>sh_shm := demo_shm\<rparr>"
  obtain t where t: "serialize_command read_lib (numbered_command (px_instrument_name demo_px) (px_next_message_id demo_px) read_command) = Inr t"
      "length t \<le> IPC_MAX_PAYLOAD"
    using read_text by blast
  obtain c px1 sh1 s2 px2 sh2 pc presp where
    ex: "proxy_execute read_lib list_mq read_command (demo_px, ?sh) = (Inr c, px1, sh1)"
    and mr: "main_round read_lib list_mq 9 (log_worker\<lparr>wk_shm := sh_shm sh1\<rparr>) = Inr s2"
    and lr: "listener_round read_lib list_mq 9 (px1, sh1\<lparr>sh_shm := wk_shm s2\<rparr>) = Inr (px2, sh2)"
    and tr: "plugin_trace log_loader [] [(pc, presp)] (wk_plugin_state s2)"
    and rd: "map_of (px_ready px2) c = Some (response_on_wire (from_plugin_response presp))"
    using command_round_trip [OF read_setup(1) list_mq_ok read_setup(2-11) t, of 9, unfolded read_setup(14,15)] by blast
  have c: "c = 1" using read_id [OF ex] .
  define l1 where "l1 = demo_link\<lparr>ln_proxy := px1, ln_shared := sh1, ln_sent := [(1, read_command)]\<rparr>"
  define l2 where "l2 = l1\<lparr>ln_worker := s2, ln_shared := (ln_shared l1)\<lparr>sh_shm := wk_shm s2\<rparr>\<rparr>"
  define l3 where "l3 = l2\<lparr>ln_proxy := px2, ln_shared := sh2\<rparr>"
  have fits: "fits_wire read_lib (numbered_command ''dmm'' 1 read_command)"
    using read_setup(10,11) t by (simp add: fits_wire_def read_setup(12,13)) (simp add: numbered_command_def)
  have "link_step read_lib list_mq (\<lambda>w. w) demo_link (demo_link\<lparr>ln_proxy := px1, ln_shared := sh1, ln_sent := ln_sent demo_link @ [(1, read_command)]\<rparr>)"
    by (rule link_step.execute [where r = "Inr c"]) (simp_all add: demo_link_def read_setup(12,13) fits ex)
  then have "link_step read_lib list_mq (\<lambda>w. w) demo_link l1" by (simp add: l1_def demo_link_def)
  then have r1: "link_reachable read_lib list_mq (\<lambda>w. w) demo_link l1" by (rule link_reachable.step [OF link_reachable.init])
  have r2: "link_reachable read_lib list_mq (\<lambda>w. w) demo_link l2"
    unfolding l2_def using mr by (intro link_reachable.step [OF r1] link_step.work) (simp_all add: l1_def demo_link_def)
  have r3: "link_reachable read_lib list_mq (\<lambda>w. w) demo_link l3"
    unfolding l3_def using lr by (intro link_reachable.step [OF r2] link_step.listen) (simp add: l2_def l1_def)
  have "presp = yes_response" using tr unfolding log_trace by simp
  then have "map_of (px_ready (ln_proxy l3)) 1 = Some (response_on_wire (from_plugin_response yes_response))"
    using rd c by (simp add: l3_def)
  moreover have "px_instrument_name px1 = ''dmm''"
    using proxy_execute_queues(2) [OF list_mq_ok read_setup(2) _ read_setup(3) ex] by (simp add: read_setup)
  moreover have "px_instrument_name px2 = px_instrument_name px1"
    using handle_response_ready lr
    by (auto simp: listener_round_def handle_ipc_message_def bind_result_Inr_iff split: option.splits if_splits prod.splits msg_type.splits)
  ultimately show ?thesis
    using r3 yes_response_ok(2) by (intro exI [of _ l3]) (simp add: l3_def l2_def l1_def demo_link_def)
qed

theorem commands_matched_witness:
  "\<exists>l. link_reachable read_lib list_mq (\<lambda>w. w) demo_link l \<and>
     map (\<lambda>pc. (pc_verb pc, pc_params pc)) (wk_plugin_state (ln_worker l)) =
       [(''READ'', [\<lparr>pp_name = ''range'', pp_value = PARAM_TYPE_INT64 10\<rparr>])]"
proof -
  obtain l r where l: "link_reachable read_lib list_mq (\<lambda>w. w) demo_link l" "ln_sent l = [(1, read_command)]"
      "px_instrument_name (ln_proxy l) = ''dmm''" "map_of (px_ready (ln_proxy l)) 1 = Some r" "cr_success r"
    using demo_link_history by blast
  have new: "link_new (\<lambda>w. w) demo_link"
    using read_setup(2-6) by (simp add: link_new_def demo_link_def Let_def read_setup(12)) (simp add: demo_px_def new_proxy_def)
  have fits: "plugin_fits read_lib (wk_plugin (ln_worker demo_link))" using read_lib_fits by (simp add: demo_link_def read_setup)
  obtain runs where runs: "plugin_trace log_loader [] (map snd runs) (wk_plugin_state (ln_worker l))"
      "subseq (map fst runs) [1]" "\<And>c pc presp. (c, pc, presp) \<in> set runs \<Longrightarrow> receives ''dmm'' c read_command pc"
      "\<exists>pc presp. (1, pc, presp) \<in> set runs"
    using commands_matched [OF read_setup(1) list_mq_ok new fits l(1) l(3) [symmetric]] l(2,4,5) read_setup(8)
    by (simp add: demo_link_def read_setup(14,15)) blast
  have "length runs \<le> 1" using list_emb_length [OF runs(2)] by simp
  then obtain c pc presp where one: "runs = [(c, pc, presp)]"
    using runs(4) by (cases runs; cases "tl runs") auto
  then have "wk_plugin_state (ln_worker l) = [pc]" "receives ''dmm'' c read_command pc"
    using runs(1,3) by (simp_all add: log_trace del: plugin_trace.simps)
  then show ?thesis using l(1) read_received by fastforce
qed

end
