(* ===== verification/Script_Path.thy ===== *)
theory Script_Path
  imports Command_Path Runtime_Tokens
begin

text \<open>
  A script's call, from the Lua binding to the plugin and back: the runtime context builds and sends the
  command, the worker runs it, the response thread fulfils the future the call waits for, and the call
  returns the plugin's value to the script and records it. The wait of the caller, an argument of the
  runtime context, is instantiated with the other two threads of the path.
\<close>

section \<open>The wait\<close>

text \<open>While the caller waits for the future, the worker of its instrument does rounds of \<^verbatim>\<open>main_loop\<close> and the response thread
  rounds of \<^verbatim>\<open>response_listener_loop\<close>, in any order. A throw in either ends that process, and the wait
  runs into its time limit.\<close>

datatype thread_round = WorkerRound nat | ListenerRound u64

type_synonym ('p, 'w, 'o) path = "('p, 'w) worker \<times> proxy \<times> ('w, 'o) shared"

fun path_round :: "json_lib \<Rightarrow> 'w mq_lib \<Rightarrow> thread_round \<Rightarrow> ('p, 'w, 'o) path \<Rightarrow> ('p, 'w, 'o) path result" where
  "path_round L mq (WorkerRound now) (s, px, sh) =
     bind_result (main_round L mq now (s\<lparr>wk_shm := sh_shm sh\<rparr>)) (\<lambda>s'. Inr (s', px, sh\<lparr>sh_shm := wk_shm s'\<rparr>))"
| "path_round L mq (ListenerRound t) (s, px, sh) =
     bind_result (listener_round L mq t (px, sh)) (\<lambda>(px', sh'). Inr (s, px', sh'))"

fun path_rounds :: "json_lib \<Rightarrow> 'w mq_lib \<Rightarrow> thread_round list \<Rightarrow> ('p, 'w, 'o) path \<Rightarrow> ('p, 'w, 'o) path result" where
  "path_rounds L mq [] st = Inr st"
| "path_rounds L mq (r # rs) st = bind_result (path_round L mq r st) (path_rounds L mq rs)"

definition wait_rounds ::
  "json_lib \<Rightarrow> 'w mq_lib \<Rightarrow> thread_round list \<Rightarrow> ('p, 'w) worker \<Rightarrow> future \<Rightarrow> ('w, 'o) server \<Rightarrow>
   command_response option \<times> ('w, 'o) server"
where
  "wait_rounds L mq rounds s f sv =
     (case get_instrument (fu_instrument f) (sv_registry sv) of
        None \<Rightarrow> (None, sv)
      | Some px \<Rightarrow>
          (case path_rounds L mq rounds (s, px, sv_shared sv) of
             Inl e \<Rightarrow> (None, sv)
           | Inr (s', px', sh') \<Rightarrow>
               (map_of (px_ready px') (fu_msg_id f),
                sv\<lparr>sv_registry := (sv_registry sv)\<lparr>ir_instruments :=
                     omap_put (fu_instrument f) px' (ir_instruments (sv_registry sv))\<rparr>,
                   sv_shared := sh'\<rparr>)))"

text \<open>A schedule that answers: some round of the worker is followed, however much later, by one of the response
  thread.\<close>

fun schedule_answers :: "thread_round list \<Rightarrow> bool" where
  "schedule_answers [] \<longleftrightarrow> False"
| "schedule_answers (WorkerRound now # rs) \<longleftrightarrow> list_ex (\<lambda>r. case r of ListenerRound t \<Rightarrow> True | _ \<Rightarrow> False) rs"
| "schedule_answers (ListenerRound t # rs) \<longleftrightarrow> schedule_answers rs"

lemma schedule_answers_iff:
  "schedule_answers rs \<longleftrightarrow> (\<exists>as now bs t cs. rs = as @ WorkerRound now # bs @ ListenerRound t # cs)"
proof (induction rs rule: schedule_answers.induct)
  case (2 now rs)
  have "schedule_answers (WorkerRound now # rs) \<longleftrightarrow> (\<exists>t. ListenerRound t \<in> set rs)"
    by (auto simp: list_ex_iff split: thread_round.splits) (metis thread_round.exhaust)
  moreover have "(\<exists>t. ListenerRound t \<in> set rs) \<longleftrightarrow>
      (\<exists>as now' bs t cs. WorkerRound now # rs = as @ WorkerRound now' # bs @ ListenerRound t # cs)" (is "?l \<longleftrightarrow> ?r")
  proof
    assume ?l
    then obtain t bs cs where "rs = bs @ ListenerRound t # cs" by (meson split_list)
    then have "WorkerRound now # rs = [] @ WorkerRound now # bs @ ListenerRound t # cs" by simp
    then show ?r by blast
  qed (auto simp: Cons_eq_append_conv)
  ultimately show ?case by simp
next
  case (3 t rs)
  have "(\<exists>as now bs u cs. ListenerRound t # rs = as @ WorkerRound now # bs @ ListenerRound u # cs) \<longleftrightarrow>
      (\<exists>as now bs u cs. rs = as @ WorkerRound now # bs @ ListenerRound u # cs)"
    by (metis Cons_eq_append_conv append_Cons list.inject thread_round.distinct(1))
  then show ?case using 3 by simp
qed simp

text \<open>No heartbeat of the worker falls due in the rounds of a schedule.\<close>

definition no_heartbeat :: "int \<Rightarrow> thread_round list \<Rightarrow> bool" where
  "no_heartbeat h rs \<longleftrightarrow> (\<forall>now. WorkerRound now \<in> set rs \<longrightarrow> int now - h < 500)"

text \<open>The three phases of a command, by what the two queues hold: the request waits, the response waits, nothing waits.\<close>

definition path_at ::
  "('w \<Rightarrow> string \<Rightarrow> (nat \<times> ipc_message list) option) \<Rightarrow> string \<Rightarrow> 'p plugin_loader \<Rightarrow> int \<Rightarrow> 'p \<Rightarrow> ipc_message list \<Rightarrow> ipc_message list \<Rightarrow>
   ('p, 'w, 'o) path \<Rightarrow> bool"
where
  "path_at view i ld h p Q R st \<longleftrightarrow>
     (case st of (s, px, sh) \<Rightarrow>
        px_ipc_queue px = Some (server_end i) \<and> on_queues view i (100, Q) (100, R) (s\<lparr>wk_shm := sh_shm sh\<rparr>) \<and>
        wk_plugin s = ld \<and> wk_last_heartbeat s = h \<and> wk_plugin_state s = p)"

lemma idle_worker_round:
  assumes "mq_lib_ok mq view" and "path_at view i ld h p [] R (s, px, sh)" and "int now - h < 500"
  shows "\<exists>s' sh'. path_round L mq (WorkerRound now) (s, px, sh) = Inr (s', px, sh') \<and> path_at view i ld h p [] R (s', px, sh')"
proof -
  let ?s = "s\<lparr>wk_shm := sh_shm sh\<rparr>"
  have s: "wk_ipc_queue ?s = Some (worker_end i)" "view (wk_shm ?s) (req_of i) = Some (100, [])" "wk_last_heartbeat ?s = h"
    using assms(2) by (simp_all add: path_at_def on_queues_def)
  obtain m w where r: "receive_msg mq 100 (worker_end i) (sh_shm sh) = (m, w)" by fastforce
  have m: "m = None" "view w = view (sh_shm sh)"
    using receive_msg_empty [OF assms(1), of "worker_end i" "req_of i" "sh_shm sh" 100 100] s(2) r by simp_all
  have "main_round L mq now ?s = Inr (?s\<lparr>wk_shm := w\<rparr>)"
    using s assms(3) r m(1) by (simp add: main_round_def send_heartbeat_if_needed_def)
  then show ?thesis using assms(2) m(2) by (simp add: path_at_def on_queues_def)
qed

lemma idle_listener_round:
  assumes "mq_lib_ok mq view" and "path_at view i ld h p Q [] (s, px, sh)"
  shows "\<exists>sh'. path_round L mq (ListenerRound t) (s, px, sh) = Inr (s, px, sh') \<and> path_at view i ld h p Q [] (s, px, sh')"
proof -
  have v: "px_ipc_queue px = Some (server_end i)" "view (sh_shm sh) (resp_of i) = Some (100, [])"
    using assms(2) by (simp_all add: path_at_def on_queues_def)
  obtain m w where r: "receive_msg mq 100 (server_end i) (sh_shm sh) = (m, w)" by fastforce
  have m: "m = None" "view w = view (sh_shm sh)"
    using receive_msg_empty [OF assms(1), of "server_end i" "resp_of i" "sh_shm sh" 100 100] v(2) r by simp_all
  have "listener_round L mq t (px, sh) = Inr (px, sh\<lparr>sh_shm := w\<rparr>)" using v(1) r m(1) by (simp add: listener_round_def)
  then show ?thesis using assms(2) m(2) by (simp add: path_at_def on_queues_def)
qed

text \<open>Nothing waits: further rounds change nothing.\<close>

lemma path_idle:
  assumes "mq_lib_ok mq view"
  shows "path_at view i ld h p [] [] (s, px, sh) \<Longrightarrow> no_heartbeat h rs \<Longrightarrow>
    \<exists>s' sh'. path_rounds L mq rs (s, px, sh) = Inr (s', px, sh') \<and> path_at view i ld h p [] [] (s', px, sh')"
proof (induction rs arbitrary: s sh)
  case (Cons r rs)
  have nh: "no_heartbeat h rs" using Cons.prems(2) by (simp add: no_heartbeat_def)
  obtain s1 sh1 where r: "path_round L mq r (s, px, sh) = Inr (s1, px, sh1)" "path_at view i ld h p [] [] (s1, px, sh1)"
  proof (cases r)
    case (WorkerRound now)
    then show thesis
      using that idle_worker_round [OF assms Cons.prems(1), of now L] Cons.prems(2) by (auto simp: no_heartbeat_def)
  next
    case (ListenerRound t)
    then show thesis using that idle_listener_round [OF assms Cons.prems(1), of L t] by auto
  qed
  then show ?case using Cons.IH [OF r(2) nh] by auto
qed simp

text \<open>The response waits: the first round of the response thread delivers it.\<close>

lemma path_delivers:
  assumes "mq_lib_ok mq view" and "im_type resp = RESPONSE" and "read_payload resp = Some payload" and "deserialize_response L payload = Inr r"
  shows "path_at view i ld h p [] [resp] (s, px, sh) \<Longrightarrow> no_heartbeat h rs \<Longrightarrow> im_id resp \<in> set (px_pending px) \<Longrightarrow>
    list_ex (\<lambda>r. case r of ListenerRound t \<Rightarrow> True | _ \<Rightarrow> False) rs \<Longrightarrow>
    \<exists>s' px' sh'. path_rounds L mq rs (s, px, sh) = Inr (s', px', sh') \<and> path_at view i ld h p [] [] (s', px', sh') \<and>
      map_of (px_ready px') (im_id resp) = Some r"
proof (induction rs arbitrary: s sh)
  case (Cons x rs)
  have nh: "no_heartbeat h rs" using Cons.prems(2) by (simp add: no_heartbeat_def)
  show ?case
  proof (cases x)
    case (WorkerRound now)
    then obtain s1 sh1 where "path_round L mq x (s, px, sh) = Inr (s1, px, sh1)" "path_at view i ld h p [] [resp] (s1, px, sh1)"
      using idle_worker_round [OF assms(1) Cons.prems(1), of now L] Cons.prems(2) by (auto simp: no_heartbeat_def)
    then show ?thesis using Cons.IH [OF _ nh Cons.prems(3), of s1 sh1] Cons.prems(4) WorkerRound by auto
  next
    case (ListenerRound t)
    have v: "px_ipc_queue px = Some (server_end i)" "view (sh_shm sh) (resp_of i) = Some (100, [resp])"
        "view (sh_shm sh) (req_of i) = Some (100, [])"
      using Cons.prems(1) by (simp_all add: path_at_def on_queues_def)
    obtain px1 sh1 where l: "listener_round L mq t (px, sh) = Inr (px1, sh1)"
        "map_of (px_ready px1) = (map_of (px_ready px))(im_id resp \<mapsto> r)"
        "view (sh_shm sh1) = (view (sh_shm sh))(resp_of i \<mapsto> (100, []))"
      using listener_delivers [OF assms(1) v(1,2) assms(2-4) Cons.prems(3), of t] by blast
    have "px_ipc_queue px1 = px_ipc_queue px" by (rule listener_queues(2) [OF assms(1) v(1,3,2) l(1)])
    then have "path_at view i ld h p [] [] (s, px1, sh1)"
      using Cons.prems(1) v l(3) queue_name_inject(3) [of i i] by (simp add: path_at_def on_queues_def)
    then show ?thesis using path_idle [OF assms(1) _ nh] l(1,2) ListenerRound by fastforce
  qed
qed simp

text \<open>The request waits: the first round of the worker runs it in the plugin, once; later rounds find nothing.\<close>

lemma path_answers:
  assumes "json_lib_ok L" and "mq_lib_ok mq view" and "plugin_answers_ok L iname c cmd s0" and "wk_plugin s0 = ld" and "wk_plugin_state s0 = p"
    and "sc_verb cmd \<noteq> ''__BARRIER_NOP__''" and "sc_sync_token cmd = None"
    and "im_type msg = COMMAND" and "im_id msg = c"
    and "\<And>now. \<exists>d. deserialize_command_from_msg L now msg = Inr d \<and> decoded_as iname c cmd d"
  shows "path_at view i ld h p [msg] [] (s, px, sh) \<Longrightarrow> no_heartbeat h rs \<Longrightarrow> c \<in> set (px_pending px) \<Longrightarrow> schedule_answers rs \<Longrightarrow>
    \<exists>s' px' sh' pc presp. path_rounds L mq rs (s, px, sh) = Inr (s', px', sh') \<and> receives iname c cmd pc \<and>
      plugin_trace ld p [(pc, presp)] (wk_plugin_state s') \<and>
      map_of (px_ready px') c = Some (response_on_wire (from_plugin_response presp))"
proof (induction rs arbitrary: s sh)
  case (Cons x rs)
  have nh: "no_heartbeat h rs" using Cons.prems(2) by (simp add: no_heartbeat_def)
  show ?case
  proof (cases x)
    case (ListenerRound t)
    then obtain sh1 where "path_round L mq x (s, px, sh) = Inr (s, px, sh1)" "path_at view i ld h p [msg] [] (s, px, sh1)"
      using idle_listener_round [OF assms(2) Cons.prems(1), of L t] by auto
    then show ?thesis using Cons.IH [OF _ nh Cons.prems(3), of s sh1] Cons.prems(4) ListenerRound by simp
  next
    case (WorkerRound now)
    let ?s = "s\<lparr>wk_shm := sh_shm sh\<rparr>"
    have st: "wk_ipc_queue ?s = Some (worker_end i)" "wk_waiting_sync_token ?s = None" "int now - wk_last_heartbeat ?s < 500"
        "view (wk_shm ?s) (req_of i) = Some (100, [msg])" "view (wk_shm ?s) (resp_of i) = Some (100, [])"
        "wk_plugin ?s = ld" "wk_plugin_state ?s = p" "wk_last_heartbeat ?s = h"
      using Cons.prems(1,2) WorkerRound by (simp_all add: path_at_def on_queues_def no_heartbeat_def)
    have ok: "plugin_answers_ok L iname c cmd ?s" using assms(3-5) st(6,7) by (simp add: plugin_answers_ok_def)
    obtain d where d: "deserialize_command_from_msg L now msg = Inr d" "decoded_as iname c cmd d" using assms(10) by blast
    obtain presp p' rt where run: "execute_in_plugin d ?s = (presp, p')"
      and tr: "plugin_trace (wk_plugin ?s) (wk_plugin_state ?s) [(to_plugin_command d, presp)] p'"
      and rt: "serialize_response L (from_plugin_response presp) = Inr rt" "length rt \<le> IPC_MAX_PAYLOAD"
        "deserialize_response L rt = Inr (response_on_wire (from_plugin_response presp))"
      by (rule plugin_answer [OF assms(1) d(2) assms(6) ok])
    obtain s2 resp where s2: "main_round L mq now ?s = Inr s2" "wk_plugin_state s2 = p'" "wk_plugin s2 = ld" "wk_last_heartbeat s2 = h"
        "im_type resp = RESPONSE" "im_id resp = c" "read_payload resp = Some rt" "on_queues view i (100, []) (100, [resp]) s2"
      using worker_round_answers [OF assms(2) st(1-5) assms(8) d(1) run rt(1)] st(6,8) assms(7,9) d(2) rt(2)
      by (auto simp: decoded_as_def)
    have "path_at view i ld h p' [] [resp] (s2, px, sh\<lparr>sh_shm := wk_shm s2\<rparr>)"
      using s2 Cons.prems(1) by (simp add: path_at_def)
    from path_delivers [OF assms(2) s2(5,7) rt(3) this nh] Cons.prems(3,4) WorkerRound s2(6)
    obtain s' px' sh' where e: "path_rounds L mq rs (s2, px, sh\<lparr>sh_shm := wk_shm s2\<rparr>) = Inr (s', px', sh')"
        "path_at view i ld h p' [] [] (s', px', sh')" "map_of (px_ready px') c = Some (response_on_wire (from_plugin_response presp))"
      by auto
    moreover have "wk_plugin_state s' = p'" using e(2) by (simp add: path_at_def)
    ultimately show ?thesis
      using tr s2(1) st(6,7) WorkerRound decoded_receives [OF d(2)]
      by (intro exI [of _ s'] exI [of _ px'] exI [of _ sh'] exI [of _ "to_plugin_command d"] exI [of _ presp]) simp
  qed
qed simp

section \<open>The parameters of a call\<close>

text \<open>The parameters come from scalars of the script: they are never arrays, so none of them keeps the command from
  being decoded.\<close>

definition scalar_params :: "(string, param_value) umap \<Rightarrow> bool" where
  "scalar_params ps \<longleftrightarrow> umap_ok ps \<and> (\<forall>k ds. map_of ps k \<noteq> Some (PArray ds))"

lemma scalar_params_put:
  "scalar_params ps \<Longrightarrow> (\<And>ds. p \<noteq> PArray ds) \<Longrightarrow> scalar_params (umap_put k p ps)"
  by (auto simp: scalar_params_def intro: um.ok_put)

lemma lua_param_scalar: "lua_param v = Some p \<Longrightarrow> p \<noteq> PArray ds"
  by (auto simp: lua_param_def split: option.splits)

lemma scalar_put_param:
  assumes "scalar_params ps" and "\<And>p ds. v = Some p \<Longrightarrow> p \<noteq> PArray ds"
  shows "scalar_params (put_param k v ps)"
  using assms by (cases v) (auto simp: put_param_def intro: scalar_params_put)

lemma positional_params_scalar: "scalar_params ps \<Longrightarrow> scalar_params (positional_params i args ps)"
proof (induction i args ps rule: positional_params.induct)
  case (2 i a as ps)
  have "lua_arg_param a = Some p \<Longrightarrow> p \<noteq> PArray ds" for p ds by (cases a) (auto dest: lua_param_scalar)
  then show ?case using 2 by (simp add: scalar_put_param)
qed simp

lemma named_params_scalar:
  "scalar_params ps \<Longrightarrow> scalar_params (fold (\<lambda>(k, v). put_param k (lua_param v)) kvs ps)"
  by (induction kvs arbitrary: ps) (auto intro: scalar_put_param dest: lua_param_scalar)

lemma call_params_scalar: "scalar_params (call_params args channel)"
proof -
  have nil: "scalar_params []" by (simp add: scalar_params_def umap_ok_def)
  then have "scalar_params (lua_params args)"
    by (auto simp: lua_params_def simp del: positional_params.simps(2)
        intro: positional_params_scalar named_params_scalar split: list.split lua_arg.split)
  then show ?thesis by (auto simp: call_params_def intro: scalar_params_put split: option.split)
qed

lemma scalar_params_wire:
  assumes "scalar_params ps"
  shows "umap_ok ps" and "arrays_finite ps"
proof -
  show ok: "umap_ok ps" using assms by (simp add: scalar_params_def)
  have "array_finite p" if "(k, p) \<in> set ps" for k p
  proof -
    have "map_of ps k = Some p" using that ok by (simp add: umap_ok_def)
    then show ?thesis using assms by (cases p) (auto simp: scalar_params_def)
  qed
  then show "arrays_finite ps" by (auto simp: arrays_finite_def)
qed

lemmas call_params_wire [simp] = scalar_params_wire [OF call_params_scalar]

section \<open>The call\<close>

text \<open>The result a synchronous call records.\<close>

definition sync_call_result ::
  "nat \<Rightarrow> string \<Rightarrow> string \<Rightarrow> (string, param_value) umap \<Rightarrow> command_response \<Rightarrow> call_result"
where
  "sync_call_result now instrument_spec verb params resp =
     (populate_callresult_from_response default_call_result resp)
       \<lparr>cl_instrument_name := instrument_spec, cl_verb := verb, cl_params := params, cl_executed_at := now\<rparr>"

lemma send_command_answered:
  fixes sv :: "('w, 'o) server" and s :: "('p, 'w) worker"
  assumes "get_instrument i (sv_registry sv) = Some px"
    and "proxy_execute (rt_json E) (rt_mq E) (sync_command now i verb params er) (px, sv_shared sv) = (Inr c, px1, sh1)"
    and "path_rounds (rt_json E) (rt_mq E) rounds (s, px1, sh1) = Inr (s', px2, sh2)"
    and "map_of (px_ready px2) c = Some resp"
    and "rt_wait_for E = wait_rounds (rt_json E) (rt_mq E) rounds s"
  shows "\<exists>sv'. send_command E now i verb params er sv = (Inr resp, sv') \<and>
    get_instrument i (sv_registry sv') = Some px2 \<and> sv_shared sv' = sh2"
  using assms
  by (simp add: send_command_def worker_execute_sync_def worker_execute_def wait_rounds_def get_instrument_def
      map_of_omap_put worker_sync_result_def)

text \<open>C2: A script's call, end to end. Outside a parallel block and outside enqueue mode, a call of \<^verbatim>\<open>instrument[:channel].verb\<close>
  makes the plugin of that instrument execute exactly one command: while the call waits, in whatever order the
  worker and the response thread do their rounds, the plugin goes from its state to the next by executing one
  command, and that has the identifier, instrument, verb and parameters of the call as far as they fit the plugin's C structure
  (\<^const>\<open>plugin_receives\<close>). The call returns to the script what the plugin answered: the value of a successful response, nil
  otherwise. One result with the plugin's answer is appended to those the context has collected; the rest of the
  context is unchanged. Some round of the worker has to be followed by one of the response thread before the call
  times out, the queues are empty at first, no heartbeat falls due, and the texts fit the payload.\<close>

theorem script_call_end_to_end:
  fixes sv :: "('w, 'o) server" and s :: "('p, 'w) worker"
  assumes "json_lib_ok (rt_json E)" and "mq_lib_ok (rt_mq E) view"
    and "parse_call_target func_name = Some (spec, verb, i, channel)" and "verb \<noteq> ''__BARRIER_NOP__''"
    and "\<not> rc_in_parallel_block ctx" and "\<not> rc_enqueue_mode ctx"
    and "get_instrument i (sv_registry sv) = Some px" and "px_ipc_queue px = Some (server_end i)"
    and "view (sh_shm (sv_shared sv)) (req_of i) = Some (100, [])"
    and "view (sh_shm (sv_shared sv)) (resp_of i) = Some (100, [])"
    and "wk_ipc_queue s = Some (worker_end i)" and "wk_waiting_sync_token s = None"
    and "rt_wait_for E = wait_rounds (rt_json E) (rt_mq E) rounds s"
    and "schedule_answers rounds" and "no_heartbeat (wk_last_heartbeat s) rounds"
    and "cmd = sync_command now i verb (call_params args channel) (command_expects_response i verb (sv_registry sv))"
    and "plugin_answers_ok (rt_json E) (px_instrument_name px) (px_next_message_id px) cmd s"
    and "serialize_command (rt_json E) (numbered_command (px_instrument_name px) (px_next_message_id px) cmd) = Inr payload"
    and "length payload \<le> IPC_MAX_PAYLOAD"
  shows "\<exists>c px1 sh1 s' px2 sh2 pc presp resp sv'.
    proxy_execute (rt_json E) (rt_mq E) cmd (px, sv_shared sv) = (Inr c, px1, sh1) \<and>
    path_rounds (rt_json E) (rt_mq E) rounds (s, px1, sh1) = Inr (s', px2, sh2) \<and>
    plugin_receives (command_id_string (px_instrument_name px) c) i verb (call_params args channel)
      (command_expects_response i verb (sv_registry sv)) pc \<and>
    plugin_trace (wk_plugin s) (wk_plugin_state s) [(pc, presp)] (wk_plugin_state s') \<and>
    resp = response_on_wire (from_plugin_response presp) \<and>
    call E now func_name args (ctx, sv) =
      (Inr (lua_return resp),
       ctx\<lparr>rc_collected_results := rc_collected_results ctx @ [sync_call_result now spec verb (call_params args channel) resp]\<rparr>,
       sv') \<and> sv_shared sv' = sh2"
proof -
  let ?p = "call_params args channel" and ?er = "command_expects_response i verb (sv_registry sv)"
  let ?c = "px_next_message_id px"
  let ?cmd = "numbered_command (px_instrument_name px) ?c cmd"
  have f: "sc_params cmd = ?p" "sc_verb cmd = verb" "sc_instrument_name cmd = i" "sc_expects_response cmd = ?er" "sc_sync_token cmd = None"
    by (simp_all add: assms(16) sync_command_def default_command_def)
  have eq: "cmd\<lparr>sc_id := command_id_string (px_instrument_name px) ?c\<rparr> = ?cmd" by (simp add: numbered_command_def)
  let ?msg = "command_message ?c ?cmd payload"
  obtain px1 sh1 where ex: "proxy_execute (rt_json E) (rt_mq E) cmd (px, sv_shared sv) = (Inr ?c, px1, sh1)"
    and q1: "px_ipc_queue px1 = Some (server_end i)" and pend: "?c \<in> set (px_pending px1)"
    and v1: "view (sh_shm sh1) = (view (sh_shm (sv_shared sv)))(req_of i \<mapsto> (100, [?msg]))"
    using proxy_execute_sends [OF assms(2,8,9) _ assms(18) [folded eq]] assms(8) unfolding eq by auto
  have "path_at view i (wk_plugin s) (wk_last_heartbeat s) (wk_plugin_state s) [?msg] [] (s, px1, sh1)"
    using q1 v1 assms(10-12) queue_name_inject(3) [of i i] by (simp add: path_at_def on_queues_def)
  moreover have "\<exists>d. deserialize_command_from_msg (rt_json E) now ?msg = Inr d \<and> decoded_as (px_instrument_name px) ?c cmd d" for now
    using numbered_message_decodes [OF assms(1) _ _ assms(18,19)] f(1) by simp
  ultimately obtain s' px2 sh2 pc presp where run: "path_rounds (rt_json E) (rt_mq E) rounds (s, px1, sh1) = Inr (s', px2, sh2)"
    and pc: "receives (px_instrument_name px) ?c cmd pc"
    and tr: "plugin_trace (wk_plugin s) (wk_plugin_state s) [(pc, presp)] (wk_plugin_state s')"
    and rd: "map_of (px_ready px2) ?c = Some (response_on_wire (from_plugin_response presp))"
    using path_answers [OF assms(1,2,17) refl refl _ f(5) command_message_fields _ _ assms(15) pend assms(14)] assms(4) f(2) by blast
  from send_command_answered [OF assms(7) ex [unfolded assms(16)] run rd assms(13)] obtain sv' where
    sent: "send_command E now i verb ?p ?er sv = (Inr (response_on_wire (from_plugin_response presp)), sv')" "sv_shared sv' = sh2" by blast
  have "call E now func_name args (ctx, sv) =
      (Inr (lua_return (response_on_wire (from_plugin_response presp))),
       ctx\<lparr>rc_collected_results := rc_collected_results ctx @
         [sync_call_result now spec verb ?p (response_on_wire (from_plugin_response presp))]\<rparr>, sv')"
    using assms(3,5,6) sent by (simp add: call_def sync_call_result_def Let_def)
  then show ?thesis using ex run pc [unfolded f] tr sent(2) by blast
qed

section \<open>Witness\<close>

text \<open>The plugin that lists the commands it was given and answers every one with \<^verbatim>\<open>true\<close>; before the worker takes the command, and
  again after the response was delivered, the response thread looks at an empty queue.\<close>

definition script_command :: serialized_command where
  "script_command = sync_command 3 ''dmm'' ''READ'' [] True"

definition script_docs :: "json list" where
  "script_docs = [command_to_json (numbered_command ''dmm'' 1 script_command), response_to_json (from_plugin_response yes_response)]"

definition script_rounds :: "thread_round list" where
  "script_rounds = [ListenerRound 7, WorkerRound 8, WorkerRound 9, ListenerRound 9, ListenerRound 10]"

definition script_env :: "(queues, process_table) run_env" where
  "script_env = \<lparr>rt_json = docs_lib script_docs, rt_mq = list_mq, rt_block_failure = Throws, rt_moved_id = [],
     rt_get = (\<lambda>f sv. None), rt_wait_for = wait_rounds (docs_lib script_docs) list_mq script_rounds log_worker\<rparr>"

lemma script_docs_fit:
  assumes "j \<in> set script_docs"
  shows "\<exists>t. jl_dump (docs_lib script_docs) j = Inr t \<and> length t \<le> IPC_MAX_PAYLOAD"
proof -
  obtain t where t: "jl_dump (docs_lib script_docs) j = Inr t" using docs_lib_dump_in [OF assms] by blast
  moreover have "length script_docs \<le> 10" by (simp add: script_docs_def)
  ultimately show ?thesis using docs_lib_short by blast
qed

lemma script_answers_ok: "plugin_answers_ok (docs_lib script_docs) i c cmd log_worker"
proof -
  have "\<exists>t. serialize_response (docs_lib script_docs) (from_plugin_response yes_response) = Inr t \<and> length t \<le> IPC_MAX_PAYLOAD"
    unfolding serialize_response_def by (rule script_docs_fit) (simp add: script_docs_def)
  then show ?thesis
    using yes_response_ok(1) unfolding plugin_answers_ok_def read_setup(14,15) log_trace by auto
qed

theorem script_call_end_to_end_witness:
  "\<exists>c px1 sh1 s' px2 sh2 sv'.
     proxy_execute (docs_lib script_docs) list_mq script_command (demo_px1, sv_shared demo_server) = (Inr c, px1, sh1) \<and>
     path_rounds (docs_lib script_docs) list_mq script_rounds (log_worker, px1, sh1) = Inr (s', px2, sh2) \<and>
     map (\<lambda>pc. (pc_verb pc, pc_params pc)) (wk_plugin_state s') = [(''READ'', [])] \<and>
     call script_env 3 ''dmm.READ'' [] (new_runtime_context False, demo_server) =
       (Inr (LObject (PBool True)),
        (new_runtime_context False)\<lparr>rc_collected_results :=
          [sync_call_result 3 ''dmm'' ''READ'' [] (response_on_wire (from_plugin_response yes_response))]\<rparr>, sv')"
proof -
  have E: "rt_json script_env = docs_lib script_docs" "rt_mq script_env = list_mq"
      "rt_wait_for script_env = wait_rounds (rt_json script_env) (rt_mq script_env) script_rounds log_worker"
    by (simp_all add: script_env_def)
  have t: "parse_call_target ''dmm.READ'' = Some (''dmm'', ''READ'', ''dmm'', None)" by code_simp
  have reg: "get_instrument ''dmm'' (sv_registry demo_server) = Some demo_px1"
      "command_expects_response ''dmm'' ''READ'' (sv_registry demo_server) = True"
    by (simp_all add: demo_server_def demo_registry_def get_instrument_def command_expects_response_def find_command_def_def
        member_def demo_api_def demo_commands_def)
  have px: "px_ipc_queue demo_px1 = Some (server_end ''dmm'')" "px_instrument_name demo_px1 = ''dmm''" "px_next_message_id demo_px1 = 1"
    by (simp_all add: demo_px1_def demo_px_def new_proxy_def)
  have q: "sh_shm (sv_shared demo_server) (req_of ''dmm'') = Some (100, [])"
      "sh_shm (sv_shared demo_server) (resp_of ''dmm'') = Some (100, [])"
    by (simp_all add: demo_server_def demo_shm_def queue_name_inject)
  have none: "call_params [] None = []" by (simp add: call_params_def lua_params_def)
  have cmd: "script_command = sync_command 3 ''dmm'' ''READ'' (call_params [] None)
        (command_expects_response ''dmm'' ''READ'' (sv_registry demo_server))"
    by (simp add: script_command_def none reg(2))
  obtain payload where p: "serialize_command (rt_json script_env) (numbered_command (px_instrument_name demo_px1) (px_next_message_id demo_px1) script_command) = Inr payload"
      "length payload \<le> IPC_MAX_PAYLOAD"
    using script_docs_fit [of "command_to_json (numbered_command ''dmm'' 1 script_command)"]
    by (auto simp: serialize_command_def E px script_docs_def)
  have json: "json_lib_ok (rt_json script_env)" and mq: "mq_lib_ok (rt_mq script_env) (\<lambda>w. w)" by (simp_all add: E)
  have ctx: "''READ'' \<noteq> ''__BARRIER_NOP__''" "\<not> rc_in_parallel_block (new_runtime_context False)" "\<not> rc_enqueue_mode (new_runtime_context False)"
    by (simp_all add: new_runtime_context_def)
  have sched: "schedule_answers script_rounds" "no_heartbeat (wk_last_heartbeat log_worker) script_rounds"
    by (auto simp: script_rounds_def no_heartbeat_def log_worker_def)
  have ans: "plugin_answers_ok (rt_json script_env) (px_instrument_name demo_px1) (px_next_message_id demo_px1) script_command log_worker"
    using script_answers_ok by (simp add: E)
  obtain c px1 sh1 s' px2 sh2 pc presp resp sv' where
    r: "proxy_execute (docs_lib script_docs) list_mq script_command (demo_px1, sv_shared demo_server) = (Inr c, px1, sh1)"
      "path_rounds (docs_lib script_docs) list_mq script_rounds (log_worker, px1, sh1) = Inr (s', px2, sh2)"
      "plugin_receives (command_id_string ''dmm'' c) ''dmm'' ''READ'' [] True pc"
      "plugin_trace log_loader [] [(pc, presp)] (wk_plugin_state s')"
      "resp = response_on_wire (from_plugin_response presp)"
      "call script_env 3 ''dmm.READ'' [] (new_runtime_context False, demo_server) =
        (Inr (lua_return resp), (new_runtime_context False)\<lparr>rc_collected_results :=
          rc_collected_results (new_runtime_context False) @ [sync_call_result 3 ''dmm'' ''READ'' [] resp]\<rparr>, sv')"
    using script_call_end_to_end [OF json mq t ctx reg(1) px(1) q read_setup(5,6) E(3) sched cmd ans p]
    unfolding none reg(2) E(1,2) px(2) read_setup(14,15) by blast
  have wires_none: "wire_params [] = Map.empty" by (simp add: wire_params_def)
  have pc: "pc_verb pc = ''READ''" "pc_params pc = []"
    using r(3) by (simp_all add: plugin_receives_def wires_none plugin_text_def)
  have l: "wk_plugin_state s' = [pc]" "presp = yes_response" using r(4) unfolding log_trace by simp_all
  then have "lua_return resp = LObject (PBool True)" "rc_collected_results (new_runtime_context False) = []"
    using r(5) by (simp_all add: new_runtime_context_def lua_return_def response_on_wire_def from_plugin_response_def yes_response_def
        zero_response_def default_response_def Let_def)
  then show ?thesis using r(1,2,5,6) l pc by auto
qed

end
