(* ===== verification/Visa_Plugin.thy ===== *)
theory Visa_Plugin
  imports Worker Data_Buffer
begin

text \<open>
  \<^verbatim>\<open>plugins/visa/visa_plugin.c\<close>: the plugin for instruments behind a VISA library. The VISA calls, the JSON
  parser it uses, the conversions between numbers and text, and the clock are fields of \<open>visa_env\<close>; the
  plugin's static state, the VISA library's state and the buffers of the process are its own state.
  \<^const>\<open>None\<close> is behaviour the language leaves undefined.
\<close>

section \<open>What the worker relies on\<close>

text \<open>A plugin's answer names the command it answers, and a second shutdown does nothing: the worker shuts its plugin down in
  \<^verbatim>\<open>cleanup\<close> and again in the loader's destructor.\<close>

locale worker_plugin =
  fixes execute :: "plugin_command \<Rightarrow> plugin_response \<Rightarrow> 'p \<Rightarrow> (i32 \<times> plugin_response \<times> 'p) option"
    and shutdown :: "'p \<Rightarrow> 'p"
  assumes echoes: "execute cmd resp0 p = Some (rc, resp, p') \<Longrightarrow>
      pr_command_id resp = strncpy0 PLUGIN_MAX_STRING_LEN (pc_id cmd) \<and>
      pr_instrument_name resp = strncpy0 PLUGIN_MAX_STRING_LEN (pc_instrument_name cmd)"
    and shutdown_twice: "shutdown (shutdown p) = shutdown p"
begin

lemma answer_identifies_command:
  assumes "execute (to_plugin_command c) zero_response p = Some (rc, resp, p')"
    and "CHR 0x00 \<notin> set (sc_id c)" and "length (sc_id c) < PLUGIN_MAX_STRING_LEN"
  shows "cr_command_id (from_plugin_response resp) = sc_id c"
  using echoes [OF assms(1)] strncpy0_id [OF assms(2,3)] c_str_strncpy0 [of PLUGIN_MAX_STRING_LEN "sc_id c"]
  by (simp add: from_plugin_response_def to_plugin_command_def Let_def)

lemma destroyed_after_cleanup:
  assumes "ps_shutdown (ld_symbols l) = Some shutdown"
  shows "fst (destroy_loader l (loader_shutdown l p)) = loader_shutdown l p"
  using assms shutdown_twice by (simp add: destroy_loader_def loader_shutdown_def)

end

section \<open>Environment and state\<close>

record ('v, 'j) visa_env =
  vi_open_rm :: "'v \<Rightarrow> i32 \<times> u32 \<times> 'v"
  vi_open :: "u32 \<Rightarrow> string \<Rightarrow> u32 \<Rightarrow> 'v \<Rightarrow> i32 \<times> u32 \<times> 'v"
  vi_set_timeout :: "u32 \<Rightarrow> u32 \<Rightarrow> 'v \<Rightarrow> 'v"
  vi_write :: "u32 \<Rightarrow> string \<Rightarrow> 'v \<Rightarrow> i32 \<times> 'v"
  vi_read :: "u32 \<Rightarrow> nat \<Rightarrow> 'v \<Rightarrow> i32 \<times> string \<times> 'v"  \<comment> \<open>the bytes read, at most as many as asked for\<close>
  vi_close :: "u32 \<Rightarrow> 'v \<Rightarrow> 'v"
  cj_parse :: "string \<Rightarrow> 'j option"
  cj_string :: "'j \<Rightarrow> string \<Rightarrow> string option"  \<comment> \<open>the member, if it is a string\<close>
  cj_int :: "'j \<Rightarrow> string \<Rightarrow> i32 option"
  cj_array :: "'j \<Rightarrow> string \<Rightarrow> string option list option"  \<comment> \<open>the elements of an array member; \<^const>\<open>None\<close> for those that are not strings\<close>
  c_fmt_float :: "u32 \<Rightarrow> string"
  c_fmt_double :: "double \<Rightarrow> string"
  c_strtod :: "string \<Rightarrow> double \<times> nat"  \<comment> \<open>the value and how many characters it took\<close>
  c_strtof :: "string \<Rightarrow> u32"
  c_malloc_read :: bool
  c_malloc_floats :: "nat \<Rightarrow> bool"
  c_malloc_block :: "u64 \<Rightarrow> bool"
  c_ms :: nat
  c_ms' :: nat

record visa_state =
  vs_default_rm :: u32
  vs_instrument :: u32
  vs_resource_address :: string
  vs_timeout_ms :: u32
  vs_termination_char :: string
  vs_initialized :: bool

definition zero_state :: visa_state where
  "zero_state = \<lparr>vs_default_rm = 0, vs_instrument = 0, vs_resource_address = [], vs_timeout_ms = 0,
     vs_termination_char = [], vs_initialized = False\<rparr>"

type_synonym 'v visa = "visa_state \<times> 'v \<times> data_buffer_manager"

definition LARGE_DATA_THRESHOLD :: nat where "LARGE_DATA_THRESHOLD = 1024"

section \<open>Templates\<close>

text \<open>The text of a value. A string of 127 characters leaves the array \<^verbatim>\<open>value_str\<close> without its terminator.\<close>

fun format_value :: "('v, 'j) visa_env \<Rightarrow> plugin_param_value \<Rightarrow> string option" where
  "format_value E (PARAM_TYPE_INT32 i) = Some (show_int (sint i))"
| "format_value E (PARAM_TYPE_INT64 i) = Some (show_int (sint i))"
| "format_value E (PARAM_TYPE_UINT32 u) = Some (show_nat (unat u))"
| "format_value E (PARAM_TYPE_UINT64 u) = Some (show_nat (unat u))"
| "format_value E (PARAM_TYPE_FLOAT f) = Some (take (PLUGIN_MAX_STRING_LEN - 1) (c_fmt_float E f))"
| "format_value E (PARAM_TYPE_DOUBLE d) = Some (take (PLUGIN_MAX_STRING_LEN - 1) (c_fmt_double E d))"
| "format_value E (PARAM_TYPE_BOOL b) = Some (if b then ''1'' else ''0'')"
| "format_value E (PARAM_TYPE_STRING s) =
     (if length (c_str s) < PLUGIN_MAX_STRING_LEN - 1 then Some (c_str s) else None)"
| "format_value E _ = Some []"

text \<open>The first parameter with a name.\<close>

definition find_param :: "plugin_param list \<Rightarrow> string \<Rightarrow> plugin_param_value option" where
  "find_param ps name = map_option pp_value (List.find (\<lambda>p. c_str (pp_name p) = name) ps)"

text \<open>The loop of \<^verbatim>\<open>substitute_template\<close>: what it writes from the position \<open>src\<close> on with \<open>remaining\<close> characters left. The name between
  the braces is copied into an array of \<^const>\<open>PLUGIN_MAX_STRING_LEN\<close> characters.\<close>

function substitute_from :: "('v, 'j) visa_env \<Rightarrow> plugin_param list \<Rightarrow> string \<Rightarrow> nat \<Rightarrow> string option" where
  "substitute_from E ps src remaining =
     (if src = [] \<or> remaining = 0 then Some []
      else case if hd src = CHR ''{'' then split_at_char (CHR ''}'') (tl src) else None of
          Some (name, after) \<Rightarrow>
            if PLUGIN_MAX_STRING_LEN \<le> length name then None
            else
              (case (case find_param ps name of
                       Some v \<Rightarrow> format_value E v
                     | None \<Rightarrow> Some (''{'' @ name @ ''}'')) of
                 None \<Rightarrow> None
               | Some t \<Rightarrow>
                   if length t \<le> remaining
                   then map_option (\<lambda>out. t @ out) (substitute_from E ps after (remaining - length t))
                   else substitute_from E ps after remaining)
        | None \<Rightarrow> map_option (\<lambda>out. hd src # out) (substitute_from E ps (tl src) (remaining - 1)))"
  by pat_completeness auto
termination
  by (relation "measure (\<lambda>(E, ps, src, remaining). length src)")
    (auto simp: split_at_char_Some neq_Nil_conv split: if_splits)

declare substitute_from.simps [simp del]

definition substitute_template :: "('v, 'j) visa_env \<Rightarrow> string \<Rightarrow> plugin_command \<Rightarrow> nat \<Rightarrow> string option" where
  "substitute_template E tmpl cmd output_size = substitute_from E (pc_params cmd) tmpl (output_size - 1)"

section \<open>Operations\<close>

definition visa_get_metadata :: plugin_metadata where
  "visa_get_metadata = \<lparr>pm_api_version = INSTRUMENT_PLUGIN_API_VERSION,
     pm_name = strncpy0 PLUGIN_MAX_STRING_LEN ''NI-VISA Plugin'',
     pm_version = strncpy0 PLUGIN_MAX_STRING_LEN ''1.0.0'',
     pm_protocol_type = strncpy0 PLUGIN_MAX_STRING_LEN ''VISA'',
     pm_description = strncpy0 PLUGIN_MAX_STRING_LEN
       (''Built-in NI-VISA protocol driver supporting GPIB, USB, Ethernet, '' @
        ''and Serial instruments with large data buffer support'')\<rparr>"

definition get_json_string :: "('v, 'j) visa_env \<Rightarrow> 'j \<Rightarrow> string \<Rightarrow> string \<Rightarrow> string" where
  "get_json_string E j key default_val = (case cj_string E j key of Some s \<Rightarrow> c_str s | None \<Rightarrow> default_val)"

definition get_json_int :: "('v, 'j) visa_env \<Rightarrow> 'j \<Rightarrow> string \<Rightarrow> i32 \<Rightarrow> i32" where
  "get_json_int E j key default_val = (case cj_int E j key of Some i \<Rightarrow> i | None \<Rightarrow> default_val)"

abbreviation LF :: char where "LF \<equiv> CHR 0x0A"
abbreviation CR :: char where "CR \<equiv> CHR 0x0D"
abbreviation backslash :: char where "backslash \<equiv> CHR 0x5C"

definition termination_text :: "string \<Rightarrow> string" where
  "termination_text term_char =
     (if term_char = [backslash, CHR ''n''] then [LF]
      else if term_char = [backslash, CHR ''r''] then [CR]
      else if term_char = [backslash, CHR ''r'', backslash, CHR ''n''] then [CR, LF]
      else strncpy0 4 term_char)"

text \<open>The initialisation commands of the API definition; a failed write is only reported.\<close>

fun run_init_commands :: "('v, 'j) visa_env \<Rightarrow> visa_state \<Rightarrow> string option list \<Rightarrow> 'v \<Rightarrow> 'v" where
  "run_init_commands E st [] v = v"
| "run_init_commands E st (Some cmd_str # cmds) v =
     run_init_commands E st cmds
       (snd (vi_write E (vs_instrument st) (take (PLUGIN_MAX_PAYLOAD - 1) (c_str cmd_str @ vs_termination_char st)) v))"
| "run_init_commands E st (None # cmds) v = run_init_commands E st cmds v"

definition visa_initialize :: "('v, 'j) visa_env \<Rightarrow> plugin_config \<Rightarrow> 'v visa \<Rightarrow> i32 \<times> 'v visa" where
  "visa_initialize E config p =
     (case p of (st, v, m) \<Rightarrow>
        case cj_parse E (pf_connection_json config) of
          None \<Rightarrow> (-1, p)
        | Some conn \<Rightarrow>
            let address = get_json_string E conn ''address'' [] in
            if address = [] then (-1, p)
            else
              let st1 = st\<lparr>vs_resource_address := strncpy0 PLUGIN_MAX_STRING_LEN address,
                           vs_timeout_ms := get_json_int E conn ''timeout'' 5000,
                           vs_termination_char := termination_text (get_json_string E conn ''termination'' [backslash, CHR ''n''])\<rparr>
              in case vi_open_rm E v of (status, rm, v1) \<Rightarrow>
                let st2 = st1\<lparr>vs_default_rm := rm\<rparr> in
                if sint status < 0 then (-1, st2, v1, m)
                else case vi_open E rm (vs_resource_address st2) (vs_timeout_ms st2) v1 of (status, inst, v2) \<Rightarrow>
                  let st3 = st2\<lparr>vs_instrument := inst\<rparr> in
                  if sint status < 0 then (-1, st3, vi_close E rm v2, m)
                  else
                    let v3 = vi_set_timeout E inst (vs_timeout_ms st3) v2;
                        st4 = st3\<lparr>vs_initialized := True\<rparr>;
                        v4 = (case cj_parse E (pf_api_definition_json config) of
                                None \<Rightarrow> v3
                              | Some api \<Rightarrow>
                                  (case cj_array E api ''initialization'' of
                                     None \<Rightarrow> v3 | Some cmds \<Rightarrow> run_init_commands E st4 cmds v3))
                    in (0, st4, v4, m))"

text \<open>The eight hexadecimal digits of \<^verbatim>\<open>%08X\<close>.\<close>

definition hex_digit :: "nat \<Rightarrow> char" where
  "hex_digit d = (if d < 10 then char_of (48 + d) else char_of (55 + d))"

definition show_hex8 :: "i32 \<Rightarrow> string" where
  "show_hex8 w = map (\<lambda>i. hex_digit (unat w div 16 ^ (7 - i) mod 16)) [0..<8]"

definition VI_SUCCESS_MAX_CNT :: i32 where "VI_SUCCESS_MAX_CNT = 0x3FFF0006"

definition string_value :: "plugin_param \<Rightarrow> string option" where
  "string_value p = (case pp_value p of PARAM_TYPE_STRING s \<Rightarrow> Some s | _ \<Rightarrow> None)"

definition command_template :: "plugin_command \<Rightarrow> string" where
  "command_template cmd =
     (case List.find (\<lambda>p. c_str (pp_name p) = ''template'' \<and> string_value p \<noteq> None) (pc_params cmd) of
        Some p \<Rightarrow> c_str (the (string_value p))
      | None \<Rightarrow> c_str (pc_verb cmd))"

definition trim_reading :: "string \<Rightarrow> string" where
  "trim_reading s = rev (dropWhile (\<lambda>c. c \<in> {LF, CR, CHR '' ''}) (rev s))"

definition is_delim :: "char \<Rightarrow> bool" where
  "is_delim c \<longleftrightarrow> c \<in> {CHR '','', CHR '' '', LF, CR}"

text \<open>The tokens \<^verbatim>\<open>strtok\<close> finds.\<close>

function tokens :: "string \<Rightarrow> string list" where
  "tokens s =
     (let t = dropWhile is_delim s in
      if t = [] then []
      else takeWhile (\<lambda>c. \<not> is_delim c) t # tokens (dropWhile (\<lambda>c. \<not> is_delim c) t))"
  by pat_completeness auto
termination
proof (relation "measure length")
  fix s t :: string assume t: "t = dropWhile is_delim s" "t \<noteq> []"
  then have "\<not> is_delim (hd t)" using hd_dropWhile by blast
  then have "length (dropWhile (\<lambda>c. \<not> is_delim c) t) < length t"
    using t(2) by (cases t) (auto simp: less_Suc_eq_le length_dropWhile_le)
  also have "length t \<le> length s" using t(1) length_dropWhile_le by blast
  finally show "(dropWhile (\<lambda>c. \<not> is_delim c) t, s) \<in> measure length" by simp
qed simp

declare tokens.simps [simp del]

text \<open>The elements of the array are as many as there are tokens, but not more than delimiters of three kinds, plus one.\<close>

definition read_floats :: "('v, 'j) visa_env \<Rightarrow> string \<Rightarrow> u32 list" where
  "read_floats E s =
     map (c_strtof E) (take (length (filter (\<lambda>c. c \<in> {CHR '','', CHR '' '', LF}) s) + 1) (tokens (c_str s)))"

text \<open>The bytes of an array of floats, lowest byte first.\<close>

definition float_bytes :: "u32 list \<Rightarrow> nat \<Rightarrow> u8" where
  "float_bytes fs i = (if i < 4 * length fs then ucast (drop_bit (8 * (i mod 4)) (fs ! (i div 4))) else 0)"

definition store_large ::
  "('v, 'j) visa_env \<Rightarrow> plugin_command \<Rightarrow> string \<Rightarrow> plugin_response \<Rightarrow> data_buffer_manager \<Rightarrow> plugin_response \<times> data_buffer_manager"
where
  "store_large E cmd data resp m =
     (if \<not> c_malloc_floats E (length (filter (\<lambda>c. c \<in> {CHR '','', CHR '' '', LF}) data) + 1) then (resp, m)
      else
        let fs = read_floats E data in
        case data_buffer_create (c_malloc_block E) (c_ms E) (c_ms' E) (Some (pc_instrument_name cmd)) (Some (pc_id cmd)) 0
               (of_nat (length fs)) (Some (float_bytes fs)) True m of
          (rc, out, m') \<Rightarrow>
            (case (rc = 0, out) of
               (True, Some buffer_id) \<Rightarrow>
                 (resp\<lparr>pr_has_large_data := True, pr_data_buffer_id := strncpy0 PLUGIN_MAX_STRING_LEN buffer_id,
                       pr_data_element_count := of_nat (length fs), pr_data_type := 0,
                       pr_text_response := take (PLUGIN_MAX_PAYLOAD - 1)
                         (''Large data buffer:  '' @ buffer_id @ '' ('' @ show_nat (length fs) @ '' elements)'')\<rparr>, m')
             | _ \<Rightarrow>
                 (resp\<lparr>pr_text_response := strncpy0 PLUGIN_MAX_PAYLOAD
                    (takeWhile is_delim (c_str data) @ takeWhile (\<lambda>c. \<not> is_delim c) (dropWhile is_delim (c_str data)))\<rparr>, m')))"

definition store_small :: "('v, 'j) visa_env \<Rightarrow> string \<Rightarrow> plugin_response \<Rightarrow> plugin_response" where
  "store_small E data resp =
     (case c_strtod E (c_str data) of (dval, used) \<Rightarrow>
        resp\<lparr>pr_text_response := strncpy0 PLUGIN_MAX_PAYLOAD data,
             pr_return_value := (if used \<noteq> 0 \<and> used = length (c_str data) then PARAM_TYPE_DOUBLE dval
               else PARAM_TYPE_STRING (strncpy0 PLUGIN_MAX_STRING_LEN data))\<rparr>)"

definition read_response ::
  "('v, 'j) visa_env \<Rightarrow> plugin_command \<Rightarrow> plugin_response \<Rightarrow> 'v visa \<Rightarrow> i32 \<times> plugin_response \<times> 'v visa"
where
  "read_response E cmd resp p =
     (case p of (st, v, m) \<Rightarrow>
        if \<not> c_malloc_read E
        then (-1, resp\<lparr>pr_success := False, pr_error_message := strncpy0 PLUGIN_MAX_STRING_LEN ''Failed to allocate read buffer''\<rparr>, p)
        else case vi_read E (vs_instrument st) (1024 * 1024 - 1) v of (status, data0, v1) \<Rightarrow>
          if sint status < 0 \<and> status \<noteq> VI_SUCCESS_MAX_CNT
          then (-1, resp\<lparr>pr_success := False, pr_error_message := take (PLUGIN_MAX_STRING_LEN - 1) (''VISA read failed:  0x'' @ show_hex8 status),
                  pr_error_code := status\<rparr>, st, v1, m)
          else
            let data = trim_reading data0 in
            if length data > LARGE_DATA_THRESHOLD
            then (case store_large E cmd data resp m of (resp', m') \<Rightarrow> (0, resp'\<lparr>pr_success := True\<rparr>, st, v1, m'))
            else (0, (store_small E data resp)\<lparr>pr_success := True\<rparr>, st, v1, m))"

definition visa_execute_command ::
  "('v, 'j) visa_env \<Rightarrow> plugin_command \<Rightarrow> plugin_response \<Rightarrow> 'v visa \<Rightarrow> (i32 \<times> plugin_response \<times> 'v visa) option"
where
  "visa_execute_command E cmd resp0 p =
     (case p of (st, v, m) \<Rightarrow>
        let resp = resp0\<lparr>pr_command_id := strncpy0 PLUGIN_MAX_STRING_LEN (pc_id cmd),
              pr_instrument_name := strncpy0 PLUGIN_MAX_STRING_LEN (pc_instrument_name cmd),
              pr_has_large_data := False, pr_data_buffer_id := [], pr_data_element_count := 0, pr_data_type := 0\<rparr>
        in if \<not> vs_initialized st
           then Some (-1, resp\<lparr>pr_success := False,
             pr_error_message := strncpy0 PLUGIN_MAX_STRING_LEN ''VISA plugin not initialized''\<rparr>, p)
           else case substitute_template E (command_template cmd) cmd PLUGIN_MAX_PAYLOAD of
               None \<Rightarrow> None
             | Some text0 \<Rightarrow>
                 let command_str = text0 @ take (PLUGIN_MAX_PAYLOAD - length text0 - 1) (vs_termination_char st) in
                 case vi_write E (vs_instrument st) command_str v of (status, v1) \<Rightarrow>
                   if sint status < 0
                   then Some (-1, resp\<lparr>pr_success := False, pr_error_code := status,
                     pr_error_message := take (PLUGIN_MAX_STRING_LEN - 1) (''VISA write failed: 0x'' @ show_hex8 status)\<rparr>, st, v1, m)
                   else if pc_expects_response cmd then Some (read_response E cmd resp (st, v1, m))
                   else Some (0, resp\<lparr>pr_success := True\<rparr>, st, v1, m))"

definition visa_shutdown :: "('v, 'j) visa_env \<Rightarrow> 'v visa \<Rightarrow> 'v visa" where
  "visa_shutdown E p =
     (case p of (st, v, m) \<Rightarrow>
        if \<not> vs_initialized st then p
        else
          let (st1, v1) = (if vs_instrument st \<noteq> 0 then (st\<lparr>vs_instrument := 0\<rparr>, vi_close E (vs_instrument st) v) else (st, v));
              (st2, v2) = (if vs_default_rm st1 \<noteq> 0 then (st1\<lparr>vs_default_rm := 0\<rparr>, vi_close E (vs_default_rm st1) v1) else (st1, v1))
          in (st2\<lparr>vs_initialized := False\<rparr>, v2, m))"

text \<open>The library as the loader sees it; \<open>ub\<close> is whatever a call with undefined behaviour does.\<close>

definition visa_symbols ::
  "('v, 'j) visa_env \<Rightarrow> (plugin_command \<Rightarrow> plugin_response \<Rightarrow> 'v visa \<Rightarrow> i32 \<times> plugin_response \<times> 'v visa) \<Rightarrow> 'v visa plugin_symbols"
where
  "visa_symbols E ub = \<lparr>ps_get_metadata = Some visa_get_metadata, ps_initialize = Some (visa_initialize E),
     ps_execute_command = Some (\<lambda>cmd resp p. case visa_execute_command E cmd resp p of Some r \<Rightarrow> r | None \<Rightarrow> ub cmd resp p),
     ps_shutdown = Some (visa_shutdown E)\<rparr>"

section \<open>Filling a template\<close>

text \<open>What a template means: characters and holes, and the text of each.\<close>

datatype piece = Char_Piece char | Hole string

function pieces :: "string \<Rightarrow> piece list" where
  "pieces [] = []"
| "pieces (c # cs) =
     (case if c = CHR ''{'' then split_at_char (CHR ''}'') cs else None of
        Some (name, after) \<Rightarrow> Hole name # pieces after
      | None \<Rightarrow> Char_Piece c # pieces cs)"
  by pat_completeness auto
termination
  by (relation "measure length") (auto simp: split_at_char_Some split: if_splits)

fun piece_text :: "('v, 'j) visa_env \<Rightarrow> plugin_param list \<Rightarrow> piece \<Rightarrow> string option" where
  "piece_text E ps (Char_Piece c) = Some [c]"
| "piece_text E ps (Hole name) = (case find_param ps name of Some v \<Rightarrow> format_value E v | None \<Rightarrow> Some (''{'' @ name @ ''}''))"

definition fill :: "('v, 'j) visa_env \<Rightarrow> plugin_param list \<Rightarrow> string \<Rightarrow> string option" where
  "fill E ps tmpl = map_option concat (those (map (piece_text E ps) (pieces tmpl)))"

lemma fill_Nil [simp]: "fill E ps [] = Some []"
  by (simp add: fill_def)

lemma fill_Cons:
  "fill E ps (c # cs) =
     (case if c = CHR ''{'' then split_at_char (CHR ''}'') cs else None of
        Some (name, after) \<Rightarrow>
          Option.bind (piece_text E ps (Hole name)) (\<lambda>t. map_option (\<lambda>out. t @ out) (fill E ps after))
      | None \<Rightarrow> map_option (\<lambda>out. c # out) (fill E ps cs))"
  by (auto simp: fill_def option.map_comp comp_def split: option.split prod.split)

abbreviation hole_at :: "char \<Rightarrow> string \<Rightarrow> (string \<times> string) option" where
  "hole_at c cs \<equiv> (if c = CHR ''{'' then split_at_char (CHR ''}'') cs else None)"

lemma substitute_stop [simp]: "substitute_from E ps [] r = Some []" "substitute_from E ps src 0 = Some []"
  by (simp_all add: substitute_from.simps)

lemma substitute_char:
  "hole_at c cs = None \<Longrightarrow> 0 < r \<Longrightarrow> substitute_from E ps (c # cs) r = map_option (\<lambda>out. c # out) (substitute_from E ps cs (r - 1))"
  by (subst substitute_from.simps) (auto split: if_splits)

lemma substitute_hole:
  assumes "hole_at c cs = Some (name, after)" and "0 < r"
  shows "substitute_from E ps (c # cs) r =
    (if PLUGIN_MAX_STRING_LEN \<le> length name then None
     else Option.bind (piece_text E ps (Hole name)) (\<lambda>t.
       if length t \<le> r then map_option (\<lambda>out. t @ out) (substitute_from E ps after (r - length t))
       else substitute_from E ps after r))"
  using assms by (subst substitute_from.simps) (auto split: option.split)

lemma hole_shorter: "hole_at c cs = Some (name, after) \<Longrightarrow> length after < length cs \<and> length name < length cs"
  by (auto simp: split_at_char_Some split: if_splits)

lemma template_induct [case_names Nil Char Hole]:
  assumes "P []"
    and "\<And>c cs. hole_at c cs = None \<Longrightarrow> P cs \<Longrightarrow> P (c # cs)"
    and "\<And>c cs name after. hole_at c cs = Some (name, after) \<Longrightarrow> P after \<Longrightarrow> P (c # cs)"
  shows "P src"
proof (induction src rule: length_induct)
  case (1 src)
  show ?case
  proof (cases src)
    case (Cons c cs)
    have "hole_at c cs = None \<Longrightarrow> P cs" and "hole_at c cs = Some (name, after) \<Longrightarrow> P after" for name after
      using 1 Cons hole_shorter [of c cs name after] by auto
    then show ?thesis unfolding Cons using assms(2,3) [of c cs] by (cases "hole_at c cs") auto
  qed (simp add: assms(1))
qed

lemma substitute_from_bound: "substitute_from E ps src r = Some out \<Longrightarrow> length out \<le> r"
proof (induction src arbitrary: r out rule: template_induct)
  case (Char c cs)
  then show ?case by (cases r) (fastforce simp: substitute_char)+
next
  case (Hole c cs name after)
  then show ?case
    by (cases r) (fastforce simp: substitute_hole split: if_splits bind_splits)+
qed simp

lemma substitute_from_fill:
  assumes "length src \<le> PLUGIN_MAX_STRING_LEN" and "fill E ps src = Some out" 
  shows "(length out \<le> r \<longrightarrow> substitute_from E ps src r = Some out) \<and> (\<exists>out'. substitute_from E ps src r = Some out')"
  using assms
proof (induction src arbitrary: r out rule: template_induct)
  case (Char c cs)
  then obtain out1 where o: "fill E ps cs = Some out1" "out = c # out1" by (auto simp: fill_Cons)
  note ih = Char.IH [OF _ o(1), of "r - 1"]
  show ?case
    using ih Char.prems(1) o(2) Char.hyps by (cases r) (auto simp: substitute_char)
next
  case (Hole c cs name after)
  then obtain t out1 where o: "piece_text E ps (Hole name) = Some t" "fill E ps after = Some out1" "out = t @ out1"
    by (auto simp: fill_Cons split: bind_splits)
  have short: "length after \<le> PLUGIN_MAX_STRING_LEN" "length name < PLUGIN_MAX_STRING_LEN"
    using hole_shorter [OF Hole.hyps] Hole.prems(1) by auto
  note ih = Hole.IH [OF short(1) o(2)]
  show ?case
  proof (cases "r = 0")
    case False
    then show ?thesis
      using ih [of "r - length t"] ih [of r] short(2) o Hole.hyps by (auto simp: substitute_hole simp del: piece_text.simps)
  qed (use o in auto)
qed simp

section \<open>Commands from the worker\<close>

text \<open>The parameters whose text fits \<^verbatim>\<open>value_str\<close> with its terminator.\<close>

definition short_strings :: "serialized_command \<Rightarrow> bool" where
  "short_strings c \<longleftrightarrow> (\<forall>k t. (k, PString t) \<in> set (sc_params c) \<longrightarrow> length (c_str t) < PLUGIN_MAX_STRING_LEN - 1)"

lemma c_str_length: "length (c_str t) \<le> length t"
  by (simp add: c_str_def length_takeWhile_le)

lemma strncpy0_less: "length (strncpy0 PLUGIN_MAX_STRING_LEN t) < PLUGIN_MAX_STRING_LEN"
  by (rule strncpy0_length) (simp add: PLUGIN_MAX_STRING_LEN_def)

lemma worker_param_values:
  assumes "p \<in> set (pc_params (to_plugin_command c))"
  shows "\<exists>k v. (k, v) \<in> set (sc_params c) \<and> pp_value p = to_plugin_value v"
  using assms by (fastforce simp: to_plugin_command_def to_plugin_params_def dest: in_set_takeD)

lemma template_length: "length (command_template (to_plugin_command c)) < PLUGIN_MAX_STRING_LEN"
proof (cases "List.find (\<lambda>p. c_str (pp_name p) = ''template'' \<and> string_value p \<noteq> None) (pc_params (to_plugin_command c))")
  case None
  then show ?thesis
    using strncpy0_less [of "sc_verb c"] by (simp add: command_template_def) (simp add: to_plugin_command_def)
next
  case (Some p)
  then have "p \<in> set (pc_params (to_plugin_command c))" "string_value p \<noteq> None"
    by (auto simp: find_Some_iff)
  then obtain v where "pp_value p = to_plugin_value v" using worker_param_values by blast
  then have "\<exists>t. string_value p = Some (strncpy0 PLUGIN_MAX_STRING_LEN t)"
    using \<open>string_value p \<noteq> None\<close> by (cases v) (auto simp: string_value_def)
  then show ?thesis using Some strncpy0_less by (auto simp: command_template_def)
qed

lemma those_defined: "(\<forall>x \<in> set xs. f x \<noteq> None) \<Longrightarrow> those (map f xs) \<noteq> None"
  by (induction xs) auto

lemma fill_defined:
  assumes "short_strings c"
  shows "fill E (pc_params (to_plugin_command c)) tmpl \<noteq> None"
proof -
  have "format_value E (pp_value p) \<noteq> None" if p: "p \<in> set (pc_params (to_plugin_command c))" for p
  proof -
    obtain k v where v: "(k, v) \<in> set (sc_params c)" "pp_value p = to_plugin_value v" using worker_param_values [OF p] by blast
    have "length (strncpy0 PLUGIN_MAX_STRING_LEN t) \<le> length (c_str t)" for t by (simp add: strncpy0_def)
    then show ?thesis
      using v assms unfolding short_strings_def by (cases v) (fastforce intro: le_less_trans)+
  qed
  then have "piece_text E (pc_params (to_plugin_command c)) x \<noteq> None" for x
    by (cases x) (auto simp: find_param_def find_Some_iff split: option.split)
  then show ?thesis using those_defined [of "pieces tmpl" "piece_text E (pc_params (to_plugin_command c))"] by (auto simp: fill_def)
qed

text \<open>C21: The VISA plugin sends what a template means. For a command from the worker whose string parameters have fewer than 127
  characters, the template with its placeholders filled in has a definite text; when that text and the
  termination characters fit the 4096-byte buffer, exactly they are written to the instrument, a failed
  write is reported with its status, and a command that expects no response then succeeds.\<close>

theorem visa_sends_filled_template:
  assumes "short_strings c" and "vs_initialized st"
  shows "\<exists>out. fill E (pc_params (to_plugin_command c)) (command_template (to_plugin_command c)) = Some out \<and>
    (length out + length (vs_termination_char st) < PLUGIN_MAX_PAYLOAD \<longrightarrow>
      (\<exists>rc resp p' status v1. vi_write E (vs_instrument st) (out @ vs_termination_char st) v = (status, v1) \<and>
        visa_execute_command E (to_plugin_command c) resp0 (st, v, m) = Some (rc, resp, p') \<and>
        (sint status < 0 \<longrightarrow> rc = -1 \<and> \<not> pr_success resp \<and> pr_error_code resp = status \<and> p' = (st, v1, m)) \<and>
        (0 \<le> sint status \<and> \<not> sc_expects_response c \<longrightarrow> rc = 0 \<and> pr_success resp \<and> p' = (st, v1, m))))"
proof -
  let ?pc = "to_plugin_command c"
  obtain out where f: "fill E (pc_params ?pc) (command_template ?pc) = Some out" using fill_defined [OF assms(1)] by blast
  obtain status v1 where w: "vi_write E (vs_instrument st) (out @ vs_termination_char st) v = (status, v1)" by fastforce
  have e: "pc_expects_response ?pc = sc_expects_response c" by (simp add: to_plugin_command_def)
  have "\<exists>rc resp p'. visa_execute_command E ?pc resp0 (st, v, m) = Some (rc, resp, p') \<and>
      (sint status < 0 \<longrightarrow> rc = -1 \<and> \<not> pr_success resp \<and> pr_error_code resp = status \<and> p' = (st, v1, m)) \<and>
      (0 \<le> sint status \<and> \<not> sc_expects_response c \<longrightarrow> rc = 0 \<and> pr_success resp \<and> p' = (st, v1, m))"
    if l: "length out + length (vs_termination_char st) < PLUGIN_MAX_PAYLOAD"
  proof -
    have s: "substitute_template E (command_template ?pc) ?pc PLUGIN_MAX_PAYLOAD = Some out"
      using substitute_from_fill [OF _ f, of "PLUGIN_MAX_PAYLOAD - 1"] template_length [of c] l by (simp add: substitute_template_def)
    have "visa_execute_command E ?pc resp0 (st, v, m) \<noteq> None"
      using s w l assms(2) by (simp add: visa_execute_command_def Let_def del: not_None_eq)
    then obtain rc resp p' where x: "visa_execute_command E ?pc resp0 (st, v, m) = Some (rc, resp, p')" by auto
    then show ?thesis
      using s w l assms(2) e by (auto simp: visa_execute_command_def Let_def split: if_splits)
  qed
  then show ?thesis using f w by blast
qed

text \<open>A placeholder for a string of 127 characters or more reads past the end of an array.\<close>

lemma long_string_undefined:
  assumes "find_param ps name = Some (PARAM_TYPE_STRING t)" and "PLUGIN_MAX_STRING_LEN - 1 \<le> length (c_str t)" and "CHR ''}'' \<notin> set name" and "0 < r"
  shows "substitute_from E ps (''{'' @ name @ ''}'') r = None"
  using assms by (simp add: substitute_hole [of _ _ name "[]"] split_at_char_Some)

section \<open>Starting a worker with the plugin\<close>

text \<open>C40: A worker cannot run the VISA plugin. The worker passes an empty JSON object as the connection, which has no address, so that
  the plugin refuses to initialise and the worker process ends with status 1 without opening a session.\<close>

theorem visa_worker_cannot_start:
  assumes "\<forall>j. cj_parse E ''{}'' = Some j \<longrightarrow> cj_string E j ''address'' = None"
    and "ld_symbols (wk_plugin s) = visa_symbols E ub"
  shows "worker_run L mq nows s = (Some 1, s)"
proof -
  have "strncpy0 PLUGIN_MAX_STRING_LEN ''{}'' = ''{}''" by (simp add: strncpy0_def c_str_def PLUGIN_MAX_STRING_LEN_def)
  then have "fst (load_and_init_plugin s) = False \<and> snd (load_and_init_plugin s) = s"
    using assms by (auto simp: load_and_init_plugin_def Let_def loader_initialize_def visa_symbols_def visa_initialize_def
        get_json_string_def split: option.split prod.split)
  then show ?thesis by (cases "load_and_init_plugin s") (simp add: worker_run_def)
qed

lemma store_echoes:
  "pr_command_id (fst (store_large E cmd data resp m)) = pr_command_id resp"
  "pr_instrument_name (fst (store_large E cmd data resp m)) = pr_instrument_name resp"
  "pr_command_id (store_small E data resp) = pr_command_id resp"
  "pr_instrument_name (store_small E data resp) = pr_instrument_name resp"
  by (auto simp: store_large_def store_small_def Let_def split: prod.split option.split bool.split)

lemma read_response_echoes:
  "read_response E cmd resp0 p = (rc, resp, p') \<Longrightarrow>
     pr_command_id resp = pr_command_id resp0 \<and> pr_instrument_name resp = pr_instrument_name resp0"
  using store_echoes(1,2) [of E cmd _ resp0]
  by (auto simp: read_response_def Let_def store_echoes(3,4) split: prod.splits if_splits) (metis fst_conv)+

interpretation visa: worker_plugin "visa_execute_command E" "visa_shutdown E" for E
proof
  show "pr_command_id resp = strncpy0 PLUGIN_MAX_STRING_LEN (pc_id cmd) \<and>
      pr_instrument_name resp = strncpy0 PLUGIN_MAX_STRING_LEN (pc_instrument_name cmd)"
    if "visa_execute_command E cmd resp0 p = Some (rc, resp, p')" for cmd resp0 p rc resp p'
    using that
    by (auto simp: visa_execute_command_def Let_def split: prod.splits if_splits option.splits dest!: read_response_echoes)
  show "visa_shutdown E (visa_shutdown E p) = visa_shutdown E p" for p
    by (cases p) (auto simp: visa_shutdown_def Let_def split: prod.split)
qed

section \<open>Large readings\<close>

lemma tokens_count:
  assumes "CR \<notin> set s"
  shows "length (tokens s) \<le> length (filter (\<lambda>c. c \<in> {CHR '','', CHR '' '', LF}) s) + (if s \<noteq> [] \<and> \<not> is_delim (hd s) then 1 else 0)"
  using assms
proof (induction s rule: tokens.induct)
  case (1 s)
  let ?F = "\<lambda>s. length (filter (\<lambda>c. c \<in> {CHR '','', CHR '' '', LF}) s)"
  define t where "t = dropWhile is_delim s"
  define rest where "rest = dropWhile (\<lambda>c. \<not> is_delim c) t"
  have s: "s = takeWhile is_delim s @ t" and t: "t = takeWhile (\<lambda>c. \<not> is_delim c) t @ rest"
    by (simp_all add: t_def rest_def)
  have cr: "CR \<notin> set rest" using 1(2) set_dropWhileD unfolding rest_def t_def by metis
  show ?case
  proof (cases "t = []")
    case True
    then show ?thesis by (simp add: tokens.simps [of s] t_def)
  next
    case False
    have "rest = [] \<or> is_delim (hd rest)" unfolding rest_def using hd_dropWhile by blast
    then have ih: "length (tokens rest) \<le> ?F rest"
      using 1(1) [OF t_def False] cr by (auto simp: rest_def split: if_splits)
    have tok: "length (tokens s) = Suc (length (tokens rest))"
      using False by (subst tokens.simps) (simp add: Let_def t_def rest_def)
    have ft: "?F rest \<le> ?F t" using arg_cong [OF t, of ?F] by simp
    have "\<forall>c \<in> set (takeWhile is_delim s). c \<in> {CHR '','', CHR '' '', LF}"
      using 1(2) by (auto simp: is_delim_def dest!: set_takeWhileD)
    then have "?F (takeWhile is_delim s) = length (takeWhile is_delim s)" by (simp add: filter_id_conv)
    then have fs: "?F s = length (takeWhile is_delim s) + ?F t" by (subst (1) s) (simp del: takeWhile_dropWhile_id)
    have "(if s \<noteq> [] \<and> \<not> is_delim (hd s) then 1 else 0) + length (takeWhile is_delim s) \<ge> 1"
      using False by (cases s) (auto simp: t_def)
    then show ?thesis using ih tok ft fs by linarith
  qed
qed

lemma read_floats_all:
  assumes "CR \<notin> set data"
  shows "read_floats E data = map (c_strtof E) (tokens (c_str data))"
proof -
  let ?F = "\<lambda>s. length (filter (\<lambda>c. c \<in> {CHR '','', CHR '' '', LF}) s)"
  have "CR \<notin> set (c_str data)" using assms set_takeWhileD unfolding c_str_def by metis
  then have "length (tokens (c_str data)) \<le> ?F (c_str data) + 1" using tokens_count [of "c_str data"] by (auto split: if_splits)
  also have "c_str data @ dropWhile (\<lambda>c. c \<noteq> CHR 0x00) data = data" by (simp add: c_str_def)
  then have "?F (c_str data) \<le> ?F data" by (metis filter_append length_append le_add1)
  finally show ?thesis by (simp add: read_floats_def)
qed

lemma tokens_length: "length (tokens s) \<le> length s"
proof (induction s rule: tokens.induct)
  case (1 s)
  define t where "t = dropWhile is_delim s"
  show ?case
  proof (cases "t = []")
    case False
    then have "\<not> is_delim (hd t)" unfolding t_def by (rule hd_dropWhile)
    then have "length (dropWhile (\<lambda>c. \<not> is_delim c) t) < length t"
      using False by (cases t) (auto simp: less_Suc_eq_le length_dropWhile_le)
    moreover have "length t \<le> length s" unfolding t_def by (rule length_dropWhile_le)
    moreover have "length (tokens s) = Suc (length (tokens (dropWhile (\<lambda>c. \<not> is_delim c) t)))"
      using False by (subst tokens.simps) (simp add: Let_def t_def)
    ultimately show ?thesis using 1 [OF t_def False] by linarith
  qed (simp add: tokens.simps [of s] t_def)
qed

lemma store_large_stores:
  assumes "buffer_reachable n m" and "n < 2 ^ 64 - 1" and "c_ms E < 2 ^ 64"
    and "\<And>k. c_malloc_floats E k" and "\<And>k. c_malloc_block E k"
    and "length data < 2 ^ 20" and "CR \<notin> set data"
  shows "\<exists>resp' m'. store_large E cmd data resp m = (resp', m') \<and> pr_has_large_data resp' \<and> pr_data_type resp' = 0 \<and>
    unat (pr_data_element_count resp') = length (tokens (c_str data)) \<and>
    map_option db_data (fst (get_buffer (pr_data_buffer_id resp') m')) =
      Some (Some (map (float_bytes (map (c_strtof E) (tokens (c_str data)))) [0..<4 * length (tokens (c_str data))]))"
proof -
  let ?fs = "map (c_strtof E) (tokens (c_str data))"
  let ?n = "of_nat (length ?fs) :: u64"
  have "length ?fs < 2 ^ 20" using tokens_length [of "c_str data"] c_str_length [of data] assms(6) by simp
  then have n: "unat ?n = length ?fs" "unat (?n * 4) = 4 * length ?fs"
    by (simp_all add: unat_word_ariths unat_of_nat)
  obtain i m' where c: "create_buffer (c_malloc_block E) (c_ms E) (c_ms' E) (pc_instrument_name cmd) (pc_id cmd) FLOAT32 ?n
      (Some (float_bytes ?fs)) m = (i, m')" by fastforce
  have sz: "data_type_size FLOAT32 = 4" by simp
  note st = create_stores [OF assms(1,2) _ _ c, unfolded sz]
  have i: "strncpy0 128 i = i" "i \<noteq> []" using st(1) buffer_id_short [OF assms(3)] assms(5) by (auto simp: buffer_id_string_def)
  have l: "store_large E cmd data resp m =
      (resp\<lparr>pr_has_large_data := True, pr_data_buffer_id := i, pr_data_element_count := ?n, pr_data_type := 0,
         pr_text_response := take (PLUGIN_MAX_PAYLOAD - 1) (''Large data buffer:  '' @ i @ '' ('' @ show_nat (length ?fs) @ '' elements)'')\<rparr>, m')"
    using c i assms(4) by (simp add: store_large_def read_floats_all [OF assms(7)] data_buffer_create_def Let_def PLUGIN_MAX_STRING_LEN_def)
  have "map_of (dm_buffers m') i = Some (fresh_entry i (c_ms' E) (pc_instrument_name cmd) (pc_id cmd) FLOAT32 ?n (Some (float_bytes ?fs)))"
    using st(4) assms(5) by simp
  then have g: "map_option db_data (fst (get_buffer i m')) = Some (Some (map (float_bytes ?fs) [0..<4 * length ?fs]))"
    using n(2) by (simp add: get_buffer_def fresh_entry_def new_data_buffer_def)
  show ?thesis using g n(1) unfolding l by simp
qed

text \<open>C22: A reading of more than 1024 bytes is kept in a data buffer: the response names a new buffer that holds, as 32-bit floats, all
  numbers of the reading in order, and its element count is the number of them. The numbers are
  separated by commas, blanks or line feeds, and memory is available.\<close>

theorem visa_large_reading:
  assumes "buffer_reachable n m" and "n < 2 ^ 64 - 1" and "c_ms E < 2 ^ 64"
    and "c_malloc_read E" and "\<forall>k. c_malloc_floats E k" and "\<forall>k. c_malloc_block E k"
    and "vi_read E (vs_instrument st) (1024 * 1024 - 1) v = (status, reading, v1)" and "0 \<le> sint status"
    and "length reading < 2 ^ 20" and "LARGE_DATA_THRESHOLD < length (trim_reading reading)" and "CR \<notin> set (trim_reading reading)"
  shows "\<exists>resp' m'. read_response E cmd resp (st, v, m) = (0, resp', st, v1, m') \<and> pr_success resp' \<and>
    pr_has_large_data resp' \<and> pr_data_type resp' = 0 \<and>
    unat (pr_data_element_count resp') = length (tokens (c_str (trim_reading reading))) \<and>
    map_option db_data (fst (get_buffer (pr_data_buffer_id resp') m')) =
      Some (Some (map (float_bytes (map (c_strtof E) (tokens (c_str (trim_reading reading)))))
        [0..<4 * length (tokens (c_str (trim_reading reading)))]))"
proof -
  have "length (trim_reading reading) \<le> length reading"
    unfolding trim_reading_def by (metis length_dropWhile_le length_rev)
  then have l: "length (trim_reading reading) < 2 ^ 20" using assms(9) by linarith
  obtain resp' m' where s: "store_large E cmd (trim_reading reading) resp m = (resp', m')" "pr_has_large_data resp'" "pr_data_type resp' = 0"
      "unat (pr_data_element_count resp') = length (tokens (c_str (trim_reading reading)))"
      "map_option db_data (fst (get_buffer (pr_data_buffer_id resp') m')) =
        Some (Some (map (float_bytes (map (c_strtof E) (tokens (c_str (trim_reading reading)))))
          [0..<4 * length (tokens (c_str (trim_reading reading)))]))"
    using store_large_stores [OF assms(1-3) _ _ l assms(11), of cmd resp] assms(5,6) by blast
  then show ?thesis using assms(4,7,8,10) by (simp add: read_response_def Let_def)
qed

section \<open>Witnesses\<close>

definition demo_visa :: "(string list, unit) visa_env" where
  "demo_visa = \<lparr>vi_open_rm = (\<lambda>v. (0, 1, v)), vi_open = (\<lambda>rm a t v. (0, 2, v)), vi_set_timeout = (\<lambda>s t v. v),
     vi_write = (\<lambda>s t v. (0, v @ [t])), vi_read = (\<lambda>s n v. (0, concat (replicate 600 ''7,'') @ ''7'', v)), vi_close = (\<lambda>s v. v),
     cj_parse = (\<lambda>t. if t = ''{}'' then Some () else None), cj_string = (\<lambda>j k. None), cj_int = (\<lambda>j k. None), cj_array = (\<lambda>j k. None),
     c_fmt_float = (\<lambda>f. ''0''), c_fmt_double = (\<lambda>d. ''0''), c_strtod = (\<lambda>s. (0, 0)), c_strtof = (\<lambda>s. 7),
     c_malloc_read = True, c_malloc_floats = (\<lambda>n. True), c_malloc_block = (\<lambda>n. True), c_ms = 1, c_ms' = 2\<rparr>"

definition demo_set :: serialized_command where
  "demo_set = default_command\<lparr>sc_id := ''c1'', sc_instrument_name := ''dac'', sc_verb := ''V{ch} {v}'',
     sc_params := [(''ch'', PInt64 2), (''v'', PString ''1.5'')], sc_expects_response := False\<rparr>"

theorem visa_sends_filled_template_witness:
  "\<exists>resp p'. visa_execute_command demo_visa (to_plugin_command demo_set) zero_response
       (zero_state\<lparr>vs_initialized := True, vs_termination_char := [LF]\<rparr>, [], new_manager) = Some (0, resp, p') \<and>
     pr_success resp \<and> fst (snd p') = [''V2 1.5'' @ [LF]]"
proof -
  let ?st = "zero_state\<lparr>vs_initialized := True, vs_termination_char := [LF]\<rparr>"
  have short: "short_strings demo_set"
    by (simp add: short_strings_def demo_set_def c_str_def PLUGIN_MAX_STRING_LEN_def)
  have fill: "fill demo_visa (pc_params (to_plugin_command demo_set)) (command_template (to_plugin_command demo_set)) = Some ''V2 1.5''"
    by code_simp
  have ini: "vs_initialized ?st" by simp
  show ?thesis
    using visa_sends_filled_template [OF short ini, of demo_visa "[]" zero_response new_manager, unfolded fill]
    by (auto simp: demo_visa_def demo_set_def PLUGIN_MAX_PAYLOAD_def)
qed

definition demo_visa_worker :: "(string list visa, queues) worker" where
  "demo_visa_worker = \<lparr>wk_instrument_name = ''dac'',
     wk_plugin = \<lparr>ld_handle = True, ld_plugin_path = ''visa_plugin.so'', ld_error_message = [],
       ld_symbols = visa_symbols demo_visa (\<lambda>c r p. (-1, r, p))\<rparr>,
     wk_plugin_state = (zero_state, [], new_manager), wk_ipc_queue = None, wk_waiting_sync_token = None,
     wk_last_heartbeat = 0, wk_running = True, wk_shm = Map.empty\<rparr>"

theorem visa_worker_cannot_start_witness:
  "worker_run (docs_lib []) list_mq [1, 2] demo_visa_worker = (Some 1, demo_visa_worker)"
  by (rule visa_worker_cannot_start [of demo_visa]) (simp_all add: demo_visa_def demo_visa_worker_def)

theorem visa_large_reading_witness:
  "\<exists>resp' m'. read_response demo_visa (to_plugin_command demo_set) zero_response (zero_state, [], new_manager) = (0, resp', zero_state, [], m') \<and>
     pr_has_large_data resp' \<and> get_buffer (pr_data_buffer_id resp') m' \<noteq> (None, m')"
proof -
  let ?d = "concat (replicate 600 ''7,'') @ ''7''"
  have t: "trim_reading ?d = ?d" by (simp add: trim_reading_def)
  have r: "vi_read demo_visa (vs_instrument zero_state) (1024 * 1024 - 1) [] = (0, ?d, [])" by (simp add: demo_visa_def)
  have len: "length ?d = 1201" by (simp add: length_concat sum_list_replicate)
  have cr: "CR \<notin> set (trim_reading ?d)" unfolding t by auto
  have "0 \<le> sint (0 :: i32)" "c_ms demo_visa < 2 ^ 64" "c_malloc_read demo_visa" "\<forall>k. c_malloc_floats demo_visa k" "\<forall>k. c_malloc_block demo_visa k"
    by (simp_all add: demo_visa_def)
  from visa_large_reading [OF buffer_reachable.start _ this(2-5) r this(1) _ _ cr, of "to_plugin_command demo_set" zero_response]
  obtain resp' m' where "read_response demo_visa (to_plugin_command demo_set) zero_response (zero_state, [], new_manager) = (0, resp', zero_state, [], m')"
      "pr_has_large_data resp'" "fst (get_buffer (pr_data_buffer_id resp') m') \<noteq> None"
    using len by (fastforce simp: t LARGE_DATA_THRESHOLD_def)
  then show ?thesis by (intro exI [of _ resp'] exI [of _ m']) (metis fst_conv)
qed

end
