(* ===== verification/Visa_Builtin.thy ===== *)
theory Visa_Builtin
  imports Visa_Plugin
begin

text \<open>
  \<^verbatim>\<open>src/workers/visa_builtin.cpp\<close>: the smaller VISA plugin that is built with the server. It searches the connection
  text for the address instead of parsing it, and sends the verb of a command as it is. The VISA library
  and \<^verbatim>\<open>strtod\<close> are fields of \<^typ>\<open>('v, 'j) visa_env\<close>.
\<close>

record builtin_state =
  vb_default_rm :: u32
  vb_instrument :: u32
  vb_resource_address :: string

type_synonym 'v builtin = "builtin_state \<times> 'v"

definition builtin_metadata :: plugin_metadata where
  "builtin_metadata = \<lparr>pm_api_version = INSTRUMENT_PLUGIN_API_VERSION,
     pm_name = strncpy0 PLUGIN_MAX_STRING_LEN ''VISA Built-in'', pm_version = strncpy0 PLUGIN_MAX_STRING_LEN ''1.0.0'',
     pm_protocol_type = strncpy0 PLUGIN_MAX_STRING_LEN ''VISA'',
     pm_description = strncpy0 PLUGIN_MAX_STRING_LEN ''Built-in VISA/SCPI adapter''\<rparr>"

abbreviation quote_char :: char where "quote_char \<equiv> CHR 0x22"

definition address_key :: string where
  "address_key = [quote_char] @ ''address'' @ [quote_char] @ '': '' @ [quote_char]"

text \<open>The text between the key and the next quotation mark.\<close>

definition find_address :: "string \<Rightarrow> string option" where
  "find_address connection_json =
     (case find_sub address_key connection_json of
        None \<Rightarrow> None
      | Some pos \<Rightarrow> map_option fst (split_at_char quote_char (drop (pos + length address_key) connection_json)))"

definition builtin_initialize :: "('v, 'j) visa_env \<Rightarrow> plugin_config \<Rightarrow> 'v builtin \<Rightarrow> i32 \<times> 'v builtin" where
  "builtin_initialize E config p =
     (case p of (st, v) \<Rightarrow>
        case find_address (pf_connection_json config) of
          None \<Rightarrow> (-1, p)
        | Some address \<Rightarrow>
            let st1 = st\<lparr>vb_resource_address := address\<rparr> in
            case vi_open_rm E v of (status, rm, v1) \<Rightarrow>
              let st2 = st1\<lparr>vb_default_rm := rm\<rparr> in
              if sint status < 0 then (status, st2, v1)
              else case vi_open E rm address 0 v1 of (status, inst, v2) \<Rightarrow>
                let st3 = st2\<lparr>vb_instrument := inst\<rparr> in
                if sint status < 0 then (status, st3, vi_close E rm v2) else (0, st3, v2))"

definition builtin_execute_command ::
  "('v, 'j) visa_env \<Rightarrow> plugin_command \<Rightarrow> plugin_response \<Rightarrow> 'v builtin \<Rightarrow> i32 \<times> plugin_response \<times> 'v builtin"
where
  "builtin_execute_command E command resp0 p =
     (case p of (st, v) \<Rightarrow>
        let resp = resp0\<lparr>pr_command_id := strncpy0 PLUGIN_MAX_STRING_LEN (pc_id command),
              pr_instrument_name := strncpy0 PLUGIN_MAX_STRING_LEN (pc_instrument_name command)\<rparr>
        in case vi_write E (vb_instrument st) (c_str (pc_verb command) @ [LF]) v of (status, v1) \<Rightarrow>
          if sint status < 0
          then (status, resp\<lparr>pr_success := False, pr_error_code := status,
                  pr_error_message := strncpy0 PLUGIN_MAX_STRING_LEN ''VISA write failed''\<rparr>, st, v1)
          else if \<not> pc_expects_response command then (0, resp\<lparr>pr_success := True\<rparr>, st, v1)
          else case vi_read E (vb_instrument st) 1023 v1 of (status, data, v2) \<Rightarrow>
            if sint status < 0
            then (status, resp\<lparr>pr_success := False, pr_error_code := status,
                    pr_error_message := strncpy0 PLUGIN_MAX_STRING_LEN ''VISA read failed''\<rparr>, st, v2)
            else
              let resp1 = resp\<lparr>pr_text_response := strncpy0 PLUGIN_MAX_PAYLOAD data\<rparr>;
                  resp2 = (case c_strtod E (c_str data) of (val, used) \<Rightarrow>
                    if used \<noteq> 0 then resp1\<lparr>pr_return_value := PARAM_TYPE_DOUBLE val\<rparr> else resp1)
              in (0, resp2\<lparr>pr_success := True\<rparr>, st, v2))"

definition builtin_shutdown :: "('v, 'j) visa_env \<Rightarrow> 'v builtin \<Rightarrow> 'v builtin" where
  "builtin_shutdown E p =
     (case p of (st, v) \<Rightarrow>
        let (st1, v1) = (if vb_instrument st \<noteq> 0 then (st\<lparr>vb_instrument := 0\<rparr>, vi_close E (vb_instrument st) v) else (st, v))
        in if vb_default_rm st1 \<noteq> 0 then (st1\<lparr>vb_default_rm := 0\<rparr>, vi_close E (vb_default_rm st1) v1) else (st1, v1))"

definition builtin_symbols :: "('v, 'j) visa_env \<Rightarrow> 'v builtin plugin_symbols" where
  "builtin_symbols E = \<lparr>ps_get_metadata = Some builtin_metadata, ps_initialize = Some (builtin_initialize E),
     ps_execute_command = Some (builtin_execute_command E), ps_shutdown = Some (builtin_shutdown E)\<rparr>"

section \<open>Facts\<close>

interpretation builtin: worker_plugin "\<lambda>cmd resp p. Some (builtin_execute_command E cmd resp p)" "builtin_shutdown E" for E
proof
  show "pr_command_id resp = strncpy0 PLUGIN_MAX_STRING_LEN (pc_id cmd) \<and>
      pr_instrument_name resp = strncpy0 PLUGIN_MAX_STRING_LEN (pc_instrument_name cmd)"
    if "Some (builtin_execute_command E cmd resp0 p) = Some (rc, resp, p')" for cmd resp0 p rc resp p'
    using that by (auto simp: builtin_execute_command_def Let_def split: prod.splits if_splits)
  show "builtin_shutdown E (builtin_shutdown E p) = builtin_shutdown E p" for p
    by (cases p) (auto simp: builtin_shutdown_def Let_def split: prod.split)
qed

text \<open>The key is searched with a blank after the colon, so a compact JSON text has no address.\<close>

lemma compact_json_has_no_address:
  assumes "CHR '' '' \<notin> set t"
  shows "find_address t = None"
proof -
  have "find_sub address_key t = None"
  proof (rule ccontr)
    assume "find_sub address_key t \<noteq> None"
    then obtain i where "find_sub address_key t = Some i" by blast
    then have "take (length address_key) (drop i t) = address_key" using find_sub_bound by blast
    moreover have "CHR '' '' \<in> set address_key" by (simp add: address_key_def)
    ultimately show False using assms by (metis in_set_dropD in_set_takeD)
  qed
  then show ?thesis by (simp add: find_address_def)
qed

text \<open>The worker's empty object has no address either: a worker with this plugin ends with status 1.\<close>

lemma builtin_worker_cannot_start:
  assumes "ld_symbols (wk_plugin s) = builtin_symbols E"
  shows "worker_run L mq nows s = (Some 1, s)"
proof -
  have "find_address (strncpy0 PLUGIN_MAX_STRING_LEN ''{}'') = None"
    by (rule compact_json_has_no_address) (simp add: strncpy0_def c_str_def PLUGIN_MAX_STRING_LEN_def)
  then have "load_and_init_plugin s = (False, s)"
    using assms by (auto simp: load_and_init_plugin_def Let_def loader_initialize_def builtin_symbols_def builtin_initialize_def
        split: prod.split)
  then show ?thesis by (simp add: worker_run_def)
qed

end
