(* ===== verification/Logger.thy ===== *)
theory Logger
  imports Cxx_Strings
begin

text \<open>
  The logger of all parts of the program (\<^verbatim>\<open>include/instrument-server/Logger.hpp\<close>): one object per process that forwards
  messages to the spdlog library once it is initialised. The library and \<^verbatim>\<open>fmt::format\<close> are the parameter
  \<open>spdlog_env\<close> with a state of their own. Every operation holds the mutex, so it is one step.
\<close>

section \<open>Levels\<close>

text \<open>\<^verbatim>\<open>spdlog::level::level_enum\<close>, in its order.\<close>

datatype log_level = Level_trace | Level_debug | Level_info | Level_warn | Level_err | Level_critical | Level_off

primrec level_number :: "log_level \<Rightarrow> nat" where
  "level_number Level_trace = 0"
| "level_number Level_debug = 1"
| "level_number Level_info = 2"
| "level_number Level_warn = 3"
| "level_number Level_err = 4"
| "level_number Level_critical = 5"
| "level_number Level_off = 6"

lemma level_number_inject [simp]: "level_number a = level_number b \<longleftrightarrow> a = b"
  by (cases a; cases b) simp_all

instantiation log_level :: linorder
begin

definition less_eq_log_level :: "log_level \<Rightarrow> log_level \<Rightarrow> bool" where
  "less_eq_log_level a b \<longleftrightarrow> level_number a \<le> level_number b"

definition less_log_level :: "log_level \<Rightarrow> log_level \<Rightarrow> bool" where
  "less_log_level a b \<longleftrightarrow> level_number a < level_number b"

instance
  by standard (auto simp: less_eq_log_level_def less_log_level_def)

end

text \<open>The option of the command line tool.\<close>

definition parse_log_level :: "string \<Rightarrow> log_level" where
  "parse_log_level level =
     (if level = ''debug'' then Level_debug
      else if level = ''warn'' then Level_warn
      else if level = ''error'' then Level_err
      else if level = ''trace'' then Level_trace
      else Level_info)"

section \<open>The library\<close>

record 's spdlog_env =
  sp_init_thread_pool :: "nat \<Rightarrow> nat \<Rightarrow> 's \<Rightarrow> 's result"
  sp_console_sink :: "log_level \<Rightarrow> 's \<Rightarrow> 's result"
  sp_file_sink :: "string \<Rightarrow> nat \<Rightarrow> nat \<Rightarrow> log_level \<Rightarrow> 's \<Rightarrow> 's result"
  sp_async_logger :: "'s \<Rightarrow> 's result"
  sp_set_level :: "log_level \<Rightarrow> 's \<Rightarrow> 's"
  sp_flush_on :: "log_level \<Rightarrow> 's \<Rightarrow> 's"
  sp_registered :: "'s \<Rightarrow> bool"
  sp_register :: "'s \<Rightarrow> 's result"
  sp_log :: "log_level \<Rightarrow> string \<Rightarrow> 's \<Rightarrow> 's"
  sp_flush :: "'s \<Rightarrow> 's"
  sp_drop :: "'s \<Rightarrow> 's"  \<comment> \<open>what it throws is ignored\<close>
  sp_shutdown :: "'s \<Rightarrow> 's"
  fmt_format :: "string \<Rightarrow> string list \<Rightarrow> string result"

section \<open>Operations\<close>

text \<open>The state is whether \<^verbatim>\<open>logger_\<close> is set, and the state of the library.\<close>

type_synonym 's logger = "bool \<times> 's"

text \<open>The \<^verbatim>\<open>try\<close> block of \<^verbatim>\<open>init\<close>: the exception, if any, with what was done before it.\<close>

definition create_logger :: "'s spdlog_env \<Rightarrow> string \<Rightarrow> log_level \<Rightarrow> 's \<Rightarrow> string option \<times> 's logger" where
  "create_logger P log_file level s =
     (case sp_init_thread_pool P 8192 1 s of
        Inl e \<Rightarrow> (Some e, False, s)
      | Inr s1 \<Rightarrow>
          (case sp_console_sink P Level_info s1 of
             Inl e \<Rightarrow> (Some e, False, s1)
           | Inr s2 \<Rightarrow>
               (case sp_file_sink P log_file (1024 * 1024 * 10) 3 Level_trace s2 of
                  Inl e \<Rightarrow> (Some e, False, s2)
                | Inr s3 \<Rightarrow>
                    (case sp_async_logger P s3 of
                       Inl e \<Rightarrow> (Some e, False, s3)
                     | Inr s4 \<Rightarrow>
                         let s5 = sp_flush_on P Level_warn (sp_set_level P level s4) in
                         if sp_registered P s5 then (None, True, s5)
                         else case sp_register P s5 of Inl e \<Rightarrow> (Some e, True, s5) | Inr s6 \<Rightarrow> (None, True, s6)))))"

text \<open>What \<^verbatim>\<open>init\<close> prints on the standard error stream, and the new state.\<close>

definition logger_init :: "'s spdlog_env \<Rightarrow> string \<Rightarrow> log_level \<Rightarrow> 's logger \<Rightarrow> string \<times> 's logger" where
  "logger_init P log_file level lg =
     (case lg of (logger, s) \<Rightarrow>
        if logger then ([], True, sp_set_level P level s)
        else case create_logger P log_file level s of
            (None, lg') \<Rightarrow> ([], lg')
          | (Some e, lg') \<Rightarrow>
              (if find_sub ''already exists'' e = None then ''Log initialization failed: '' @ e @ [CHR 0x0A] else [], lg'))"

definition logger_shutdown :: "'s spdlog_env \<Rightarrow> 's logger \<Rightarrow> 's logger" where
  "logger_shutdown P lg =
     (case lg of (logger, s) \<Rightarrow>
        let s1 = (if logger then sp_flush P s else s) in (False, sp_shutdown P (sp_drop P s1)))"

text \<open>A message with the context in brackets before it.\<close>

definition log_line :: "string \<Rightarrow> string \<Rightarrow> string \<Rightarrow> string" where
  "log_line instr_name instr_id t = ''['' @ instr_name @ ''] ['' @ instr_id @ ''] '' @ t"

definition log_message ::
  "'s spdlog_env \<Rightarrow> log_level \<Rightarrow> string \<Rightarrow> string \<Rightarrow> string \<Rightarrow> string list \<Rightarrow> 's logger \<Rightarrow> 's logger"
where
  "log_message P level instr_name instr_id fmt_str args lg =
     (case lg of (logger, s) \<Rightarrow>
        if \<not> logger then lg
        else case fmt_format P fmt_str args of
            Inr t \<Rightarrow> (logger, sp_log P level (log_line instr_name instr_id t) s)
          | Inl e \<Rightarrow> (logger, sp_log P Level_err (''[LOGGER] [ERROR] Format failed: '' @ e) s))"

section \<open>What the logger promises\<close>

text \<open>What spdlog documents, with the messages it accepted and the level of the logger visible: nothing fails, and a message is accepted
  when its level is not below that of the logger.\<close>

definition spdlog_ok :: "'s spdlog_env \<Rightarrow> ('s \<Rightarrow> (log_level \<times> string) list) \<Rightarrow> ('s \<Rightarrow> log_level) \<Rightarrow> bool" where
  "spdlog_ok P lines lvl \<longleftrightarrow>
     (\<forall>s. (\<exists>s'. sp_init_thread_pool P 8192 1 s = Inr s' \<and> lines s' = lines s) \<and>
       (\<forall>l. \<exists>s'. sp_console_sink P l s = Inr s' \<and> lines s' = lines s) \<and>
       (\<forall>f n k l. \<exists>s'. sp_file_sink P f n k l s = Inr s' \<and> lines s' = lines s) \<and>
       (\<exists>s'. sp_async_logger P s = Inr s' \<and> lines s' = lines s) \<and>
       (\<forall>l. lines (sp_set_level P l s) = lines s \<and> lvl (sp_set_level P l s) = l) \<and>
       (\<forall>l. lines (sp_flush_on P l s) = lines s \<and> lvl (sp_flush_on P l s) = lvl s) \<and>
       (\<not> sp_registered P s \<longrightarrow> (\<exists>s'. sp_register P s = Inr s' \<and> lines s' = lines s \<and> lvl s' = lvl s)) \<and>
       (\<forall>l t. lines (sp_log P l t s) = lines s @ (if lvl s \<le> l then [(l, t)] else []) \<and> lvl (sp_log P l t s) = lvl s) \<and>
       lines (sp_flush P s) = lines s \<and> lines (sp_drop P s) = lines s \<and> lines (sp_shutdown P s) = lines s)"

text \<open>The specification: the level at which the logger is on, if it is, and the messages accepted so far.\<close>

datatype log_call = Init string log_level | Log log_level string string string "string list" | Shutdown

type_synonym log_spec = "log_level option \<times> (log_level \<times> string) list"

fun spec_step :: "(string \<Rightarrow> string list \<Rightarrow> string result) \<Rightarrow> log_call \<Rightarrow> log_spec \<Rightarrow> log_spec" where
  "spec_step fmt (Init log_file level) (on, lines) = (Some level, lines)"
| "spec_step fmt Shutdown (on, lines) = (None, lines)"
| "spec_step fmt (Log level n i f args) (None, lines) = (None, lines)"
| "spec_step fmt (Log level n i f args) (Some l, lines) =
     (Some l, lines @ (case fmt f args of
        Inr t \<Rightarrow> if l \<le> level then [(level, log_line n i t)] else []
      | Inl e \<Rightarrow> if l \<le> Level_err then [(Level_err, ''[LOGGER] [ERROR] Format failed: '' @ e)] else []))"

fun logger_step :: "'s spdlog_env \<Rightarrow> log_call \<Rightarrow> 's logger \<Rightarrow> 's logger" where
  "logger_step P (Init log_file level) lg = snd (logger_init P log_file level lg)"
| "logger_step P (Log level n i f args) lg = log_message P level n i f args lg"
| "logger_step P Shutdown lg = logger_shutdown P lg"

definition log_view :: "('s \<Rightarrow> (log_level \<times> string) list) \<Rightarrow> ('s \<Rightarrow> log_level) \<Rightarrow> 's logger \<Rightarrow> log_spec" where
  "log_view lines lvl lg = (if fst lg then Some (lvl (snd lg)) else None, lines (snd lg))"

lemma create_logger_ok:
  assumes "spdlog_ok P lines lvl"
  shows "\<exists>s'. create_logger P f level s = (None, True, s') \<and> lines s' = lines s \<and> lvl s' = level"
proof -
  note ok = assms [unfolded spdlog_ok_def, rule_format]
  obtain s1 where s1: "sp_init_thread_pool P 8192 1 s = Inr s1" "lines s1 = lines s" using ok [of s] by blast
  obtain s2 where s2: "sp_console_sink P Level_info s1 = Inr s2" "lines s2 = lines s1" using ok [of s1] by blast
  obtain s3 where s3: "sp_file_sink P f (1024 * 1024 * 10) 3 Level_trace s2 = Inr s3" "lines s3 = lines s2" using ok [of s2] by blast
  obtain s4 where s4: "sp_async_logger P s3 = Inr s4" "lines s4 = lines s3" using ok [of s3] by blast
  define s5 where "s5 = sp_flush_on P Level_warn (sp_set_level P level s4)"
  have s5: "lines s5 = lines s4" "lvl s5 = level"
    unfolding s5_def using ok [of s4] ok [of "sp_set_level P level s4"] by simp_all
  show ?thesis
  proof (cases "sp_registered P s5")
    case True
    then show ?thesis using s1 s2 s3 s4 s5 by (simp add: create_logger_def Let_def flip: s5_def)
  next
    case False
    then obtain s6 where "sp_register P s5 = Inr s6" "lines s6 = lines s5" "lvl s6 = lvl s5" using ok [of s5] by blast
    then show ?thesis using False s1 s2 s3 s4 s5 by (simp add: create_logger_def Let_def flip: s5_def)
  qed
qed

lemma logger_step_refines:
  assumes "spdlog_ok P lines lvl"
  shows "log_view lines lvl (logger_step P c lg) = spec_step (fmt_format P) c (log_view lines lvl lg)"
proof -
  note ok = assms [unfolded spdlog_ok_def, rule_format]
  obtain b s where lg: "lg = (b, s)" by fastforce
  show ?thesis
  proof (cases c)
    case (Init f level)
    obtain s' where "create_logger P f level s = (None, True, s')" "lines s' = lines s" "lvl s' = level"
      using create_logger_ok [OF assms] by blast
    then show ?thesis using Init lg ok [of s] by (simp add: log_view_def logger_init_def)
  next
    case (Log level n i f args)
    then show ?thesis using lg ok [of s] by (auto simp: log_view_def log_message_def split: sum.split)
  next
    case Shutdown
    have "lines (sp_shutdown P (sp_drop P t)) = lines t" for t using ok [of t] ok [of "sp_drop P t"] by simp
    then show ?thesis using Shutdown lg ok [of s] by (simp add: log_view_def logger_shutdown_def Let_def)
  qed
qed

text \<open>Over any sequence of calls the logger accepts what the specification says: messages before the first \<^verbatim>\<open>init\<close> and after a
  \<^verbatim>\<open>shutdown\<close> are dropped, a further \<^verbatim>\<open>init\<close> only changes the level, and a message that cannot be formatted
  becomes an error message.\<close>

theorem logger_refines:
  assumes "spdlog_ok P lines lvl"
  shows "log_view lines lvl (fold (logger_step P) cs lg) = fold (spec_step (fmt_format P)) cs (log_view lines lvl lg)"
  by (induction cs arbitrary: lg) (simp_all add: logger_step_refines [OF assms])

text \<open>When the log file cannot be opened, the logger stays off: later messages are dropped without a trace.\<close>

lemma log_file_failure:
  assumes "sp_init_thread_pool P 8192 1 s = Inr s1" and "sp_console_sink P Level_info s1 = Inr s2"
    and "sp_file_sink P f (1024 * 1024 * 10) 3 Level_trace s2 = Inl e"
  shows "log_message P l n i fs args (snd (logger_init P f level (False, s))) = (False, s2)"
  using assms by (simp add: logger_init_def create_logger_def log_message_def)

section \<open>Witness\<close>

definition list_spdlog :: "(log_level \<times> (log_level \<times> string) list) spdlog_env" where
  "list_spdlog = \<lparr>sp_init_thread_pool = (\<lambda>n k s. Inr s), sp_console_sink = (\<lambda>l s. Inr s), sp_file_sink = (\<lambda>f n k l s. Inr s),
     sp_async_logger = Inr, sp_set_level = (\<lambda>l s. (l, snd s)), sp_flush_on = (\<lambda>l s. s), sp_registered = (\<lambda>s. False), sp_register = Inr,
     sp_log = (\<lambda>l t s. (fst s, snd s @ (if fst s \<le> l then [(l, t)] else []))), sp_flush = (\<lambda>s. s), sp_drop = (\<lambda>s. s),
     sp_shutdown = (\<lambda>s. s), fmt_format = (\<lambda>f args. Inr f)\<rparr>"

theorem logger_refines_witness:
  "snd (snd (fold (logger_step list_spdlog)
      [Log Level_err ''A'' ''1'' ''lost'' [], Init ''x.log'' Level_info, Log Level_debug ''A'' ''2'' ''below'' [], Log Level_warn ''A'' ''3'' ''hot'' []]
      (False, Level_off, []))) = [(Level_warn, ''[A] [3] hot'')]"
proof -
  have "spdlog_ok list_spdlog snd fst" by (simp add: spdlog_ok_def list_spdlog_def)
  from logger_refines [OF this, of "[Log Level_err ''A'' ''1'' ''lost'' [], Init ''x.log'' Level_info, Log Level_debug ''A'' ''2'' ''below'' [],
      Log Level_warn ''A'' ''3'' ''hot'' []]" "(False, Level_off, [])"]
  show ?thesis by (simp add: log_view_def list_spdlog_def less_eq_log_level_def log_line_def)
qed

end
