(* ===== verification/Spec2Isabelle.thy ===== *)
theory Spec2Isabelle
  imports Codec Sync_Coordinator Data_Buffer Job_Manager Ipc Plugin Worker Process_Manager_Win Worker_Proxy Instrument_Registry Runtime_Tokens Cli Template_Tools Script_Path Visa_Builtin Logger
begin

text \<open>
  \<^bold>\<open>The instrument script server\<close>

  The program runs laboratory instruments. A daemon accepts JSON commands over HTTP, keeps a registry of
  instruments, and starts one worker process per instrument. Server and worker exchange fixed-size messages
  over a pair of message queues; the worker runs each command in a plugin, a shared library with a C
  interface, and answers with a response. Lua scripts issue commands through a runtime context, one at a
  time or in parallel blocks, and jobs run scripts in the background. Offline tools check and generate the
  YAML files that describe instruments. The sources are under \<^verbatim>\<open>src/\<close> and \<^verbatim>\<open>include/instrument-server/\<close>.

  \<^bold>\<open>Theories and the code they model\<close>

  \<^item> \<^verbatim>\<open>Prelude\<close>, \<^verbatim>\<open>Cxx_Strings\<close>, \<^verbatim>\<open>Json\<close>, \<^verbatim>\<open>Yaml\<close>: machine integers at their width, exceptions as sums, \<^verbatim>\<open>std::map\<close>
    and \<^verbatim>\<open>std::unordered_map\<close> behind the locale \<open>kv_container\<close> (interpreted for both), decimal printing and
    reading, \<^verbatim>\<open>nlohmann::json\<close> and \<^verbatim>\<open>YAML::Node\<close> as trees with the accessors the sources use, and computations
    that report problems (\<^verbatim>\<open>clean_iff\<close> says when they report none).
  \<^item> \<^verbatim>\<open>Codec\<close> (\<^verbatim>\<open>SerializedCommand.cpp\<close>): commands and responses as JSON; both round trips.
  \<^item> \<^verbatim>\<open>Sync_Coordinator\<close> (\<^verbatim>\<open>SyncCoordinator.cpp\<close>): barriers per token; the locale \<open>barrier_table\<close> states the contract
    and the coordinator refines a table of outstanding instruments.
  \<^item> \<^verbatim>\<open>Data_Buffer\<close> (\<^verbatim>\<open>DataBufferManager.cpp\<close>, its C interface): reference-counted blocks; fresh identifiers through
    the locale \<open>id_source\<close>, life time, bounds of the exports.
  \<^item> \<^verbatim>\<open>Job_Manager\<close> (\<^verbatim>\<open>JobManager.cpp\<close>): one step per critical section of clients, the worker thread and the monitor
    threads; invariants over all interleavings (\<open>job_reachable\<close>), completion of sleep jobs, and the race of
    cancellation with the peeked job.
  \<^item> \<^verbatim>\<open>Ipc\<close> (\<^verbatim>\<open>IPCMessage.hpp\<close>, \<^verbatim>\<open>SharedQueue.cpp\<close>), \<^verbatim>\<open>Plugin\<close> (\<^verbatim>\<open>PluginInterface.h\<close>, \<^verbatim>\<open>PluginLoader.cpp\<close>,
    \<^verbatim>\<open>PluginRegistry.cpp\<close>), \<^verbatim>\<open>Worker\<close> (\<^verbatim>\<open>generic_worker_main.cpp\<close>), \<^verbatim>\<open>Process_Manager\<close> (\<^verbatim>\<open>ProcessManager.cpp\<close>),
    \<^verbatim>\<open>Worker_Proxy\<close> (\<^verbatim>\<open>InstrumentWorkerProxy.cpp\<close>): the two ends of a worker, the queues between them, the
    processes and the plugins. Every future is pending or answered; stopping answers all. \<^verbatim>\<open>Process_Manager_Win\<close>:
    the branches of the process manager for Windows; no process handle is lost. \<^verbatim>\<open>Worker_Shutdown\<close>: a worker
    process exits after its \<^verbatim>\<open>SHUTDOWN\<close> message. \<^verbatim>\<open>Command_Path\<close>: proxy and worker together, as a step relation over all
    interleavings with clients and the rest of the server; the plugin executes commands at most once and in order, and futures get their
    own answers. What a plugin has to be given for a command is \<open>plugin_receives\<close>, and what it goes through is
    \<open>plugin_trace\<close>, both of \<^verbatim>\<open>Worker\<close> and written without the worker's conversions.
  \<^item> \<^verbatim>\<open>Visa_Plugin\<close> (\<^verbatim>\<open>plugins/visa/visa_plugin.c\<close>), \<^verbatim>\<open>Visa_Builtin\<close> (\<^verbatim>\<open>src/workers/visa_builtin.cpp\<close>): the two
    plugins for VISA instruments. The locale \<open>worker_plugin\<close> states what the worker relies on and is interpreted for
    both; commands are templates filled in from their parameters, long readings become data buffers.
  \<^item> \<^verbatim>\<open>Api_Ref_Resolver\<close>, \<^verbatim>\<open>Instrument_Registry\<close> (\<^verbatim>\<open>ApiRefResolver.cpp\<close>, \<^verbatim>\<open>InstrumentRegistry.cpp\<close>): creation, look-up and
    removal of instruments; \<open>registry_step\<close> and its invariant.
  \<^item> \<^verbatim>\<open>Runtime_Context\<close>, \<^verbatim>\<open>Runtime_Tokens\<close> (\<^verbatim>\<open>RuntimeContext.cpp\<close>): calls and parallel blocks of a script, tokens, futures
    and results; every command gets its own response. \<^verbatim>\<open>Script_Path\<close>: the context over proxy and worker, so that a script's
    call is followed from Lua to the plugin and back.
  \<^item> \<^verbatim>\<open>Server_Daemon\<close> (\<^verbatim>\<open>ServerDaemon.cpp\<close>), \<^verbatim>\<open>Command_Handlers\<close> (\<^verbatim>\<open>CommandHandlers.cpp\<close>), \<^verbatim>\<open>Http_Rpc\<close>
    and \<^verbatim>\<open>Http_Server\<close> (\<^verbatim>\<open>HttpRpcServer.cpp\<close>), \<^verbatim>\<open>Rpc_Commands\<close>: the daemon, its fifteen commands, reading a request and
    replying, the loop that accepts clients, and what commands do through the interface.
  \<^item> \<^verbatim>\<open>Logger\<close> (\<^verbatim>\<open>Logger.hpp\<close>): the logger of every process refines a level and a list of accepted messages. The calls that log
    are not part of the other models.
  \<^item> \<^verbatim>\<open>Cli\<close> (\<^verbatim>\<open>instrument_server_main.cpp\<close>): the command line tool over the same handlers.
  \<^item> \<^verbatim>\<open>Schema_Validator\<close>, \<^verbatim>\<open>Schema_Meaning\<close> (\<^verbatim>\<open>SchemaValidator.cpp\<close> and three programs), \<^verbatim>\<open>Template_Tools\<close>
    (\<^verbatim>\<open>template_expander.cpp\<close>, \<^verbatim>\<open>instrument_configuration_generator.cpp\<close>): what a valid file guarantees, and that the
    generators write valid files; the locale \<open>accumulation\<close> carries both generator proofs.
  \<^item> This theory: a command on its whole way from a proxy through the worker's plugin and back.

  \<^bold>\<open>Conventions\<close>

  A class is a record, an operation a function from the state to the state with its result. An exception is
  \<^const>\<open>Inl\<close> of its text; \<^const>\<open>None\<close> is a call that does not return, or, where a theory says so, behaviour the
  language leaves undefined. Operations under one mutex are atomic; a wait releases it and so ends a step. \<^verbatim>\<open>execute\<close> and
  \<^verbatim>\<open>stop\<close> of a proxy are single steps as well, although no one mutex spans them; queue handles are the names of their queues,
  and creating a queue whose name is free succeeds.
  Integers have their C++ width where they can wrap (\<^typ>\<open>64 word\<close> identifiers, sizes and counters,
  \<^typ>\<open>32 word\<close> reference counts).

  \<^bold>\<open>Parameters and what is assumed of them\<close>

  Code outside the repository is an argument: \<open>json_lib\<close> (\<open>json_lib_ok\<close>: parsing a dump gives the document back,
  numbers that are not finite as null), \<open>mq_lib\<close> (\<open>mq_lib_ok\<close>: a message queue keeps messages in order up to
  its capacity), \<open>os_lib\<close> (\<open>os_lib_ok\<close>: \<^verbatim>\<open>waitpid\<close> tells whether a child runs; \<open>kill_takes_effect\<close>: a child that was sent SIGKILL can be
  found running only so many times more), \<open>yaml_lib\<close>,
  \<open>visa_env\<close> (the VISA library and the conversions of the C library), \<open>spdlog_env\<close> (\<open>spdlog_ok\<close>: a message is accepted when
  its level is not below the logger's), \<^verbatim>\<open>dlopen\<close> and plugins in general, the file system, the clock, and the Lua interpreter (a script is the sequence of
  calls it makes). Each hypothesis has an instance in a witness.

  \<^bold>\<open>Bounds\<close>

  Properties about identifiers hold for fewer than \<open>2 ^ 64 - 1\<close> of them, reference counts for fewer than
  \<open>2 ^ 32\<close> holders, request bodies for lengths below \<open>2 ^ 31\<close>; header blocks are read up to \<open>MAX_HEADER_READ\<close>,
  and a payload holds 4096 bytes. Loops are recursive functions with termination proofs; the waits of the
  process manager poll a given number of times, and the loops of threads are sequences of rounds of any length.

  \<^bold>\<open>Not modelled\<close>

  Windows branches other than those of the process manager, socket set-up calls, the places that log, the usage texts, the generated schema texts, and
  \<^verbatim>\<open>WorkerProtocol.cpp\<close>, which is in no build target. Documents are trees, so YAML aliases are copies. The texts of
  exceptions thrown by libraries are abbreviated.
\<close>

section \<open>A command from the server to the plugin and back\<close>

text \<open>C1: A command, end to end. When a client sends a command through the proxy of an instrument with empty
  queues, one round of the worker's loop makes the plugin execute exactly one command, which has the
  proxy's identifier and the instrument, verb and parameters of the command sent, as far as they fit the plugin's C
  structure (\<^const>\<open>plugin_receives\<close>: texts up to 127 characters, the first sixteen parameters, no array values, no doubles
  that are not finite); and one round of the proxy's response thread then gives the future that was returned exactly the
  plugin's response. The texts fit the 4096-byte payload, arrays and the return value are finite, and no
  heartbeat is due; \<^verbatim>\<open>__BARRIER_NOP__\<close>, which no plugin sees, is another matter.\<close>

theorem command_end_to_end:
  fixes s :: "('p, 'w) worker" and sh :: "('w, 'o) shared"
  assumes "json_lib_ok L" and "mq_lib_ok mq view"
    and "px_ipc_queue px = Some (server_end i)"
    and "view (sh_shm sh) (req_of i) = Some (100, [])" and "view (sh_shm sh) (resp_of i) = Some (100, [])"
    and "wk_ipc_queue s = Some (worker_end i)" and "wk_waiting_sync_token s = None"
    and "int now - wk_last_heartbeat s < 500"
    and "sc_verb cmd \<noteq> ''__BARRIER_NOP__''"
    and "plugin_answers_ok L (px_instrument_name px) (px_next_message_id px) cmd s"
    and "umap_ok (sc_params cmd)" and "arrays_finite (sc_params cmd)"
    and "serialize_command L (numbered_command (px_instrument_name px) (px_next_message_id px) cmd) = Inr text"
    and "length text \<le> IPC_MAX_PAYLOAD"
  shows "\<exists>c px1 sh1 s2 px2 sh2 pc presp.
    proxy_execute L mq cmd (px, sh) = (Inr c, px1, sh1) \<and>
    main_round L mq now (s\<lparr>wk_shm := sh_shm sh1\<rparr>) = Inr s2 \<and>
    listener_round L mq t (px1, sh1\<lparr>sh_shm := wk_shm s2\<rparr>) = Inr (px2, sh2) \<and>
    plugin_receives (command_id_string (px_instrument_name px) c) (sc_instrument_name cmd) (sc_verb cmd) (sc_params cmd)
      (sc_expects_response cmd) pc \<and>
    plugin_trace (wk_plugin s) (wk_plugin_state s) [(pc, presp)] (wk_plugin_state s2) \<and>
    map_of (px_ready px2) c = Some (response_on_wire (from_plugin_response presp)) \<and>
    c \<notin> set (px_pending px2)"
  by (rule command_round_trip [OF assms])

section \<open>Witnesses\<close>

theorem command_end_to_end_witness:
  "\<exists>px1 sh1 s2 px2 sh2 r.
     proxy_execute read_lib list_mq read_command (demo_px, demo_shared\<lparr>sh_shm := demo_shm\<rparr>) = (Inr 1, px1, sh1) \<and>
     main_round read_lib list_mq 9 (log_worker\<lparr>wk_shm := sh_shm sh1\<rparr>) = Inr s2 \<and>
     listener_round read_lib list_mq 9 (px1, sh1\<lparr>sh_shm := wk_shm s2\<rparr>) = Inr (px2, sh2) \<and>
     map (\<lambda>pc. (pc_verb pc, pc_params pc)) (wk_plugin_state s2) =
       [(''READ'', [\<lparr>pp_name = ''range'', pp_value = PARAM_TYPE_INT64 10\<rparr>])] \<and>
     map_of (px_ready px2) 1 = Some r \<and> cr_success r"
proof -
  let ?sh = "demo_shared\<lparr>sh_shm := demo_shm\<rparr>"
  obtain t where t: "serialize_command read_lib (numbered_command (px_instrument_name demo_px) (px_next_message_id demo_px) read_command) = Inr t"
      "length t \<le> IPC_MAX_PAYLOAD"
    using read_text by blast
  obtain c px1 sh1 s2 px2 sh2 pc presp where
    ex: "proxy_execute read_lib list_mq read_command (demo_px, ?sh) = (Inr c, px1, sh1)"
    and mr: "main_round read_lib list_mq 9 (log_worker\<lparr>wk_shm := sh_shm sh1\<rparr>) = Inr s2"
    and lr: "listener_round read_lib list_mq 9 (px1, sh1\<lparr>sh_shm := wk_shm s2\<rparr>) = Inr (px2, sh2)"
    and pc: "receives (px_instrument_name demo_px) c read_command pc"
    and tr: "plugin_trace log_loader [] [(pc, presp)] (wk_plugin_state s2)"
    and rd: "map_of (px_ready px2) c = Some (response_on_wire (from_plugin_response presp))"
    using command_end_to_end [OF read_setup(1) list_mq_ok read_setup(2-11) t, of 9, unfolded read_setup(14,15)] by blast
  have "wk_plugin_state s2 = [pc]" "presp = yes_response" using tr unfolding log_trace by simp_all
  then show ?thesis
    using ex mr lr rd read_id [OF ex] read_received [OF pc] yes_response_ok(2) by auto
qed

end
